theory Spec2Isabelle
  imports Main "HOL-Library.Sublist" "HOL-Library.Word"
begin

section \<open>Strings of the Go standard library used by the validator\<close>

text \<open>
  Go strings are byte sequences; they are modelled as \<^typ>\<open>string\<close>. The functions below
  are exact on ASCII input. \<open>unicode.IsUpper\<close>, \<open>unicode.ToLower\<close> and
  \<open>unicode.ToUpper\<close> are given on the ASCII letters and leave every other byte as it is;
  they only feed the suggestion text of naming errors. Go reads a name rune by rune where
  the functions below read it byte by byte, which is the same on ASCII names: on a name
  with other letters the suggestion text can differ from the one Go prints. The names that
  pass the naming checks are ASCII, and nothing below rests on the suggestion for another
  name.
\<close>

definition lower_letters :: string where
  "lower_letters = ''abcdefghijklmnopqrstuvwxyz''"

definition upper_letters :: string where
  "upper_letters = ''ABCDEFGHIJKLMNOPQRSTUVWXYZ''"

definition digit_chars :: string where
  "digit_chars = ''0123456789''"

definition is_lower :: "char \<Rightarrow> bool" where
  "is_lower c = (c \<in> set lower_letters)"

definition IsUpper :: "char \<Rightarrow> bool" where
  "IsUpper c = (c \<in> set upper_letters)"

definition is_digit :: "char \<Rightarrow> bool" where
  "is_digit c = (c \<in> set digit_chars)"

definition ToLower :: "char \<Rightarrow> char" where
  "ToLower c = (case map_of (zip upper_letters lower_letters) c of Some d \<Rightarrow> d | None \<Rightarrow> c)"

definition ToUpper :: "char \<Rightarrow> char" where
  "ToUpper c = (case map_of (zip lower_letters upper_letters) c of Some d \<Rightarrow> d | None \<Rightarrow> c)"

text \<open>\<open>strings.Split(s, sep)\<close>: the pieces of \<open>s\<close> between the non-overlapping
  occurrences of \<open>sep\<close>, scanned from the left. The accumulator holds the piece being read.
  With an empty separator Go cuts after every character.\<close>

function split_from :: "string \<Rightarrow> string \<Rightarrow> string \<Rightarrow> string list" where
  "split_from sep acc [] = [acc]"
| "split_from sep acc (c # cs) =
     (if sep \<noteq> [] \<and> prefix sep (c # cs)
      then acc # split_from sep [] (drop (length sep) (c # cs))
      else split_from sep (acc @ [c]) cs)"
  by pat_completeness auto
termination
  by (relation "measure (\<lambda>(sep, acc, s). length s)") auto

definition Split :: "string \<Rightarrow> string \<Rightarrow> string list" where
  "Split s sep = (if sep = [] then map (\<lambda>c. [c]) s else split_from sep [] s)"

text \<open>\<open>strings.Join(elems, sep)\<close>.\<close>

fun Join :: "string list \<Rightarrow> string \<Rightarrow> string" where
  "Join [] sep = []"
| "Join [x] sep = x"
| "Join (x # y # ys) sep = x @ sep @ Join (y # ys) sep"

text \<open>\<open>strings.HasSuffix\<close>.\<close>

definition HasSuffix :: "string \<Rightarrow> string \<Rightarrow> bool" where
  "HasSuffix s suf = suffix suf s"

text \<open>The verb \<open>%d\<close> of \<open>fmt.Sprintf\<close> on an \<open>int\<close>.\<close>

function digits_of :: "nat \<Rightarrow> string" where
  "digits_of n =
     (if n < 10 then [digit_chars ! n] else digits_of (n div 10) @ [digit_chars ! (n mod 10)])"
  by pat_completeness auto
termination
  by (relation "measure id") auto

definition fmt_d :: "int \<Rightarrow> string" where
  "fmt_d i = (if i < 0 then CHR ''-'' # digits_of (nat (- i)) else digits_of (nat i))"

section \<open>Validation errors (errors.go)\<close>

text \<open>
  \<open>ValidationErrorType\<close> is a string type with a fixed group of constants; each constant is
  a constructor here.

  Modelled from the spec: \<open>CircularDependencyError\<close> is used by
  \<open>validateCircularDependencies\<close> but declared in no source file; the spec describes it as
  an error kind that is not declared in the shared error-kind list. It is taken as one more
  error kind, distinct from the declared ones.
\<close>

datatype ValidationErrorType =
    UndefinedTypeError
  | InvalidPrimitiveError
  | InvalidMapKeyError
  | NamingConventionError
  | DuplicateTypeError
  | DuplicateFieldError
  | DuplicateVariantError
  | DuplicateConstantError
  | InvalidImportError
  | InvalidOptionalError
  | InvalidConstantError
  | CircularDependencyError

record ValidationError =
  Type :: ValidationErrorType
  Message :: string
  File :: string
  Line :: int
  Column :: int
  Suggestion :: string

record ValidationResult =
  Errors :: "ValidationError list"
  Valid :: bool

definition HasErrors :: "ValidationResult \<Rightarrow> bool" where
  "HasErrors r = (length (Errors r) > 0)"

definition ErrorCount :: "ValidationResult \<Rightarrow> nat" where
  "ErrorCount r = length (Errors r)"

definition AddError ::
  "ValidationErrorType \<Rightarrow> string \<Rightarrow> string \<Rightarrow> int \<Rightarrow> int \<Rightarrow> string
     \<Rightarrow> ValidationResult \<Rightarrow> ValidationResult" where
  "AddError errorType message file line column suggestion r =
     r\<lparr>Errors := Errors r @
          [\<lparr>Type = errorType, Message = message, File = file, Line = line,
            Column = column, Suggestion = suggestion\<rparr>],
       Valid := False\<rparr>"

definition NewValidationResult :: ValidationResult where
  "NewValidationResult = \<lparr>Errors = [], Valid = True\<rparr>"

section \<open>Naming and primitive-type rules (rules.go)\<close>

text \<open>The regular expressions \<open>^[a-z][a-z0-9_]*$\<close>, \<open>^[A-Z][a-zA-Z0-9]*$\<close> and
  \<open>^[A-Z][A-Z0-9_]*$\<close>.\<close>

definition IsValidSnakeCase :: "string \<Rightarrow> bool" where
  "IsValidSnakeCase s =
     (case s of [] \<Rightarrow> False
      | c # cs \<Rightarrow> is_lower c \<and> list_all (\<lambda>d. is_lower d \<or> is_digit d \<or> d = CHR ''_'') cs)"

definition IsValidPascalCase :: "string \<Rightarrow> bool" where
  "IsValidPascalCase s =
     (case s of [] \<Rightarrow> False
      | c # cs \<Rightarrow> IsUpper c \<and> list_all (\<lambda>d. is_lower d \<or> IsUpper d \<or> is_digit d) cs)"

definition IsValidConstantCase :: "string \<Rightarrow> bool" where
  "IsValidConstantCase s =
     (case s of [] \<Rightarrow> False
      | c # cs \<Rightarrow> IsUpper c \<and> list_all (\<lambda>d. IsUpper d \<or> is_digit d \<or> d = CHR ''_'') cs)"

text \<open>The two tables are Go maps from names to \<open>true\<close>; a lookup of an absent key gives
  \<open>false\<close>.\<close>

definition ValidPrimitiveTypes :: "(string \<times> bool) list" where
  "ValidPrimitiveTypes =
     [(''int8'', True), (''int16'', True), (''int32'', True), (''int64'', True),
      (''nat8'', True), (''nat16'', True), (''nat32'', True), (''nat64'', True),
      (''float32'', True), (''float64'', True),
      (''string'', True), (''bool'', True),
      (''json'', True),
      (''datetime'', True), (''date'', True), (''time'', True)]"

definition ValidMapKeyTypes :: "(string \<times> bool) list" where
  "ValidMapKeyTypes =
     [(''string'', True),
      (''int8'', True), (''int16'', True), (''int32'', True), (''int64'', True),
      (''nat8'', True), (''nat16'', True), (''nat32'', True), (''nat64'', True)]"

text \<open>
  The names of the primitive types of the language: the keywords that the lexer reads as
  primitive types (\<open>Keywords\<close> in lexer.go) and that the rule \<open>primitive_type\<close> of the
  grammar (grammar.y) turns into \<open>PrimitiveType\<close> nodes, in the order of the rule. The
  parser builds no \<open>PrimitiveType\<close> node with another name.
\<close>

definition primitiveKeywords :: "string list" where
  "primitiveKeywords =
     [''int8'', ''int16'', ''int32'', ''int64'', ''int'', ''bigint'',
      ''nat8'', ''nat16'', ''nat32'', ''nat64'', ''nat'', ''bignat'',
      ''float32'', ''float64'', ''decimal'', ''string'', ''bool'', ''json'',
      ''time'', ''date'', ''datetime'', ''timetz'', ''datetz'', ''datetimetz'']"

definition IsValidPrimitiveType :: "string \<Rightarrow> bool" where
  "IsValidPrimitiveType typeName =
     (case map_of ValidPrimitiveTypes typeName of Some b \<Rightarrow> b | None \<Rightarrow> False)"

definition IsValidMapKeyType :: "string \<Rightarrow> bool" where
  "IsValidMapKeyType typeName =
     (case map_of ValidMapKeyTypes typeName of Some b \<Rightarrow> b | None \<Rightarrow> False)"

fun snake_runes :: "nat \<Rightarrow> string \<Rightarrow> string" where
  "snake_runes i [] = []"
| "snake_runes i (r # rs) =
     (if i > 0 \<and> IsUpper r then [CHR ''_''] else []) @ ToLower r # snake_runes (Suc i) rs"

definition SuggestSnakeCase :: "string \<Rightarrow> string" where
  "SuggestSnakeCase s = (if IsValidSnakeCase s then s else snake_runes 0 s)"

definition pascal_part :: "string \<Rightarrow> string" where
  "pascal_part part = (case part of [] \<Rightarrow> [] | c # cs \<Rightarrow> ToUpper c # map ToLower cs)"

definition SuggestPascalCase :: "string \<Rightarrow> string" where
  "SuggestPascalCase s =
     (if IsValidPascalCase s then s else concat (map pascal_part (Split s ''_'')))"

definition SuggestConstantCase :: "string \<Rightarrow> string" where
  "SuggestConstantCase s =
     (if IsValidConstantCase s then s else map ToUpper (SuggestSnakeCase s))"

definition IsValidModuleName :: "string \<Rightarrow> bool" where
  "IsValidModuleName name =
     (if name = [] then False else list_all IsValidSnakeCase (Split name ''.''))"

definition SuggestModuleName :: "string \<Rightarrow> string" where
  "SuggestModuleName name =
     (if IsValidModuleName name then name
      else Join (map SuggestSnakeCase (Split name ''.'')) ''.'')"

section \<open>The syntax tree (parser/ast)\<close>

record Position =
  Filename :: string
  PosLine :: int
  PosColumn :: int

text \<open>A type expression. The validator and the registry never read the position of a
  type node (they report the position of the enclosing field, variant or alias), so the
  embedded \<open>BaseNode\<close> of the five type nodes is left out.\<close>

datatype ast_type =
    PrimitiveType string
  | NamedType string
  | ArrayType ast_type
  | MapType ast_type ast_type
  | OptionalType ast_type

record FieldNode =
  FieldPos :: Position
  FieldName :: string
  FieldType :: ast_type
  FieldOptional :: bool

text \<open>\<open>Payload\<close> is a Go interface value and may be \<open>nil\<close>.\<close>

record EnumVariantNode =
  VariantPos :: Position
  VariantName :: string
  Payload :: "ast_type option"

datatype ConstantValue = IntConstant "64 word" | StringConstant string

text \<open>The four kinds of declaration; each carries its position and name. The value of a
  constant may be \<open>nil\<close>.\<close>

datatype Declaration =
    StructNode Position string "FieldNode list"
  | EnumNode Position string "EnumVariantNode list"
  | TypeAliasNode Position string ast_type
  | ConstantNode Position string "ConstantValue option"

fun DeclPos :: "Declaration \<Rightarrow> Position" where
  "DeclPos (StructNode p n fs) = p"
| "DeclPos (EnumNode p n vs) = p"
| "DeclPos (TypeAliasNode p n t) = p"
| "DeclPos (ConstantNode p n v) = p"

fun DeclName :: "Declaration \<Rightarrow> string" where
  "DeclName (StructNode p n fs) = n"
| "DeclName (EnumNode p n vs) = n"
| "DeclName (TypeAliasNode p n t) = n"
| "DeclName (ConstantNode p n v) = n"

record ImportNode =
  ImportPos :: Position
  ImportPath :: string

record ProgramNode =
  Imports :: "ImportNode list"
  Declarations :: "Declaration list"

text \<open>
  A module owns two Go maps, from file names to programs and from directory names to
  submodules. A Go map is modelled as an association list with distinct keys; the order of
  the list is the order in which a \<open>range\<close> statement visits the entries, which Go leaves
  unspecified.
\<close>

datatype Module =
  Module (ModulePath: string) (ModuleName: string)
         (Files: "(string \<times> ProgramNode) list") (SubModules: "(string \<times> Module) list")

text \<open>The path of a file or submodule below \<open>basePath\<close>, as both tree walks compute it.\<close>

definition joinPath :: "string \<Rightarrow> string \<Rightarrow> string" where
  "joinPath basePath name = (if basePath \<noteq> [] then basePath @ ''/'' @ name else name)"

section \<open>The type registry (resolver.go)\<close>

text \<open>
  The source holds two versions of the registry. They agree word for word on
  \<open>qualifyName\<close>, \<open>TypeExists\<close> and \<open>FindType\<close>. The version modelled here is the one
  \<open>Validate\<close> needs: it records the dependencies of each type and has
  \<open>ValidateCircularDependencies\<close>. (The other version has no dependency list and keeps a
  second index by module path, which \<open>TypeExists\<close> and \<open>FindType\<close> never read.)
\<close>

record TypeInfo =
  InfoName :: string
  DeclType :: string
  InfoFile :: string
  InfoLine :: int
  InfoColumn :: int
  Dependencies :: "string list"

record TypeRegistry =
  types :: "(string \<times> TypeInfo) list"
  currentFile :: string

definition NewTypeRegistry :: TypeRegistry where
  "NewTypeRegistry = \<lparr>types = [], currentFile = []\<rparr>"

definition qualifyName :: "string \<Rightarrow> string \<Rightarrow> string" where
  "qualifyName name file = file @ ''::'' @ name"

text \<open>Assignment \<open>m[k] = v\<close> to a Go map: an entry with the key is replaced, otherwise a
  new entry is added.\<close>

fun map_put :: "'k \<Rightarrow> 'v \<Rightarrow> ('k \<times> 'v) list \<Rightarrow> ('k \<times> 'v) list" where
  "map_put k v [] = [(k, v)]"
| "map_put k v ((k', v') # kvs) = (if k' = k then (k, v) # kvs else (k', v') # map_put k v kvs)"

definition RegisterType ::
  "string \<Rightarrow> string \<Rightarrow> string \<Rightarrow> int \<Rightarrow> int \<Rightarrow> TypeRegistry \<Rightarrow> TypeRegistry" where
  "RegisterType name declType file line column r =
     r\<lparr>types := map_put (qualifyName name file)
          \<lparr>InfoName = name, DeclType = declType, InfoFile = file, InfoLine = line,
           InfoColumn = column, Dependencies = []\<rparr> (types r)\<rparr>"

definition AddDependency :: "string \<Rightarrow> string \<Rightarrow> string \<Rightarrow> TypeRegistry \<Rightarrow> TypeRegistry" where
  "AddDependency fromType toType file r =
     (case map_of (types r) (qualifyName fromType file) of
        Some info \<Rightarrow>
          r\<lparr>types := map_put (qualifyName fromType file)
               (info\<lparr>Dependencies := Dependencies info @ [toType]\<rparr>) (types r)\<rparr>
      | None \<Rightarrow> r)"

definition TypeExists :: "TypeRegistry \<Rightarrow> string \<Rightarrow> string \<Rightarrow> bool" where
  "TypeExists r name curFile =
     (if IsValidPrimitiveType name then True
      else if map_of (types r) (qualifyName name curFile) \<noteq> None then True
      else list_ex (\<lambda>(qualName, info). HasSuffix qualName (''::'' @ name)) (types r))"

definition FindType :: "TypeRegistry \<Rightarrow> string \<Rightarrow> string \<Rightarrow> TypeInfo option" where
  "FindType r name curFile =
     (case map_of (types r) (qualifyName name curFile) of
        Some info \<Rightarrow> Some info
      | None \<Rightarrow>
          map_option snd
            (find (\<lambda>(qualName, info). HasSuffix qualName (''::'' @ name)) (types r)))"

fun addTypeDependencies :: "string \<Rightarrow> ast_type \<Rightarrow> string \<Rightarrow> TypeRegistry \<Rightarrow> TypeRegistry" where
  "addTypeDependencies fromType (NamedType n) file r = AddDependency fromType n file r"
| "addTypeDependencies fromType (ArrayType t) file r = addTypeDependencies fromType t file r"
| "addTypeDependencies fromType (MapType k v) file r =
     addTypeDependencies fromType v file (addTypeDependencies fromType k file r)"
| "addTypeDependencies fromType (OptionalType t) file r = addTypeDependencies fromType t file r"
| "addTypeDependencies fromType (PrimitiveType n) file r = r"

fun registerDeclaration :: "string \<Rightarrow> Declaration \<Rightarrow> TypeRegistry \<Rightarrow> TypeRegistry" where
  "registerDeclaration fullPath (StructNode pos name flds) r =
     fold (\<lambda>field. addTypeDependencies name (FieldType field) fullPath) flds
       (RegisterType name ''struct'' fullPath (PosLine pos) (PosColumn pos) r)"
| "registerDeclaration fullPath (EnumNode pos name vars) r =
     fold (\<lambda>variant. case Payload variant of
                        Some t \<Rightarrow> addTypeDependencies name t fullPath
                      | None \<Rightarrow> id) vars
       (RegisterType name ''enum'' fullPath (PosLine pos) (PosColumn pos) r)"
| "registerDeclaration fullPath (TypeAliasNode pos name t) r =
     addTypeDependencies name t fullPath
       (RegisterType name ''alias'' fullPath (PosLine pos) (PosColumn pos) r)"
| "registerDeclaration fullPath (ConstantNode pos name v) r =
     RegisterType name ''constant'' fullPath (PosLine pos) (PosColumn pos) r"

definition registerFile :: "string \<Rightarrow> string \<times> ProgramNode \<Rightarrow> TypeRegistry \<Rightarrow> TypeRegistry" where
  "registerFile basePath entry r =
     (let fullPath = joinPath basePath (fst entry) in
      fold (registerDeclaration fullPath) (Declarations (snd entry))
        (r\<lparr>currentFile := fullPath\<rparr>))"

fun processModuleForRegistry :: "Module \<Rightarrow> string \<Rightarrow> TypeRegistry \<Rightarrow> TypeRegistry"
  and processSubModulesForRegistry ::
    "(string \<times> Module) list \<Rightarrow> string \<Rightarrow> TypeRegistry \<Rightarrow> TypeRegistry" where
  "processModuleForRegistry (Module path name files subs) basePath r =
     processSubModulesForRegistry subs basePath (fold (registerFile basePath) files r)"
| "processSubModulesForRegistry [] basePath r = r"
| "processSubModulesForRegistry ((subModuleName, subModule) # rest) basePath r =
     processSubModulesForRegistry rest basePath
       (processModuleForRegistry subModule (joinPath basePath subModuleName) r)"

definition buildTypeRegistry :: "Module \<Rightarrow> TypeRegistry" where
  "buildTypeRegistry module = processModuleForRegistry module [] NewTypeRegistry"

subsection \<open>Cycle detection\<close>

text \<open>
  \<open>visited\<close> and \<open>recStack\<close> are Go maps from names to booleans that are only read by key
  (an absent key reads as \<open>false\<close>), so they are functions here. Both are shared by all
  calls: every call returns them updated, next to the cycle it found (\<open>nil\<close> is \<open>None\<close>).
  \<open>detectDeps\<close> is the loop over the dependencies of one type. A call that returns a
  cycle returns at once and leaves the marks of \<open>recStack\<close> as they are.
\<close>

type_synonym marks = "string \<Rightarrow> bool"

function detectCycle ::
    "TypeRegistry \<Rightarrow> string \<Rightarrow> marks \<Rightarrow> marks \<Rightarrow> string list
       \<Rightarrow> string list option \<times> marks \<times> marks"
  and detectDeps ::
    "TypeRegistry \<Rightarrow> string \<Rightarrow> string list \<Rightarrow> marks \<Rightarrow> marks \<Rightarrow> string list
       \<Rightarrow> string list option \<times> marks \<times> marks" where
  "detectCycle r typeName visited recStack path =
     (case map_of (types r) typeName of
        Some typeInfo \<Rightarrow>
          (case detectDeps r (InfoFile typeInfo) (Dependencies typeInfo)
                  (visited(typeName := True)) (recStack(typeName := True)) (path @ [typeName]) of
             (Some cycle, visited', recStack') \<Rightarrow> (Some cycle, visited', recStack')
           | (None, visited', recStack') \<Rightarrow> (None, visited', recStack'(typeName := False)))
      | None \<Rightarrow> (None, visited(typeName := True), (recStack(typeName := True))(typeName := False)))"
| "detectDeps r file [] visited recStack path = (None, visited, recStack)"
| "detectDeps r file (dep # deps) visited recStack path =
     (if \<not> visited (qualifyName dep file) then
        (case detectCycle r (qualifyName dep file) visited recStack path of
           (Some cycle, visited', recStack') \<Rightarrow> (Some cycle, visited', recStack')
         | (None, visited', recStack') \<Rightarrow> detectDeps r file deps visited' recStack' path)
      else if recStack (qualifyName dep file) then
        (case dropWhile (\<lambda>p. p \<noteq> qualifyName dep file) path of
           [] \<Rightarrow> detectDeps r file deps visited recStack path
         | p # ps \<Rightarrow> (Some (p # ps @ [qualifyName dep file]), visited, recStack))
      else detectDeps r file deps visited recStack path)"
  by pat_completeness auto

text \<open>The search ends because a call never clears a mark of \<open>visited\<close>, and every nested
  call marks a registered type that was not marked before.\<close>

lemma detectCycle_visited_mono:
  "detectCycle_detectDeps_dom (Inl (r, t, v, s, p)) \<Longrightarrow>
     detectCycle r t v s p = (c, v', s') \<Longrightarrow> \<forall>x. v x \<longrightarrow> v' x"
  "detectCycle_detectDeps_dom (Inr (r, f, ds, v, s, p)) \<Longrightarrow>
     detectDeps r f ds v s p = (c, v', s') \<Longrightarrow> \<forall>x. v x \<longrightarrow> v' x"
proof (induction r t v s p and r f ds v s p arbitrary: c v' s' and c v' s'
       rule: detectCycle_detectDeps.pinduct)
  case (1 r typeName visited recStack path)
  show ?case
  proof (cases "map_of (types r) typeName")
    case None
    with "1.prems" "1.hyps" have "v' = visited(typeName := True)"
      by (simp add: detectCycle.psimps)
    then show ?thesis by simp
  next
    case (Some info)
    obtain c2 v2 s2 where d: "detectDeps r (InfoFile info) (Dependencies info)
        (visited(typeName := True)) (recStack(typeName := True)) (path @ [typeName]) = (c2, v2, s2)"
      by (metis prod_cases3)
    from "1.IH"[OF Some d] have m: "\<forall>x. (visited(typeName := True)) x \<longrightarrow> v2 x" .
    from "1.prems" "1.hyps" Some d have "v' = v2"
      by (cases c2) (simp_all add: detectCycle.psimps)
    with m show ?thesis by simp
  qed
next
  case (2 r fl visited recStack path)
  then show ?case by (simp add: detectDeps.psimps)
next
  case (3 r fl dep deps visited recStack path)
  let ?q = "qualifyName dep fl"
  show ?case
  proof (cases "visited ?q")
    case False
    obtain c2 v2 s2 where d: "detectCycle r ?q visited recStack path = (c2, v2, s2)"
      by (metis prod_cases3)
    from "3.IH"(1)[OF False d] have m: "\<forall>x. visited x \<longrightarrow> v2 x" .
    show ?thesis
    proof (cases c2)
      case None
      with "3.prems" "3.hyps" False d
      have e: "detectDeps r fl deps v2 s2 path = (c, v', s')"
        by (simp add: detectDeps.psimps)
      from "3.IH"(2)[OF False d[symmetric] _ _ e] None have "\<forall>x. v2 x \<longrightarrow> v' x"
        by simp
      with m show ?thesis by blast
    next
      case (Some cyc)
      with "3.prems" "3.hyps" False d have "v' = v2"
        by (simp add: detectDeps.psimps)
      with m show ?thesis by simp
    qed
  next
    case True
    note vis = True
    show ?thesis
    proof (cases "recStack ?q")
      case True
      show ?thesis
      proof (cases "dropWhile (\<lambda>p. p \<noteq> ?q) path")
        case Nil
        with "3.prems" "3.hyps" vis True
        have e: "detectDeps r fl deps visited recStack path = (c, v', s')"
          by (simp add: detectDeps.psimps)
        from "3.IH"(3)[OF _ True Nil e] vis show ?thesis by simp
      next
        case (Cons a as)
        with "3.prems" "3.hyps" vis True have "v' = visited"
          by (simp add: detectDeps.psimps)
        then show ?thesis by simp
      qed
    next
      case False
      with "3.prems" "3.hyps" vis
      have e: "detectDeps r fl deps visited recStack path = (c, v', s')"
        by (simp add: detectDeps.psimps)
      from "3.IH"(4)[OF _ False e] vis show ?thesis by simp
    qed
  qed
qed

definition unvisited :: "TypeRegistry \<Rightarrow> marks \<Rightarrow> nat" where
  "unvisited r v = card {k \<in> fst ` set (types r). \<not> v k}"

lemma unvisited_mono: "\<forall>x. v x \<longrightarrow> v' x \<Longrightarrow> unvisited r v' \<le> unvisited r v"
  unfolding unvisited_def by (rule card_mono) auto

lemma unvisited_mark_key:
  assumes "map_of (types r) t = Some info" and "\<not> v t"
  shows "unvisited r (v(t := True)) < unvisited r v"
proof -
  from assms(1) have t: "t \<in> fst ` set (types r)"
    by (metis map_of_eq_None_iff option.distinct(1))
  have "{k \<in> fst ` set (types r). \<not> (v(t := True)) k} \<subset> {k \<in> fst ` set (types r). \<not> v k}"
    using t assms(2) by auto
  then show ?thesis
    unfolding unvisited_def by (intro psubset_card_mono) auto
qed

lemma unvisited_mark_other:
  "map_of (types r) t = None \<Longrightarrow> unvisited r (v(t := True)) = unvisited r v"
  unfolding unvisited_def
  by (rule arg_cong[where f = card]) (auto simp: map_of_eq_None_iff)

termination detectCycle
proof (relation "inv_image (less_than <*lex*> less_than)
     (\<lambda>x. case x of
        Inl (r, t, v, s, p) \<Rightarrow>
          (2 * unvisited r (v(t := True)) + (if map_of (types r) t = None then 0 else 3), 0)
      | Inr (r, f, ds, v, s, p) \<Rightarrow> (2 * unvisited r v + 2, length ds))", goal_cases)
  case 1
  then show ?case by (intro wf_inv_image wf_lex_prod wf_less_than)
next
  case (2 r typeName visited recStack path x2)
  then show ?case by simp
next
  case (3 r fl dep deps visited recStack path)
  show ?case
  proof (cases "map_of (types r) (qualifyName dep fl)")
    case None
    then show ?thesis by (simp add: unvisited_mark_other)
  next
    case (Some info)
    from unvisited_mark_key[of r "qualifyName dep fl" info visited, OF Some 3] Some
    show ?thesis by simp
  qed
next
  case (4 r fl dep deps visited recStack path x y xa ya)
  then have "detectCycle r (qualifyName dep fl) visited recStack path = (x, xa, ya)"
    by simp
  from detectCycle_visited_mono(1)[OF 4(5) this]
  have "unvisited r xa \<le> unvisited r visited" by (rule unvisited_mono)
  then show ?case by auto
next
  case (5 r fl dep deps visited recStack path)
  then show ?case by simp
next
  case (6 r fl dep deps visited recStack path)
  then show ?case by simp
qed

text \<open>
  The loop of \<open>ValidateCircularDependencies\<close> is \<open>for typeName := range r.types\<close>, over a
  Go map, and Go fixes no order for it: the order can differ from one run to the next and
  has nothing to do with the order in which the types were registered. \<open>keyOrder\<close> is the
  sequence in which this run of the loop yields the keys. Every such sequence holds each
  key of the registry once (\<open>rangeOrder\<close>).
\<close>

definition rangeOrder :: "TypeRegistry \<Rightarrow> string list \<Rightarrow> bool" where
  "rangeOrder r keyOrder \<longleftrightarrow> distinct keyOrder \<and> set keyOrder = fst ` set (types r)"

fun cyclesFrom ::
  "TypeRegistry \<Rightarrow> string list \<Rightarrow> marks \<Rightarrow> marks \<Rightarrow> string list \<Rightarrow> string list" where
  "cyclesFrom r [] visited recStack cycles = cycles"
| "cyclesFrom r (typeName # rest) visited recStack cycles =
     (if \<not> visited typeName then
        (case detectCycle r typeName visited recStack [] of
           (Some cycle, visited', recStack') \<Rightarrow>
             cyclesFrom r rest visited' recStack' (cycles @ [Join cycle '' -> ''])
         | (None, visited', recStack') \<Rightarrow> cyclesFrom r rest visited' recStack' cycles)
      else cyclesFrom r rest visited recStack cycles)"

definition ValidateCircularDependencies :: "TypeRegistry \<Rightarrow> string list \<Rightarrow> string list" where
  "ValidateCircularDependencies r keyOrder =
     cyclesFrom r keyOrder (\<lambda>k. False) (\<lambda>k. False) []"

section \<open>The validator (validator.go)\<close>

text \<open>
  Every method of the validator reads the registry and appends to \<open>v.result\<close>; it is a
  function from the result so far to the result afterwards.
\<close>

definition validatePrimitiveType ::
  "string \<Rightarrow> string \<Rightarrow> int \<Rightarrow> int \<Rightarrow> ValidationResult \<Rightarrow> ValidationResult" where
  "validatePrimitiveType primitiveName filename line column res =
     (if \<not> IsValidPrimitiveType primitiveName then
        AddError InvalidPrimitiveError
          ([CHR 0x27] @ primitiveName @ [CHR 0x27] @ '' is not a valid primitive type'')
          filename line column
          ''use one of: int8, int16, int32, int64, nat8, nat16, nat32, nat64, float32, float64, string, bool, json, datetime, date, time''
          res
      else res)"

definition validateNamedType ::
  "TypeRegistry \<Rightarrow> string \<Rightarrow> string \<Rightarrow> int \<Rightarrow> int \<Rightarrow> ValidationResult \<Rightarrow> ValidationResult" where
  "validateNamedType reg namedName filename line column res =
     (if \<not> TypeExists reg namedName filename then
        AddError UndefinedTypeError
          (''undefined type '' @ [CHR 0x27] @ namedName @ [CHR 0x27])
          filename line column
          ''define the type or check the spelling''
          res
      else res)"

text \<open>The check of the key that opens \<open>validateMapType\<close>.\<close>

definition checkMapKey ::
  "ast_type \<Rightarrow> string \<Rightarrow> int \<Rightarrow> int \<Rightarrow> ValidationResult \<Rightarrow> ValidationResult" where
  "checkMapKey keyType filename line column res =
     (case keyType of
        PrimitiveType primitiveName \<Rightarrow>
          (if \<not> IsValidMapKeyType primitiveName then
             AddError InvalidMapKeyError
               (''map key type '' @ [CHR 0x27] @ primitiveName @ [CHR 0x27] @ '' is not valid'')
               filename line column
               ''use string or integer types for map keys''
               res
           else res)
      | _ \<Rightarrow>
          AddError InvalidMapKeyError
            ''map key must be a primitive type''
            filename line column
            ''use string or integer types for map keys''
            res)"

text \<open>The check for \<open>??\<close> that opens \<open>validateOptionalType\<close>.\<close>

definition checkDoubleOptional ::
  "ast_type \<Rightarrow> string \<Rightarrow> int \<Rightarrow> int \<Rightarrow> ValidationResult \<Rightarrow> ValidationResult" where
  "checkDoubleOptional elementType filename line column res =
     (case elementType of
        OptionalType t \<Rightarrow>
          AddError InvalidOptionalError
            ''double-wrapped optional types are not allowed''
            filename line column
            ''use single optional marker ?Type''
            res
      | _ \<Rightarrow> res)"

function validateType ::
    "TypeRegistry \<Rightarrow> ast_type \<Rightarrow> string \<Rightarrow> int \<Rightarrow> int \<Rightarrow> ValidationResult \<Rightarrow> ValidationResult"
  and validateMapType ::
    "TypeRegistry \<Rightarrow> ast_type \<Rightarrow> ast_type \<Rightarrow> string \<Rightarrow> int \<Rightarrow> int
       \<Rightarrow> ValidationResult \<Rightarrow> ValidationResult"
  and validateOptionalType ::
    "TypeRegistry \<Rightarrow> ast_type \<Rightarrow> string \<Rightarrow> int \<Rightarrow> int \<Rightarrow> ValidationResult \<Rightarrow> ValidationResult"
  where
  "validateType reg (PrimitiveType n) filename line column res =
     validatePrimitiveType n filename line column res"
| "validateType reg (NamedType n) filename line column res =
     validateNamedType reg n filename line column res"
| "validateType reg (ArrayType elementType) filename line column res =
     validateType reg elementType filename line column res"
| "validateType reg (MapType keyType valueType) filename line column res =
     validateMapType reg keyType valueType filename line column res"
| "validateType reg (OptionalType elementType) filename line column res =
     validateOptionalType reg elementType filename line column res"
| "validateMapType reg keyType valueType filename line column res =
     validateType reg valueType filename line column
       (validateType reg keyType filename line column
          (checkMapKey keyType filename line column res))"
| "validateOptionalType reg elementType filename line column res =
     validateType reg elementType filename line column
       (checkDoubleOptional elementType filename line column res)"
  by pat_completeness auto
termination
  by (relation "measure (\<lambda>x. case x of
         Inl (reg, t, rest) \<Rightarrow> 2 * size t
       | Inr (Inl (reg, k, v, rest)) \<Rightarrow> 2 * (size k + size v) + 1
       | Inr (Inr (reg, e, rest)) \<Rightarrow> 2 * size e + 1)") auto

text \<open>\<open>fieldNames\<close>, \<open>variantNames\<close> and \<open>declNames\<close> are Go maps that are only read by
  key. A step of a loop returns the map and the result.\<close>

definition validateField ::
  "TypeRegistry \<Rightarrow> FieldNode \<Rightarrow> string \<Rightarrow> (string \<rightharpoonup> FieldNode) \<Rightarrow> ValidationResult
     \<Rightarrow> (string \<rightharpoonup> FieldNode) \<times> ValidationResult" where
  "validateField reg field filename fieldNames res =
     (let pos = FieldPos field;
          res1 = (if \<not> IsValidSnakeCase (FieldName field) then
                    AddError NamingConventionError
                      (''field name '' @ [CHR 0x27] @ FieldName field @ [CHR 0x27]
                         @ '' should follow snake_case convention'')
                      filename (PosLine pos) (PosColumn pos)
                      (''use '' @ [CHR 0x27] @ SuggestSnakeCase (FieldName field) @ [CHR 0x27])
                      res
                  else res);
          (fieldNames', res2) =
             (case fieldNames (FieldName field) of
                Some existing \<Rightarrow>
                  (fieldNames,
                   AddError DuplicateFieldError
                     (''duplicate field '' @ [CHR 0x27] @ FieldName field @ [CHR 0x27]
                        @ '' (first declared at line '' @ fmt_d (PosLine (FieldPos existing)) @ '')'')
                     filename (PosLine pos) (PosColumn pos)
                     ''rename one of the fields''
                     res1)
              | None \<Rightarrow> (fieldNames(FieldName field \<mapsto> field), res1))
      in (fieldNames', validateType reg (FieldType field) filename (PosLine pos) (PosColumn pos) res2))"

fun validateFields ::
  "TypeRegistry \<Rightarrow> FieldNode list \<Rightarrow> string \<Rightarrow> (string \<rightharpoonup> FieldNode) \<Rightarrow> ValidationResult
     \<Rightarrow> ValidationResult" where
  "validateFields reg [] filename fieldNames res = res"
| "validateFields reg (field # rest) filename fieldNames res =
     (case validateField reg field filename fieldNames res of
        (fieldNames', res') \<Rightarrow> validateFields reg rest filename fieldNames' res')"

definition validateStruct ::
  "TypeRegistry \<Rightarrow> Position \<Rightarrow> string \<Rightarrow> FieldNode list \<Rightarrow> string \<Rightarrow> ValidationResult
     \<Rightarrow> ValidationResult" where
  "validateStruct reg pos name flds filename res =
     validateFields reg flds filename Map.empty
       (if \<not> IsValidPascalCase name then
          AddError NamingConventionError
            (''struct name '' @ [CHR 0x27] @ name @ [CHR 0x27]
               @ '' should follow PascalCase convention'')
            filename (PosLine pos) (PosColumn pos)
            (''use '' @ [CHR 0x27] @ SuggestPascalCase name @ [CHR 0x27])
            res
        else res)"

definition validateEnumVariant ::
  "TypeRegistry \<Rightarrow> EnumVariantNode \<Rightarrow> string \<Rightarrow> (string \<rightharpoonup> EnumVariantNode)
     \<Rightarrow> ValidationResult \<Rightarrow> (string \<rightharpoonup> EnumVariantNode) \<times> ValidationResult" where
  "validateEnumVariant reg variant filename variantNames res =
     (let pos = VariantPos variant;
          res1 = (if \<not> IsValidSnakeCase (VariantName variant) then
                    AddError NamingConventionError
                      (''enum variant '' @ [CHR 0x27] @ VariantName variant @ [CHR 0x27]
                         @ '' should follow snake_case convention'')
                      filename (PosLine pos) (PosColumn pos)
                      (''use '' @ [CHR 0x27] @ SuggestSnakeCase (VariantName variant) @ [CHR 0x27])
                      res
                  else res);
          (variantNames', res2) =
             (case variantNames (VariantName variant) of
                Some existing \<Rightarrow>
                  (variantNames,
                   AddError DuplicateVariantError
                     (''duplicate variant '' @ [CHR 0x27] @ VariantName variant @ [CHR 0x27]
                        @ '' (first declared at line '' @ fmt_d (PosLine (VariantPos existing))
                        @ '')'')
                     filename (PosLine pos) (PosColumn pos)
                     ''rename one of the variants''
                     res1)
              | None \<Rightarrow> (variantNames(VariantName variant \<mapsto> variant), res1))
      in (variantNames',
          (case Payload variant of
             Some t \<Rightarrow> validateType reg t filename (PosLine pos) (PosColumn pos) res2
           | None \<Rightarrow> res2)))"

fun validateVariants ::
  "TypeRegistry \<Rightarrow> EnumVariantNode list \<Rightarrow> string \<Rightarrow> (string \<rightharpoonup> EnumVariantNode)
     \<Rightarrow> ValidationResult \<Rightarrow> ValidationResult" where
  "validateVariants reg [] filename variantNames res = res"
| "validateVariants reg (variant # rest) filename variantNames res =
     (case validateEnumVariant reg variant filename variantNames res of
        (variantNames', res') \<Rightarrow> validateVariants reg rest filename variantNames' res')"

definition validateEnum ::
  "TypeRegistry \<Rightarrow> Position \<Rightarrow> string \<Rightarrow> EnumVariantNode list \<Rightarrow> string \<Rightarrow> ValidationResult
     \<Rightarrow> ValidationResult" where
  "validateEnum reg pos name vars filename res =
     validateVariants reg vars filename Map.empty
       (if \<not> IsValidPascalCase name then
          AddError NamingConventionError
            (''enum name '' @ [CHR 0x27] @ name @ [CHR 0x27]
               @ '' should follow PascalCase convention'')
            filename (PosLine pos) (PosColumn pos)
            (''use '' @ [CHR 0x27] @ SuggestPascalCase name @ [CHR 0x27])
            res
        else res)"

definition validateTypeAlias ::
  "TypeRegistry \<Rightarrow> Position \<Rightarrow> string \<Rightarrow> ast_type \<Rightarrow> string \<Rightarrow> ValidationResult
     \<Rightarrow> ValidationResult" where
  "validateTypeAlias reg pos name t filename res =
     validateType reg t filename (PosLine pos) (PosColumn pos)
       (if \<not> IsValidPascalCase name then
          AddError NamingConventionError
            (''type alias '' @ [CHR 0x27] @ name @ [CHR 0x27]
               @ '' should follow PascalCase convention'')
            filename (PosLine pos) (PosColumn pos)
            (''use '' @ [CHR 0x27] @ SuggestPascalCase name @ [CHR 0x27])
            res
        else res)"

definition validateConstant ::
  "Position \<Rightarrow> string \<Rightarrow> ConstantValue option \<Rightarrow> string \<Rightarrow> ValidationResult
     \<Rightarrow> ValidationResult" where
  "validateConstant pos name val filename res =
     (let res1 = (if \<not> IsValidConstantCase name then
                    AddError NamingConventionError
                      (''constant name '' @ [CHR 0x27] @ name @ [CHR 0x27]
                         @ '' should follow CONSTANT_CASE convention'')
                      filename (PosLine pos) (PosColumn pos)
                      (''use '' @ [CHR 0x27] @ SuggestConstantCase name @ [CHR 0x27])
                      res
                  else res)
      in if val = None then
           AddError InvalidConstantError
             (''constant '' @ [CHR 0x27] @ name @ [CHR 0x27] @ '' must have a value'')
             filename (PosLine pos) (PosColumn pos)
             ''provide a value for the constant''
             res1
         else res1)"

text \<open>The switch of \<open>validateDeclaration\<close>: the kind of the declaration as the duplicate
  message prints it, and the check of its body.\<close>

fun declTypeOf :: "Declaration \<Rightarrow> string" where
  "declTypeOf (StructNode p n fs) = ''struct''"
| "declTypeOf (EnumNode p n vs) = ''enum''"
| "declTypeOf (TypeAliasNode p n t) = ''type alias''"
| "declTypeOf (ConstantNode p n v) = ''constant''"

fun validateBody ::
  "TypeRegistry \<Rightarrow> Declaration \<Rightarrow> string \<Rightarrow> ValidationResult \<Rightarrow> ValidationResult" where
  "validateBody reg (StructNode p n fs) filename res = validateStruct reg p n fs filename res"
| "validateBody reg (EnumNode p n vs) filename res = validateEnum reg p n vs filename res"
| "validateBody reg (TypeAliasNode p n t) filename res = validateTypeAlias reg p n t filename res"
| "validateBody reg (ConstantNode p n v) filename res = validateConstant p n v filename res"

definition validateDeclaration ::
  "TypeRegistry \<Rightarrow> Declaration \<Rightarrow> string \<Rightarrow> (string \<rightharpoonup> Declaration) \<Rightarrow> ValidationResult
     \<Rightarrow> (string \<rightharpoonup> Declaration) \<times> ValidationResult" where
  "validateDeclaration reg decl filename declNames res =
     (let declName = DeclName decl;
          declType = declTypeOf decl;
          res1 = validateBody reg decl filename res
      in case declNames declName of
           Some existing \<Rightarrow>
             (declNames,
              AddError DuplicateTypeError
                (''duplicate '' @ declType @ '' '' @ [CHR 0x27] @ declName @ [CHR 0x27]
                   @ '' (first declared at line '' @ fmt_d (PosLine (DeclPos existing)) @ '')'')
                filename (PosLine (DeclPos decl)) (PosColumn (DeclPos decl))
                ''rename one of the declarations''
                res1)
         | None \<Rightarrow> (declNames(declName \<mapsto> decl), res1))"

fun validateDeclarations ::
  "TypeRegistry \<Rightarrow> Declaration list \<Rightarrow> string \<Rightarrow> (string \<rightharpoonup> Declaration) \<Rightarrow> ValidationResult
     \<Rightarrow> ValidationResult" where
  "validateDeclarations reg [] filename declNames res = res"
| "validateDeclarations reg (decl # rest) filename declNames res =
     (case validateDeclaration reg decl filename declNames res of
        (declNames', res') \<Rightarrow> validateDeclarations reg rest filename declNames' res')"

definition validateImport :: "ImportNode \<Rightarrow> string \<Rightarrow> ValidationResult \<Rightarrow> ValidationResult" where
  "validateImport imp filename res =
     (let pos = ImportPos imp in
      if \<not> IsValidModuleName (ImportPath imp) then
        AddError InvalidImportError
          (''import path '' @ [CHR 0x27] @ ImportPath imp @ [CHR 0x27]
             @ '' should follow snake_case convention for module names'')
          filename (PosLine pos) (PosColumn pos)
          (''use '' @ [CHR 0x27] @ SuggestModuleName (ImportPath imp) @ [CHR 0x27])
          res
      else res)"

definition validateProgram ::
  "TypeRegistry \<Rightarrow> ProgramNode \<Rightarrow> string \<Rightarrow> ValidationResult \<Rightarrow> ValidationResult" where
  "validateProgram reg program filename res =
     validateDeclarations reg (Declarations program) filename Map.empty
       (fold (\<lambda>imp. validateImport imp filename) (Imports program) res)"

fun validateModule ::
    "TypeRegistry \<Rightarrow> Module \<Rightarrow> string \<Rightarrow> ValidationResult \<Rightarrow> ValidationResult"
  and validateSubModules ::
    "TypeRegistry \<Rightarrow> (string \<times> Module) list \<Rightarrow> string \<Rightarrow> ValidationResult \<Rightarrow> ValidationResult"
  where
  "validateModule reg (Module path name fs subs) basePath res =
     validateSubModules reg subs basePath
       (fold (\<lambda>entry. validateProgram reg (snd entry) (joinPath basePath (fst entry))) fs res)"
| "validateSubModules reg [] basePath res = res"
| "validateSubModules reg ((subModuleName, subModule) # rest) basePath res =
     validateSubModules reg rest basePath
       (validateModule reg subModule (joinPath basePath subModuleName)
          (if \<not> IsValidSnakeCase subModuleName then
             AddError NamingConventionError
               (''module name '' @ [CHR 0x27] @ subModuleName @ [CHR 0x27]
                  @ '' should follow snake_case convention'')
               basePath 0 0
               (''use '' @ [CHR 0x27] @ SuggestSnakeCase subModuleName @ [CHR 0x27])
               res
           else res))"

text \<open>One reported cycle becomes one error, filed under the part of its first name that
  precedes \<open>::\<close>; a first name that does not split into exactly two parts is not reported.\<close>

definition reportCycle :: "string \<Rightarrow> ValidationResult \<Rightarrow> ValidationResult" where
  "reportCycle cycle res =
     (case Split cycle '' -> '' of
        [] \<Rightarrow> res
      | firstType # others \<Rightarrow>
          (case Split firstType ''::'' of
             [file, typ] \<Rightarrow>
               AddError CircularDependencyError
                 (''circular dependency detected: '' @ cycle)
                 file 0 0
                 ''restructure types to eliminate circular references''
                 res
           | _ \<Rightarrow> res))"

definition validateCircularDependencies ::
  "TypeRegistry \<Rightarrow> string list \<Rightarrow> ValidationResult \<Rightarrow> ValidationResult" where
  "validateCircularDependencies reg keyOrder res =
     fold reportCycle (ValidateCircularDependencies reg keyOrder) res"

text \<open>The validator holds a registry (\<open>nil\<close> until the first run) and a result. \<open>Validate\<close>
  assigns both anew and returns the result it has built. Its result depends on the orders
  that Go chooses for the \<open>range\<close> loops over maps: the order of the lists of the module,
  and \<open>keyOrder\<close>, the order in which the loop of \<open>ValidateCircularDependencies\<close> yields the
  keys of the registry. The validator reads the registry by key and through \<open>TypeExists\<close>
  only, so the order of the entries of the registry itself has no effect (this is proved
  below).\<close>

record Validator =
  registry :: "TypeRegistry option"
  result :: ValidationResult

definition NewValidator :: Validator where
  "NewValidator = \<lparr>registry = None, result = NewValidationResult\<rparr>"

definition Validate ::
  "Validator \<Rightarrow> Module \<Rightarrow> string list \<Rightarrow> Validator \<times> ValidationResult" where
  "Validate v module keyOrder =
     (let v1 = v\<lparr>result := NewValidationResult\<rparr>;
          reg = buildTypeRegistry module;
          v2 = v1\<lparr>registry := Some reg\<rparr>;
          v3 = v2\<lparr>result := validateModule reg module [] (result v2)\<rparr>;
          v4 = v3\<lparr>result := validateCircularDependencies reg keyOrder (result v3)\<rparr>
      in (v4, result v4))"

section \<open>Results as appended error lists\<close>

text \<open>
  Every step of the validator leaves the errors it finds at the end of the result and
  touches nothing else. \<open>newErrors g\<close> is the list a step \<open>g\<close> appends, read off a run from
  the empty result.
\<close>

definition addErrors :: "ValidationError list \<Rightarrow> ValidationResult \<Rightarrow> ValidationResult" where
  "addErrors es res = (if es = [] then res else \<lparr>Errors = Errors res @ es, Valid = False\<rparr>)"

definition newErrors :: "(ValidationResult \<Rightarrow> ValidationResult) \<Rightarrow> ValidationError list" where
  "newErrors g = Errors (g NewValidationResult)"

definition appends :: "(ValidationResult \<Rightarrow> ValidationResult) \<Rightarrow> bool" where
  "appends g = (\<forall>res. g res = addErrors (newErrors g) res)"

lemma addErrors_Nil [simp]: "addErrors [] res = res"
  by (simp add: addErrors_def)

lemma addErrors_addErrors [simp]: "addErrors es2 (addErrors es1 res) = addErrors (es1 @ es2) res"
  by (simp add: addErrors_def)

lemma Errors_addErrors [simp]: "Errors (addErrors es res) = Errors res @ es"
  by (simp add: addErrors_def)

lemma Valid_addErrors [simp]: "Valid (addErrors es res) = (Valid res \<and> es = [])"
  by (simp add: addErrors_def)

lemma AddError_addErrors:
  "AddError t m f l c s res =
     addErrors [\<lparr>Type = t, Message = m, File = f, Line = l, Column = c, Suggestion = s\<rparr>] res"
  by (simp add: AddError_def addErrors_def)

lemma appendsI: "(\<And>res. g res = addErrors es res) \<Longrightarrow> appends g"
  by (simp add: appends_def newErrors_def NewValidationResult_def)

lemma appendsD: "appends g \<Longrightarrow> g res = addErrors (newErrors g) res"
  by (simp add: appends_def)

lemma appends_id [simp]: "appends (\<lambda>res. res)"
  by (rule appendsI[where es = "[]"]) simp

lemma appends_AddError [simp]: "appends (AddError t m f l c s)"
  by (rule appendsI) (rule AddError_addErrors)

lemma appends_comp:
  assumes g: "appends g" and h: "appends h"
  shows "appends (\<lambda>res. h (g res))"
proof (rule appendsI[where es = "newErrors g @ newErrors h"])
  fix res
  have 1: "g res = addErrors (newErrors g) res" by (rule appendsD[OF g])
  have "h (g res) = addErrors (newErrors h) (g res)" by (rule appendsD[OF h])
  also have "\<dots> = addErrors (newErrors h) (addErrors (newErrors g) res)"
    using 1 by (rule arg_cong)
  finally show "h (g res) = addErrors (newErrors g @ newErrors h) res" by simp
qed

lemma newErrors_comp:
  assumes g: "appends g" and h: "appends h"
  shows "newErrors (\<lambda>res. h (g res)) = newErrors g @ newErrors h"
proof -
  have "h (g NewValidationResult) = addErrors (newErrors h) (g NewValidationResult)"
    by (rule appendsD[OF h])
  then show ?thesis by (simp add: newErrors_def)
qed

lemma appends_if [simp]: "appends g \<Longrightarrow> appends h \<Longrightarrow> appends (\<lambda>res. if b then g res else h res)"
  by (cases b) simp_all

lemma newErrors_id [simp]: "newErrors (\<lambda>res. res) = []"
  by (simp add: newErrors_def NewValidationResult_def)

lemma newErrors_AddError [simp]:
  "newErrors (AddError t m f l c s) =
     [\<lparr>Type = t, Message = m, File = f, Line = l, Column = c, Suggestion = s\<rparr>]"
  by (simp add: newErrors_def NewValidationResult_def AddError_def)

lemma appends_validatePrimitiveType [simp]: "appends (validatePrimitiveType n f l c)"
  unfolding validatePrimitiveType_def by simp

lemma appends_validateNamedType [simp]: "appends (validateNamedType reg n f l c)"
  unfolding validateNamedType_def by simp

lemma appends_checkMapKey [simp]: "appends (checkMapKey k f l c)"
  unfolding checkMapKey_def by (cases k) simp_all

lemma appends_checkDoubleOptional [simp]: "appends (checkDoubleOptional e f l c)"
  unfolding checkDoubleOptional_def by (cases e) simp_all

lemma appends_validateType [simp]: "appends (validateType reg t f l c)"
proof (induction t)
  case (PrimitiveType n)
  have "validateType reg (PrimitiveType n) f l c = validatePrimitiveType n f l c"
    by (rule ext) simp
  then show ?case by simp
next
  case (NamedType n)
  have "validateType reg (NamedType n) f l c = validateNamedType reg n f l c"
    by (rule ext) simp
  then show ?case by simp
next
  case (ArrayType t)
  have "validateType reg (ArrayType t) f l c = validateType reg t f l c"
    by (rule ext) simp
  with ArrayType show ?case by simp
next
  case (MapType k v)
  have "validateType reg (MapType k v) f l c =
          (\<lambda>res. validateType reg v f l c (validateType reg k f l c (checkMapKey k f l c res)))"
    by (rule ext) simp
  moreover have "appends (\<lambda>res. validateType reg k f l c (checkMapKey k f l c res))"
    by (rule appends_comp) (simp_all add: MapType)
  ultimately show ?case
    using appends_comp[OF _ MapType(2)] by simp
next
  case (OptionalType t)
  have "validateType reg (OptionalType t) f l c =
          (\<lambda>res. validateType reg t f l c (checkDoubleOptional t f l c res))"
    by (rule ext) simp
  then show ?case
    using appends_comp[OF appends_checkDoubleOptional OptionalType] by simp
qed

lemma validateType_Errors:
  "Errors (validateType reg t f l c res) = Errors res @ newErrors (validateType reg t f l c)"
  using appendsD[OF appends_validateType, of reg t f l c res] by simp


lemma newErrors_validateType_Optional:
  "newErrors (validateType reg (OptionalType t) f l c) =
     newErrors (checkDoubleOptional t f l c) @ newErrors (validateType reg t f l c)"
proof -
  have "validateType reg (OptionalType t) f l c =
          (\<lambda>res. validateType reg t f l c (checkDoubleOptional t f l c res))"
    by (rule ext) simp
  then show ?thesis by (simp add: newErrors_comp)
qed

lemma newErrors_validateType_Map:
  "newErrors (validateType reg (MapType k v) f l c) =
     newErrors (checkMapKey k f l c) @ newErrors (validateType reg k f l c)
       @ newErrors (validateType reg v f l c)"
proof -
  have e: "validateType reg (MapType k v) f l c =
          (\<lambda>res. validateType reg v f l c
                   ((\<lambda>res. validateType reg k f l c (checkMapKey k f l c res)) res))"
    by (rule ext) simp
  have a: "appends (\<lambda>res. validateType reg k f l c (checkMapKey k f l c res))"
    by (rule appends_comp) simp_all
  show ?thesis
    unfolding e by (simp add: newErrors_comp[OF a] newErrors_comp)
qed

lemma appends_fold: "(\<And>x. x \<in> set xs \<Longrightarrow> appends (f x)) \<Longrightarrow> appends (fold f xs)"
proof (induction xs)
  case Nil
  have "fold f [] = (\<lambda>res. res)" by (rule ext) simp
  then show ?case by (simp only: appends_id)
next
  case (Cons x xs)
  have "fold f (x # xs) = (\<lambda>res. fold f xs (f x res))" by (rule ext) simp
  moreover have "appends (\<lambda>res. fold f xs (f x res))"
    by (rule appends_comp) (simp_all add: Cons)
  ultimately show ?case by simp
qed

lemma validateType_add:
  "validateType reg t f l c res = addErrors (newErrors (validateType reg t f l c)) res"
  by (rule appendsD) (rule appends_validateType)

lemma Errors_New [simp]: "Errors NewValidationResult = []"
  by (simp add: NewValidationResult_def)

text \<open>What a step of a loop does to the map of names seen so far.\<close>

definition remember :: "string \<Rightarrow> 'a \<Rightarrow> (string \<rightharpoonup> 'a) \<Rightarrow> (string \<rightharpoonup> 'a)" where
  "remember n x names = (case names n of Some existing \<Rightarrow> names | None \<Rightarrow> names(n \<mapsto> x))"

definition fieldErrors ::
  "TypeRegistry \<Rightarrow> FieldNode \<Rightarrow> string \<Rightarrow> (string \<rightharpoonup> FieldNode) \<Rightarrow> ValidationError list" where
  "fieldErrors reg field fname names =
     Errors (snd (validateField reg field fname names NewValidationResult))"

lemma validateField_add:
  "validateField reg field fname names res =
     (remember (FieldName field) field names, addErrors (fieldErrors reg field fname names) res)"
  unfolding validateField_def fieldErrors_def remember_def Let_def
  by (cases "names (FieldName field)"; cases "IsValidSnakeCase (FieldName field)")
     (simp_all add: AddError_addErrors validateType_add)

lemma validateFields_add:
  "validateFields reg fs fname names res =
     addErrors (newErrors (validateFields reg fs fname names)) res"
proof (induction fs arbitrary: names res)
  case Nil
  then show ?case by (simp add: newErrors_def)
next
  case (Cons f fs)
  show ?case
    by (simp add: validateField_add newErrors_def
          Cons[of _ "addErrors (fieldErrors reg f fname names) res"]
          Cons[of _ "addErrors (fieldErrors reg f fname names) NewValidationResult"])
qed

lemma newErrors_validateFields_Cons:
  "newErrors (validateFields reg (f # fs) fname names) =
     fieldErrors reg f fname names
       @ newErrors (validateFields reg fs fname (remember (FieldName f) f names))"
  by (simp add: newErrors_def validateField_add
        validateFields_add[of _ _ _ _ "addErrors (fieldErrors reg f fname names) NewValidationResult"])


lemma add_from: "(\<And>res. g res = addErrors es res) \<Longrightarrow> g res = addErrors (newErrors g) res"
  by (rule appendsD) (rule appendsI)

lemma validateStruct_add:
  "validateStruct reg pos name flds fname res =
     addErrors (newErrors (validateStruct reg pos name flds fname)) res"
  by (cases "IsValidPascalCase name"; rule add_from)
     (simp_all add: validateStruct_def AddError_addErrors validateFields_add[of _ _ _ _ res for res])

definition variantErrors ::
  "TypeRegistry \<Rightarrow> EnumVariantNode \<Rightarrow> string \<Rightarrow> (string \<rightharpoonup> EnumVariantNode)
     \<Rightarrow> ValidationError list" where
  "variantErrors reg variant fname names =
     Errors (snd (validateEnumVariant reg variant fname names NewValidationResult))"

lemma validateEnumVariant_add:
  "validateEnumVariant reg variant fname names res =
     (remember (VariantName variant) variant names,
      addErrors (variantErrors reg variant fname names) res)"
  unfolding validateEnumVariant_def variantErrors_def remember_def Let_def
  by (cases "names (VariantName variant)"; cases "IsValidSnakeCase (VariantName variant)";
      cases "Payload variant")
     (simp_all add: AddError_addErrors validateType_add)

lemma validateVariants_add:
  "validateVariants reg vs fname names res =
     addErrors (newErrors (validateVariants reg vs fname names)) res"
proof (induction vs arbitrary: names res)
  case Nil
  then show ?case by (simp add: newErrors_def)
next
  case (Cons v vs)
  show ?case
    by (simp add: validateEnumVariant_add newErrors_def
          Cons[of _ "addErrors (variantErrors reg v fname names) res"]
          Cons[of _ "addErrors (variantErrors reg v fname names) NewValidationResult"])
qed

lemma newErrors_validateVariants_Cons:
  "newErrors (validateVariants reg (v # vs) fname names) =
     variantErrors reg v fname names
       @ newErrors (validateVariants reg vs fname (remember (VariantName v) v names))"
  by (simp add: newErrors_def validateEnumVariant_add
        validateVariants_add[of _ _ _ _ "addErrors (variantErrors reg v fname names) NewValidationResult"])

lemma validateEnum_add:
  "validateEnum reg pos name vars fname res =
     addErrors (newErrors (validateEnum reg pos name vars fname)) res"
  by (cases "IsValidPascalCase name"; rule add_from)
     (simp_all add: validateEnum_def AddError_addErrors validateVariants_add[of _ _ _ _ res for res])

lemma validateTypeAlias_add:
  "validateTypeAlias reg pos name t fname res =
     addErrors (newErrors (validateTypeAlias reg pos name t fname)) res"
  by (cases "IsValidPascalCase name"; rule add_from)
     (simp_all add: validateTypeAlias_def AddError_addErrors validateType_add)

lemma validateConstant_add:
  "validateConstant pos name val fname res =
     addErrors (newErrors (validateConstant pos name val fname)) res"
  by (rule add_from[where es =
        "(if \<not> IsValidConstantCase name then
            [\<lparr>Type = NamingConventionError,
              Message = ''constant name '' @ [CHR 0x27] @ name @ [CHR 0x27]
                 @ '' should follow CONSTANT_CASE convention'',
              File = fname, Line = PosLine pos, Column = PosColumn pos,
              Suggestion = ''use '' @ [CHR 0x27] @ SuggestConstantCase name @ [CHR 0x27]\<rparr>]
          else [])
         @ (if val = None then
            [\<lparr>Type = InvalidConstantError,
              Message = ''constant '' @ [CHR 0x27] @ name @ [CHR 0x27] @ '' must have a value'',
              File = fname, Line = PosLine pos, Column = PosColumn pos,
              Suggestion = ''provide a value for the constant''\<rparr>]
          else [])"])
     (simp add: validateConstant_def Let_def AddError_addErrors)

lemma validateBody_add:
  "validateBody reg decl fname res = addErrors (newErrors (validateBody reg decl fname)) res"
proof (cases decl)
  case (StructNode p n fs)
  then show ?thesis
    using validateStruct_add[of reg p n fs fname res] by (simp add: newErrors_def)
next
  case (EnumNode p n vs)
  then show ?thesis
    using validateEnum_add[of reg p n vs fname res] by (simp add: newErrors_def)
next
  case (TypeAliasNode p n t)
  then show ?thesis
    using validateTypeAlias_add[of reg p n t fname res] by (simp add: newErrors_def)
next
  case (ConstantNode p n v)
  then show ?thesis
    using validateConstant_add[of p n v fname res] by (simp add: newErrors_def)
qed

definition declErrors ::
  "TypeRegistry \<Rightarrow> Declaration \<Rightarrow> string \<Rightarrow> (string \<rightharpoonup> Declaration) \<Rightarrow> ValidationError list" where
  "declErrors reg decl fname names =
     Errors (snd (validateDeclaration reg decl fname names NewValidationResult))"

lemma validateDeclaration_add:
  "validateDeclaration reg decl fname names res =
     (remember (DeclName decl) decl names, addErrors (declErrors reg decl fname names) res)"
  unfolding validateDeclaration_def declErrors_def remember_def Let_def
  by (cases "names (DeclName decl)")
     (simp_all add: AddError_addErrors validateBody_add[of _ _ _ res]
        validateBody_add[of _ _ _ NewValidationResult])

lemma validateDeclarations_add:
  "validateDeclarations reg ds fname names res =
     addErrors (newErrors (validateDeclarations reg ds fname names)) res"
proof (induction ds arbitrary: names res)
  case Nil
  then show ?case by (simp add: newErrors_def)
next
  case (Cons d ds)
  show ?case
    by (simp add: validateDeclaration_add newErrors_def
          Cons[of _ "addErrors (declErrors reg d fname names) res"]
          Cons[of _ "addErrors (declErrors reg d fname names) NewValidationResult"])
qed

lemma newErrors_validateDeclarations_Cons:
  "newErrors (validateDeclarations reg (d # ds) fname names) =
     declErrors reg d fname names
       @ newErrors (validateDeclarations reg ds fname (remember (DeclName d) d names))"
  by (simp add: newErrors_def validateDeclaration_add
        validateDeclarations_add[of _ _ _ _ "addErrors (declErrors reg d fname names) NewValidationResult"])

lemma appends_validateImport [simp]: "appends (validateImport imp fname)"
proof -
  have "validateImport imp fname =
     (\<lambda>res. if \<not> IsValidModuleName (ImportPath imp) then
        AddError InvalidImportError
          (''import path '' @ [CHR 0x27] @ ImportPath imp @ [CHR 0x27]
             @ '' should follow snake_case convention for module names'')
          fname (PosLine (ImportPos imp)) (PosColumn (ImportPos imp))
          (''use '' @ [CHR 0x27] @ SuggestModuleName (ImportPath imp) @ [CHR 0x27])
          res
      else res)"
    by (rule ext) (simp add: validateImport_def Let_def)
  then show ?thesis by simp
qed

lemma appends_validateDeclarations [simp]: "appends (validateDeclarations reg ds fname names)"
  by (rule appendsI) (rule validateDeclarations_add)

lemma appends_validateProgram [simp]: "appends (validateProgram reg program fname)"
proof -
  have "validateProgram reg program fname =
     (\<lambda>res. validateDeclarations reg (Declarations program) fname Map.empty
       (fold (\<lambda>imp. validateImport imp fname) (Imports program) res))"
    by (rule ext) (simp add: validateProgram_def)
  moreover have "appends \<dots>"
    by (rule appends_comp) (simp_all add: appends_fold)
  ultimately show ?thesis by simp
qed

lemma appends_validateSubModules_aux:
  assumes "\<And>n m base. (n, m) \<in> set subs \<Longrightarrow> appends (validateModule reg m base)"
  shows "appends (validateSubModules reg subs base)"
  using assms
proof (induction subs)
  case Nil
  have "validateSubModules reg [] base = (\<lambda>res. res)" by (rule ext) simp
  then show ?case by (simp only: appends_id)
next
  case (Cons a subs)
  obtain n m where a: "a = (n, m)" by (cases a)
  have e: "validateSubModules reg (a # subs) base =
     (\<lambda>res. validateSubModules reg subs base
        ((\<lambda>res. validateModule reg m (joinPath base n)
           ((\<lambda>res. if \<not> IsValidSnakeCase n then
             AddError NamingConventionError
               (''module name '' @ [CHR 0x27] @ n @ [CHR 0x27]
                  @ '' should follow snake_case convention'')
               base 0 0
               (''use '' @ [CHR 0x27] @ SuggestSnakeCase n @ [CHR 0x27])
               res
           else res) res)) res))"
    by (rule ext) (simp add: a)
  have 1: "appends (validateSubModules reg subs base)"
  proof (rule Cons.IH)
    fix n' m' b assume "(n', m') \<in> set subs"
    then show "appends (validateModule reg m' b)"
      using Cons.prems[of n' m' b] by simp
  qed
  have 2: "appends (validateModule reg m (joinPath base n))"
    by (rule Cons.prems[of n m]) (simp add: a)
  have 3: "appends (\<lambda>res. if \<not> IsValidSnakeCase n then
             AddError NamingConventionError
               (''module name '' @ [CHR 0x27] @ n @ [CHR 0x27]
                  @ '' should follow snake_case convention'')
               base 0 0
               (''use '' @ [CHR 0x27] @ SuggestSnakeCase n @ [CHR 0x27])
               res
           else res)"
    by (rule appends_if) (rule appends_AddError, rule appends_id)
  show ?case
    unfolding e by (rule appends_comp[OF appends_comp[OF 3 2] 1])
qed

lemma appends_validateModule [simp]: "appends (validateModule reg m base)"
proof (induction m arbitrary: base)
  case (Module path name fs subs)
  have e: "validateModule reg (Module path name fs subs) base =
     (\<lambda>res. validateSubModules reg subs base
       (fold (\<lambda>entry. validateProgram reg (snd entry) (joinPath base (fst entry))) fs res))"
    by (rule ext) simp
  have 1: "appends (validateSubModules reg subs base)"
  proof (rule appends_validateSubModules_aux)
    fix n m b assume "(n, m) \<in> set subs"
    then show "appends (validateModule reg m b)"
      using Module.IH[of "(n, m)" m b] by simp
  qed
  have 2: "appends (fold (\<lambda>entry. validateProgram reg (snd entry) (joinPath base (fst entry))) fs)"
    by (rule appends_fold) simp
  show ?case unfolding e by (rule appends_comp[OF 2 1])
qed

lemma appends_validateSubModules [simp]: "appends (validateSubModules reg subs base)"
  by (rule appends_validateSubModules_aux) simp

lemma appends_case_list:
  "appends g \<Longrightarrow> (\<And>x xs. appends (h x xs)) \<Longrightarrow>
     appends (\<lambda>res. case l of [] \<Rightarrow> g res | x # xs \<Rightarrow> h x xs res)"
  by (cases l) simp_all

lemma appends_reportCycle [simp]: "appends (reportCycle cycle)"
proof -
  have "reportCycle cycle =
     (\<lambda>res. case Split cycle '' -> '' of
        [] \<Rightarrow> res
      | firstType # others \<Rightarrow>
          (case Split firstType ''::'' of
             [] \<Rightarrow> res
           | file # l2 \<Rightarrow>
              (case l2 of [] \<Rightarrow> res
               | typ # l3 \<Rightarrow>
                  (case l3 of
                     [] \<Rightarrow> AddError CircularDependencyError
                             (''circular dependency detected: '' @ cycle)
                             file 0 0
                             ''restructure types to eliminate circular references''
                             res
                   | x # xs \<Rightarrow> res))))"
    by (rule ext) (simp add: reportCycle_def split: list.splits)
  moreover have "appends \<dots>"
    by (rule appends_case_list, rule appends_id, rule appends_case_list, rule appends_id,
        rule appends_case_list, rule appends_id, rule appends_case_list,
        rule appends_AddError, rule appends_id)
  ultimately show ?thesis by (simp only:)
qed

lemma appends_validateCircularDependencies [simp]:
  "appends (validateCircularDependencies reg keyOrder)"
proof -
  have "validateCircularDependencies reg keyOrder =
          fold reportCycle (ValidateCircularDependencies reg keyOrder)"
    by (rule ext) (simp add: validateCircularDependencies_def)
  then show ?thesis by (simp add: appends_fold)
qed

lemma Validate_result:
  "snd (Validate v module keyOrder) =
     addErrors (newErrors (validateModule (buildTypeRegistry module) module [])
                @ newErrors (validateCircularDependencies (buildTypeRegistry module) keyOrder))
       NewValidationResult"
proof -
  let ?reg = "buildTypeRegistry module"
  have 1: "validateModule ?reg module [] NewValidationResult =
             addErrors (newErrors (validateModule ?reg module [])) NewValidationResult"
    by (rule appendsD) (rule appends_validateModule)
  have 2: "validateCircularDependencies ?reg keyOrder
               (validateModule ?reg module [] NewValidationResult) =
             addErrors (newErrors (validateCircularDependencies ?reg keyOrder))
               (validateModule ?reg module [] NewValidationResult)"
    by (rule appendsD) (rule appends_validateCircularDependencies)
  have "snd (Validate v module keyOrder) =
          validateCircularDependencies ?reg keyOrder
            (validateModule ?reg module [] NewValidationResult)"
    by (simp add: Validate_def Let_def)
  also have "\<dots> = addErrors (newErrors (validateCircularDependencies ?reg keyOrder))
               (addErrors (newErrors (validateModule ?reg module [])) NewValidationResult)"
    unfolding 2 unfolding 1 ..
  finally show ?thesis by simp
qed

lemma IsValidPrimitiveType_iff:
  "IsValidPrimitiveType n \<longleftrightarrow>
   n \<in> {''int8'', ''int16'', ''int32'', ''int64'', ''nat8'', ''nat16'', ''nat32'', ''nat64'',
        ''float32'', ''float64'', ''string'', ''bool'', ''json'', ''datetime'', ''date'', ''time''}"
  by (simp add: IsValidPrimitiveType_def ValidPrimitiveTypes_def)

lemma IsValidMapKeyType_iff:
  "IsValidMapKeyType n \<longleftrightarrow>
   n \<in> {''string'', ''int8'', ''int16'', ''int32'', ''int64'',
        ''nat8'', ''nat16'', ''nat32'', ''nat64''}"
  by (simp add: IsValidMapKeyType_def ValidMapKeyTypes_def)

lemma list_ex_HasSuffix:
  "list_ex (\<lambda>(qualName, info). HasSuffix qualName s) xs \<longleftrightarrow>
     (\<exists>qualName \<in> fst ` set xs. suffix s qualName)"
  by (induction xs) (auto simp: HasSuffix_def)

lemma find_HasSuffix_None:
  "find (\<lambda>(qualName, info). HasSuffix qualName s) xs = None \<longleftrightarrow>
     \<not> (\<exists>qualName \<in> fst ` set xs. suffix s qualName)"
  by (induction xs) (auto simp: HasSuffix_def)

lemma find_HasSuffix_Some:
  "find (\<lambda>(qualName, info). HasSuffix qualName s) xs = Some (q, i) \<Longrightarrow>
     (q, i) \<in> set xs \<and> suffix s q"
  by (induction xs) (auto simp: HasSuffix_def split: if_splits)

section \<open>Kinds of errors and repeated names\<close>

lemma newErrors_validateType_Array:
  "newErrors (validateType reg (ArrayType t) f l c) = newErrors (validateType reg t f l c)"
  by (simp add: newErrors_def)

lemma validateType_types:
  "Type ` set (newErrors (validateType reg t f l c)) \<subseteq>
     {InvalidPrimitiveError, UndefinedTypeError, InvalidMapKeyError, InvalidOptionalError}"
proof (induction t)
  case (PrimitiveType n)
  show ?case by (simp add: newErrors_def validatePrimitiveType_def AddError_def)
next
  case (NamedType n)
  show ?case by (simp add: newErrors_def validateNamedType_def AddError_def)
next
  case (ArrayType t)
  then show ?case by (simp only: newErrors_validateType_Array)
next
  case (MapType k v)
  have "Type ` set (newErrors (checkMapKey k f l c)) \<subseteq> {InvalidMapKeyError}"
    by (cases k) (simp_all add: newErrors_def checkMapKey_def AddError_def)
  with MapType show ?case
    unfolding newErrors_validateType_Map by auto
next
  case (OptionalType t)
  have "Type ` set (newErrors (checkDoubleOptional t f l c)) \<subseteq> {InvalidOptionalError}"
    by (cases t) (simp_all add: newErrors_def checkDoubleOptional_def AddError_def)
  with OptionalType show ?case
    unfolding newErrors_validateType_Optional by auto
qed

lemma validateType_no_type:
  assumes "T \<notin> {InvalidPrimitiveError, UndefinedTypeError, InvalidMapKeyError,
                 InvalidOptionalError}"
  shows "filter (\<lambda>e. Type e = T) (newErrors (validateType reg t f l c)) = []"
  using validateType_types[of reg t f l c] assms by (auto simp: filter_empty_conv)

text \<open>The map of names after a loop has run over a list, and what it holds.\<close>

definition seen :: "('a \<Rightarrow> string) \<Rightarrow> 'a list \<Rightarrow> (string \<rightharpoonup> 'a) \<Rightarrow> (string \<rightharpoonup> 'a)" where
  "seen name xs names = fold (\<lambda>x. remember (name x) x) xs names"

lemma seen_Nil: "seen name [] names = names"
  by (simp add: seen_def)

lemma seen_Cons: "seen name (x # xs) names = seen name xs (remember (name x) x names)"
  by (simp add: seen_def)

lemma seen_append: "seen name (xs @ ys) names = seen name ys (seen name xs names)"
  by (simp add: seen_def)

lemma remember_keeps: "names n = Some x \<Longrightarrow> remember m y names n = Some x"
  by (cases "names m") (auto simp: remember_def)

lemma seen_keeps: "names n = Some x \<Longrightarrow> seen name xs names n = Some x"
  by (induction xs arbitrary: names) (simp_all add: remember_keeps seen_Nil seen_Cons)

lemma remember_other: "m \<noteq> n \<Longrightarrow> remember m y names n = names n"
  by (cases "names m") (auto simp: remember_def)

lemma seen_other: "n \<notin> name ` set xs \<Longrightarrow> seen name xs names n = names n"
  by (induction xs arbitrary: names) (auto simp: remember_other seen_Nil seen_Cons)

lemma seen_first:
  "n \<notin> name ` set pre \<Longrightarrow> name x = n \<Longrightarrow> names n = None \<Longrightarrow>
     seen name (pre @ x # mid) names n = Some x"
  by (simp add: seen_append seen_Cons seen_other seen_keeps remember_def)

lemma remember_seen: "names n = Some x \<Longrightarrow> remember n y names = names"
  by (simp add: remember_def)

lemma newErrors_validateFields_Nil [simp]: "newErrors (validateFields reg [] fname names) = []"
  by (simp add: newErrors_def)

lemma newErrors_validateFields_append:
  "newErrors (validateFields reg (xs @ ys) fname names) =
     newErrors (validateFields reg xs fname names)
       @ newErrors (validateFields reg ys fname (seen FieldName xs names))"
  by (induction xs arbitrary: names)
     (simp_all add: newErrors_validateFields_Cons seen_Nil seen_Cons)

text \<open>The error a second occurrence of a field name gets.\<close>

definition duplicateFieldError :: "string \<Rightarrow> FieldNode \<Rightarrow> FieldNode \<Rightarrow> ValidationError" where
  "duplicateFieldError fname field existing =
     \<lparr>Type = DuplicateFieldError,
      Message = ''duplicate field '' @ [CHR 0x27] @ FieldName field @ [CHR 0x27]
                  @ '' (first declared at line '' @ fmt_d (PosLine (FieldPos existing)) @ '')'',
      File = fname, Line = PosLine (FieldPos field), Column = PosColumn (FieldPos field),
      Suggestion = ''rename one of the fields''\<rparr>"

lemma fieldErrors_duplicates:
  "filter (\<lambda>e. Type e = DuplicateFieldError) (fieldErrors reg field fname names) =
     (case names (FieldName field) of
        Some existing \<Rightarrow> [duplicateFieldError fname field existing]
      | None \<Rightarrow> [])"
proof -
  have t: "filter (\<lambda>e. Type e = DuplicateFieldError)
             (newErrors (validateType reg (FieldType field) fname (PosLine (FieldPos field))
                (PosColumn (FieldPos field)))) = []"
    by (rule validateType_no_type) simp
  show ?thesis
    unfolding fieldErrors_def validateField_def Let_def
    by (cases "names (FieldName field)"; cases "IsValidSnakeCase (FieldName field)")
       (simp_all add: validateType_Errors t AddError_def duplicateFieldError_def)
qed


lemma validateStruct_duplicates:
  "filter (\<lambda>e. Type e = DuplicateFieldError)
     (Errors (validateStruct reg pos sname flds fname res)) =
   filter (\<lambda>e. Type e = DuplicateFieldError) (Errors res)
     @ filter (\<lambda>e. Type e = DuplicateFieldError)
         (newErrors (validateFields reg flds fname Map.empty))"
  unfolding validateStruct_def
  by (cases "IsValidPascalCase sname") (simp_all add: validateFields_add AddError_def)

lemma fields_second_occurrence:
  assumes same: "FieldName f1 = FieldName f2"
    and first: "FieldName f2 \<notin> FieldName ` set pre"
  shows "filter (\<lambda>e. Type e = DuplicateFieldError)
           (newErrors (validateFields reg (pre @ f1 # mid @ f2 # post) fname Map.empty)) =
         filter (\<lambda>e. Type e = DuplicateFieldError)
           (newErrors (validateFields reg (pre @ f1 # mid) fname Map.empty))
         @ duplicateFieldError fname f2 f1
         # filter (\<lambda>e. Type e = DuplicateFieldError)
             (newErrors (validateFields reg post fname
                (seen FieldName (pre @ f1 # mid) Map.empty)))"
    and "filter (\<lambda>e. Type e = DuplicateFieldError)
           (newErrors (validateFields reg (pre @ f1 # mid @ post) fname Map.empty)) =
         filter (\<lambda>e. Type e = DuplicateFieldError)
           (newErrors (validateFields reg (pre @ f1 # mid) fname Map.empty))
         @ filter (\<lambda>e. Type e = DuplicateFieldError)
             (newErrors (validateFields reg post fname
                (seen FieldName (pre @ f1 # mid) Map.empty)))"
proof -
  let ?N = "seen FieldName (pre @ f1 # mid) Map.empty"
  have N: "?N (FieldName f2) = Some f1"
    by (rule seen_first) (simp_all add: first same)
  have R: "remember (FieldName f2) f2 ?N = ?N"
    by (rule remember_seen) (rule N)
  have "newErrors (validateFields reg ((pre @ f1 # mid) @ f2 # post) fname Map.empty) =
          newErrors (validateFields reg (pre @ f1 # mid) fname Map.empty)
          @ fieldErrors reg f2 fname ?N
          @ newErrors (validateFields reg post fname ?N)"
    by (simp only: newErrors_validateFields_append newErrors_validateFields_Cons R)
  then show "filter (\<lambda>e. Type e = DuplicateFieldError)
           (newErrors (validateFields reg (pre @ f1 # mid @ f2 # post) fname Map.empty)) =
         filter (\<lambda>e. Type e = DuplicateFieldError)
           (newErrors (validateFields reg (pre @ f1 # mid) fname Map.empty))
         @ duplicateFieldError fname f2 f1
         # filter (\<lambda>e. Type e = DuplicateFieldError)
             (newErrors (validateFields reg post fname ?N))"
    by (simp add: fieldErrors_duplicates N)
  have "newErrors (validateFields reg ((pre @ f1 # mid) @ post) fname Map.empty) =
          newErrors (validateFields reg (pre @ f1 # mid) fname Map.empty)
          @ newErrors (validateFields reg post fname ?N)"
    by (simp only: newErrors_validateFields_append)
  then show "filter (\<lambda>e. Type e = DuplicateFieldError)
           (newErrors (validateFields reg (pre @ f1 # mid @ post) fname Map.empty)) =
         filter (\<lambda>e. Type e = DuplicateFieldError)
           (newErrors (validateFields reg (pre @ f1 # mid) fname Map.empty))
         @ filter (\<lambda>e. Type e = DuplicateFieldError)
             (newErrors (validateFields reg post fname ?N))"
    by simp
qed

lemma struct_second_occurrence:
  assumes same: "FieldName f1 = FieldName f2"
    and first: "FieldName f2 \<notin> FieldName ` set pre"
  shows "filter (\<lambda>e. Type e = DuplicateFieldError)
           (Errors (validateStruct reg pos sname (pre @ f1 # mid @ f2 # post) fname res)) =
         filter (\<lambda>e. Type e = DuplicateFieldError)
           (Errors (validateStruct reg pos sname (pre @ f1 # mid) fname res))
         @ duplicateFieldError fname f2 f1
         # drop (length (filter (\<lambda>e. Type e = DuplicateFieldError)
                   (Errors (validateStruct reg pos sname (pre @ f1 # mid) fname res))))
             (filter (\<lambda>e. Type e = DuplicateFieldError)
                (Errors (validateStruct reg pos sname (pre @ f1 # mid @ post) fname res)))"
    and "take (length (filter (\<lambda>e. Type e = DuplicateFieldError)
                   (Errors (validateStruct reg pos sname (pre @ f1 # mid) fname res))))
             (filter (\<lambda>e. Type e = DuplicateFieldError)
                (Errors (validateStruct reg pos sname (pre @ f1 # mid @ post) fname res))) =
         filter (\<lambda>e. Type e = DuplicateFieldError)
           (Errors (validateStruct reg pos sname (pre @ f1 # mid) fname res))"
proof -
  let ?d = "\<lambda>es. filter (\<lambda>e. Type e = DuplicateFieldError) es"
  let ?P = "?d (newErrors (validateFields reg post fname
                (seen FieldName (pre @ f1 # mid) Map.empty)))"
  let ?A = "?d (Errors (validateStruct reg pos sname (pre @ f1 # mid) fname res))"
  have A: "?A = ?d (Errors res) @ ?d (newErrors (validateFields reg (pre @ f1 # mid) fname Map.empty))"
    by (rule validateStruct_duplicates)
  have "?d (Errors (validateStruct reg pos sname (pre @ f1 # mid @ f2 # post) fname res)) =
          ?d (Errors res)
          @ ?d (newErrors (validateFields reg (pre @ f1 # mid @ f2 # post) fname Map.empty))"
    by (rule validateStruct_duplicates)
  also have "\<dots> = ?d (Errors res)
          @ (?d (newErrors (validateFields reg (pre @ f1 # mid) fname Map.empty))
             @ duplicateFieldError fname f2 f1 # ?P)"
    by (simp only: fields_second_occurrence(1)[OF same first])
  finally have C: "?d (Errors (validateStruct reg pos sname (pre @ f1 # mid @ f2 # post) fname res))
      = ?A @ duplicateFieldError fname f2 f1 # ?P"
    by (simp only: A append_assoc)
  have "?d (Errors (validateStruct reg pos sname (pre @ f1 # mid @ post) fname res)) =
          ?d (Errors res)
          @ ?d (newErrors (validateFields reg (pre @ f1 # mid @ post) fname Map.empty))"
    by (rule validateStruct_duplicates)
  also have "\<dots> = ?d (Errors res)
          @ (?d (newErrors (validateFields reg (pre @ f1 # mid) fname Map.empty)) @ ?P)"
    by (simp only: fields_second_occurrence(2)[OF same first])
  finally have B: "?d (Errors (validateStruct reg pos sname (pre @ f1 # mid @ post) fname res))
      = ?A @ ?P"
    by (simp only: A append_assoc)
  show "?d (Errors (validateStruct reg pos sname (pre @ f1 # mid @ f2 # post) fname res)) =
         ?A @ duplicateFieldError fname f2 f1
         # drop (length ?A)
             (?d (Errors (validateStruct reg pos sname (pre @ f1 # mid @ post) fname res)))"
    unfolding C B by simp
  show "take (length ?A)
          (?d (Errors (validateStruct reg pos sname (pre @ f1 # mid @ post) fname res))) = ?A"
    unfolding B by simp
qed


text \<open>Steps that append no error of a given kind.\<close>

definition noErr :: "ValidationErrorType \<Rightarrow> (ValidationResult \<Rightarrow> ValidationResult) \<Rightarrow> bool" where
  "noErr T g = (appends g \<and> filter (\<lambda>e. Type e = T) (newErrors g) = [])"

lemma noErr_id: "noErr T (\<lambda>res. res)"
  by (simp add: noErr_def)

lemma noErr_AddError: "t \<noteq> T \<Longrightarrow> noErr T (AddError t m f l c s)"
  by (simp add: noErr_def)

lemma noErr_comp: "noErr T g \<Longrightarrow> noErr T h \<Longrightarrow> noErr T (\<lambda>res. h (g res))"
  by (simp add: noErr_def appends_comp newErrors_comp)

lemma noErr_if: "noErr T g \<Longrightarrow> noErr T h \<Longrightarrow> noErr T (\<lambda>res. if b then g res else h res)"
  by (cases b) simp_all

lemma noErr_fold: "(\<And>x. x \<in> set xs \<Longrightarrow> noErr T (f x)) \<Longrightarrow> noErr T (fold f xs)"
proof (induction xs)
  case Nil
  have "fold f [] = (\<lambda>res. res)" by (rule ext) simp
  then show ?case by (simp only: noErr_id)
next
  case (Cons x xs)
  have e: "fold f (x # xs) = (\<lambda>res. fold f xs (f x res))" by (rule ext) simp
  have "noErr T (\<lambda>res. fold f xs (f x res))"
    by (rule noErr_comp) (simp_all add: Cons)
  then show ?case by (simp only: e)
qed

lemma noErr_Errors:
  "noErr T g \<Longrightarrow> filter (\<lambda>e. Type e = T) (Errors (g res)) = filter (\<lambda>e. Type e = T) (Errors res)"
  using appendsD[of g res] by (simp add: noErr_def)

lemma noErr_validateType:
  "T \<notin> {InvalidPrimitiveError, UndefinedTypeError, InvalidMapKeyError, InvalidOptionalError}
     \<Longrightarrow> noErr T (validateType reg t f l c)"
  unfolding noErr_def by (simp add: validateType_no_type)

lemma noErr_validateField:
  assumes "T \<notin> {InvalidPrimitiveError, UndefinedTypeError, InvalidMapKeyError,
                 InvalidOptionalError, NamingConventionError, DuplicateFieldError}"
  shows "filter (\<lambda>e. Type e = T) (fieldErrors reg field fname names) = []"
proof -
  have t: "filter (\<lambda>e. Type e = T)
             (newErrors (validateType reg (FieldType field) fname (PosLine (FieldPos field))
                (PosColumn (FieldPos field)))) = []"
    by (rule validateType_no_type) (use assms in simp)
  show ?thesis
    unfolding fieldErrors_def validateField_def Let_def
    using assms
    by (cases "names (FieldName field)"; cases "IsValidSnakeCase (FieldName field)")
       (auto simp: validateType_Errors t AddError_def)
qed

lemma noErr_validateFields:
  assumes "T \<notin> {InvalidPrimitiveError, UndefinedTypeError, InvalidMapKeyError,
                 InvalidOptionalError, NamingConventionError, DuplicateFieldError}"
  shows "noErr T (validateFields reg fs fname names)"
proof -
  have "filter (\<lambda>e. Type e = T) (newErrors (validateFields reg fs fname names)) = []"
    by (induction fs arbitrary: names)
       (simp_all add: newErrors_validateFields_Cons noErr_validateField[OF assms])
  moreover have "appends (validateFields reg fs fname names)"
    by (rule appendsI) (rule validateFields_add)
  ultimately show ?thesis by (simp add: noErr_def)
qed

lemma noErr_validateStruct:
  assumes "T \<notin> {InvalidPrimitiveError, UndefinedTypeError, InvalidMapKeyError,
                 InvalidOptionalError, NamingConventionError, DuplicateFieldError}"
  shows "noErr T (validateStruct reg pos sname flds fname)"
proof -
  have e: "validateStruct reg pos sname flds fname =
     (\<lambda>res. validateFields reg flds fname Map.empty
       ((\<lambda>res. if \<not> IsValidPascalCase sname then
          AddError NamingConventionError
            (''struct name '' @ [CHR 0x27] @ sname @ [CHR 0x27]
               @ '' should follow PascalCase convention'')
            fname (PosLine pos) (PosColumn pos)
            (''use '' @ [CHR 0x27] @ SuggestPascalCase sname @ [CHR 0x27])
            res
        else res) res))"
    by (rule ext) (simp add: validateStruct_def)
  show ?thesis
    unfolding e using assms
    by (intro noErr_comp[OF noErr_if[OF noErr_AddError noErr_id] noErr_validateFields]) auto
qed


lemma newErrors_validateVariants_Nil [simp]:
  "newErrors (validateVariants reg [] fname names) = []"
  by (simp add: newErrors_def)

lemma newErrors_validateVariants_append:
  "newErrors (validateVariants reg (xs @ ys) fname names) =
     newErrors (validateVariants reg xs fname names)
       @ newErrors (validateVariants reg ys fname (seen VariantName xs names))"
  by (induction xs arbitrary: names)
     (simp_all add: newErrors_validateVariants_Cons seen_Nil seen_Cons)

definition duplicateVariantError ::
  "string \<Rightarrow> EnumVariantNode \<Rightarrow> EnumVariantNode \<Rightarrow> ValidationError" where
  "duplicateVariantError fname variant existing =
     \<lparr>Type = DuplicateVariantError,
      Message = ''duplicate variant '' @ [CHR 0x27] @ VariantName variant @ [CHR 0x27]
                  @ '' (first declared at line '' @ fmt_d (PosLine (VariantPos existing)) @ '')'',
      File = fname, Line = PosLine (VariantPos variant), Column = PosColumn (VariantPos variant),
      Suggestion = ''rename one of the variants''\<rparr>"

lemma payload_no_type:
  assumes "T \<notin> {InvalidPrimitiveError, UndefinedTypeError, InvalidMapKeyError,
                 InvalidOptionalError}"
  shows "filter (\<lambda>e. Type e = T)
           (Errors (case p of Some t \<Rightarrow> validateType reg t f l c res | None \<Rightarrow> res)) =
         filter (\<lambda>e. Type e = T) (Errors res)"
  by (cases p) (simp_all add: validateType_Errors validateType_no_type[OF assms])

lemma variantErrors_duplicates:
  "filter (\<lambda>e. Type e = DuplicateVariantError) (variantErrors reg variant fname names) =
     (case names (VariantName variant) of
        Some existing \<Rightarrow> [duplicateVariantError fname variant existing]
      | None \<Rightarrow> [])"
  unfolding variantErrors_def validateEnumVariant_def Let_def
  by (cases "names (VariantName variant)"; cases "IsValidSnakeCase (VariantName variant)")
     (simp_all add: payload_no_type AddError_def duplicateVariantError_def)

lemma noErr_validateEnumVariant:
  assumes "T \<notin> {InvalidPrimitiveError, UndefinedTypeError, InvalidMapKeyError,
                 InvalidOptionalError, NamingConventionError, DuplicateVariantError}"
  shows "filter (\<lambda>e. Type e = T) (variantErrors reg variant fname names) = []"
proof -
  have T: "T \<notin> {InvalidPrimitiveError, UndefinedTypeError, InvalidMapKeyError,
                 InvalidOptionalError}"
    using assms by simp
  show ?thesis
    unfolding variantErrors_def validateEnumVariant_def Let_def
    using assms
    by (cases "names (VariantName variant)"; cases "IsValidSnakeCase (VariantName variant)")
       (auto simp: payload_no_type[OF T] AddError_def)
qed

lemma noErr_validateVariants:
  assumes "T \<notin> {InvalidPrimitiveError, UndefinedTypeError, InvalidMapKeyError,
                 InvalidOptionalError, NamingConventionError, DuplicateVariantError}"
  shows "noErr T (validateVariants reg vs fname names)"
proof -
  have "filter (\<lambda>e. Type e = T) (newErrors (validateVariants reg vs fname names)) = []"
    by (induction vs arbitrary: names)
       (simp_all add: newErrors_validateVariants_Cons noErr_validateEnumVariant[OF assms])
  moreover have "appends (validateVariants reg vs fname names)"
    by (rule appendsI) (rule validateVariants_add)
  ultimately show ?thesis by (simp add: noErr_def)
qed

lemma noErr_validateEnum:
  assumes "T \<notin> {InvalidPrimitiveError, UndefinedTypeError, InvalidMapKeyError,
                 InvalidOptionalError, NamingConventionError, DuplicateVariantError}"
  shows "noErr T (validateEnum reg pos ename vars fname)"
proof -
  have e: "validateEnum reg pos ename vars fname =
     (\<lambda>res. validateVariants reg vars fname Map.empty
       ((\<lambda>res. if \<not> IsValidPascalCase ename then
          AddError NamingConventionError
            (''enum name '' @ [CHR 0x27] @ ename @ [CHR 0x27]
               @ '' should follow PascalCase convention'')
            fname (PosLine pos) (PosColumn pos)
            (''use '' @ [CHR 0x27] @ SuggestPascalCase ename @ [CHR 0x27])
            res
        else res) res))"
    by (rule ext) (simp add: validateEnum_def)
  show ?thesis
    unfolding e using assms
    by (intro noErr_comp[OF noErr_if[OF noErr_AddError noErr_id] noErr_validateVariants]) auto
qed

lemma validateEnum_duplicates:
  "filter (\<lambda>e. Type e = DuplicateVariantError)
     (Errors (validateEnum reg pos ename vars fname res)) =
   filter (\<lambda>e. Type e = DuplicateVariantError) (Errors res)
     @ filter (\<lambda>e. Type e = DuplicateVariantError)
         (newErrors (validateVariants reg vars fname Map.empty))"
  unfolding validateEnum_def
  by (cases "IsValidPascalCase ename") (simp_all add: validateVariants_add AddError_def)

lemma variants_second_occurrence:
  assumes same: "VariantName v1 = VariantName v2"
    and first: "VariantName v2 \<notin> VariantName ` set pre"
  shows "filter (\<lambda>e. Type e = DuplicateVariantError)
           (newErrors (validateVariants reg (pre @ v1 # mid @ v2 # post) fname Map.empty)) =
         filter (\<lambda>e. Type e = DuplicateVariantError)
           (newErrors (validateVariants reg (pre @ v1 # mid) fname Map.empty))
         @ duplicateVariantError fname v2 v1
         # filter (\<lambda>e. Type e = DuplicateVariantError)
             (newErrors (validateVariants reg post fname
                (seen VariantName (pre @ v1 # mid) Map.empty)))"
    and "filter (\<lambda>e. Type e = DuplicateVariantError)
           (newErrors (validateVariants reg (pre @ v1 # mid @ post) fname Map.empty)) =
         filter (\<lambda>e. Type e = DuplicateVariantError)
           (newErrors (validateVariants reg (pre @ v1 # mid) fname Map.empty))
         @ filter (\<lambda>e. Type e = DuplicateVariantError)
             (newErrors (validateVariants reg post fname
                (seen VariantName (pre @ v1 # mid) Map.empty)))"
proof -
  let ?N = "seen VariantName (pre @ v1 # mid) Map.empty"
  have N: "?N (VariantName v2) = Some v1"
    by (rule seen_first) (simp_all add: first same)
  have R: "remember (VariantName v2) v2 ?N = ?N"
    by (rule remember_seen) (rule N)
  have "newErrors (validateVariants reg ((pre @ v1 # mid) @ v2 # post) fname Map.empty) =
          newErrors (validateVariants reg (pre @ v1 # mid) fname Map.empty)
          @ variantErrors reg v2 fname ?N
          @ newErrors (validateVariants reg post fname ?N)"
    by (simp only: newErrors_validateVariants_append newErrors_validateVariants_Cons R)
  then show "filter (\<lambda>e. Type e = DuplicateVariantError)
           (newErrors (validateVariants reg (pre @ v1 # mid @ v2 # post) fname Map.empty)) =
         filter (\<lambda>e. Type e = DuplicateVariantError)
           (newErrors (validateVariants reg (pre @ v1 # mid) fname Map.empty))
         @ duplicateVariantError fname v2 v1
         # filter (\<lambda>e. Type e = DuplicateVariantError)
             (newErrors (validateVariants reg post fname ?N))"
    by (simp add: variantErrors_duplicates N)
  have "newErrors (validateVariants reg ((pre @ v1 # mid) @ post) fname Map.empty) =
          newErrors (validateVariants reg (pre @ v1 # mid) fname Map.empty)
          @ newErrors (validateVariants reg post fname ?N)"
    by (simp only: newErrors_validateVariants_append)
  then show "filter (\<lambda>e. Type e = DuplicateVariantError)
           (newErrors (validateVariants reg (pre @ v1 # mid @ post) fname Map.empty)) =
         filter (\<lambda>e. Type e = DuplicateVariantError)
           (newErrors (validateVariants reg (pre @ v1 # mid) fname Map.empty))
         @ filter (\<lambda>e. Type e = DuplicateVariantError)
             (newErrors (validateVariants reg post fname ?N))"
    by simp
qed

lemma enum_second_occurrence:
  assumes same: "VariantName v1 = VariantName v2"
    and first: "VariantName v2 \<notin> VariantName ` set pre"
  shows "filter (\<lambda>e. Type e = DuplicateVariantError)
           (Errors (validateEnum reg pos ename (pre @ v1 # mid @ v2 # post) fname res)) =
         filter (\<lambda>e. Type e = DuplicateVariantError)
           (Errors (validateEnum reg pos ename (pre @ v1 # mid) fname res))
         @ duplicateVariantError fname v2 v1
         # drop (length (filter (\<lambda>e. Type e = DuplicateVariantError)
                   (Errors (validateEnum reg pos ename (pre @ v1 # mid) fname res))))
             (filter (\<lambda>e. Type e = DuplicateVariantError)
                (Errors (validateEnum reg pos ename (pre @ v1 # mid @ post) fname res)))"
    and "take (length (filter (\<lambda>e. Type e = DuplicateVariantError)
                   (Errors (validateEnum reg pos ename (pre @ v1 # mid) fname res))))
             (filter (\<lambda>e. Type e = DuplicateVariantError)
                (Errors (validateEnum reg pos ename (pre @ v1 # mid @ post) fname res))) =
         filter (\<lambda>e. Type e = DuplicateVariantError)
           (Errors (validateEnum reg pos ename (pre @ v1 # mid) fname res))"
proof -
  let ?d = "\<lambda>es. filter (\<lambda>e. Type e = DuplicateVariantError) es"
  let ?P = "?d (newErrors (validateVariants reg post fname
                (seen VariantName (pre @ v1 # mid) Map.empty)))"
  let ?A = "?d (Errors (validateEnum reg pos ename (pre @ v1 # mid) fname res))"
  have A: "?A = ?d (Errors res)
                @ ?d (newErrors (validateVariants reg (pre @ v1 # mid) fname Map.empty))"
    by (rule validateEnum_duplicates)
  have "?d (Errors (validateEnum reg pos ename (pre @ v1 # mid @ v2 # post) fname res)) =
          ?d (Errors res)
          @ ?d (newErrors (validateVariants reg (pre @ v1 # mid @ v2 # post) fname Map.empty))"
    by (rule validateEnum_duplicates)
  also have "\<dots> = ?d (Errors res)
          @ (?d (newErrors (validateVariants reg (pre @ v1 # mid) fname Map.empty))
             @ duplicateVariantError fname v2 v1 # ?P)"
    by (simp only: variants_second_occurrence(1)[OF same first])
  finally have C: "?d (Errors (validateEnum reg pos ename (pre @ v1 # mid @ v2 # post) fname res))
      = ?A @ duplicateVariantError fname v2 v1 # ?P"
    by (simp only: A append_assoc)
  have "?d (Errors (validateEnum reg pos ename (pre @ v1 # mid @ post) fname res)) =
          ?d (Errors res)
          @ ?d (newErrors (validateVariants reg (pre @ v1 # mid @ post) fname Map.empty))"
    by (rule validateEnum_duplicates)
  also have "\<dots> = ?d (Errors res)
          @ (?d (newErrors (validateVariants reg (pre @ v1 # mid) fname Map.empty)) @ ?P)"
    by (simp only: variants_second_occurrence(2)[OF same first])
  finally have B: "?d (Errors (validateEnum reg pos ename (pre @ v1 # mid @ post) fname res))
      = ?A @ ?P"
    by (simp only: A append_assoc)
  show "?d (Errors (validateEnum reg pos ename (pre @ v1 # mid @ v2 # post) fname res)) =
         ?A @ duplicateVariantError fname v2 v1
         # drop (length ?A)
             (?d (Errors (validateEnum reg pos ename (pre @ v1 # mid @ post) fname res)))"
    unfolding C B by simp
  show "take (length ?A)
          (?d (Errors (validateEnum reg pos ename (pre @ v1 # mid @ post) fname res))) = ?A"
    unfolding B by simp
qed

subsection \<open>Repeated declarations in a file\<close>

lemma noErr_validateTypeAlias:
  assumes "T \<notin> {InvalidPrimitiveError, UndefinedTypeError, InvalidMapKeyError,
                 InvalidOptionalError, NamingConventionError}"
  shows "noErr T (validateTypeAlias reg pos aname t fname)"
proof -
  have e: "validateTypeAlias reg pos aname t fname =
     (\<lambda>res. validateType reg t fname (PosLine pos) (PosColumn pos)
       ((\<lambda>res. if \<not> IsValidPascalCase aname then
          AddError NamingConventionError
            (''type alias '' @ [CHR 0x27] @ aname @ [CHR 0x27]
               @ '' should follow PascalCase convention'')
            fname (PosLine pos) (PosColumn pos)
            (''use '' @ [CHR 0x27] @ SuggestPascalCase aname @ [CHR 0x27])
            res
        else res) res))"
    by (rule ext) (simp add: validateTypeAlias_def)
  show ?thesis
    unfolding e using assms
    by (intro noErr_comp[OF noErr_if[OF noErr_AddError noErr_id] noErr_validateType]) auto
qed

lemma noErr_validateConstant:
  assumes "T \<notin> {NamingConventionError, InvalidConstantError}"
  shows "noErr T (validateConstant pos cname val fname)"
proof -
  have e: "validateConstant pos cname val fname =
     (\<lambda>res. (\<lambda>res. if val = None then
           AddError InvalidConstantError
             (''constant '' @ [CHR 0x27] @ cname @ [CHR 0x27] @ '' must have a value'')
             fname (PosLine pos) (PosColumn pos)
             ''provide a value for the constant''
             res
         else res)
       ((\<lambda>res. if \<not> IsValidConstantCase cname then
                    AddError NamingConventionError
                      (''constant name '' @ [CHR 0x27] @ cname @ [CHR 0x27]
                         @ '' should follow CONSTANT_CASE convention'')
                      fname (PosLine pos) (PosColumn pos)
                      (''use '' @ [CHR 0x27] @ SuggestConstantCase cname @ [CHR 0x27])
                      res
                  else res) res))"
    by (rule ext) (simp add: validateConstant_def Let_def)
  show ?thesis
    unfolding e using assms
    by (intro noErr_comp[OF noErr_if[OF noErr_AddError noErr_id]
                noErr_if[OF noErr_AddError noErr_id]]) auto
qed

lemma noErr_validateBody:
  assumes "T \<notin> {InvalidPrimitiveError, UndefinedTypeError, InvalidMapKeyError,
                 InvalidOptionalError, NamingConventionError, DuplicateFieldError,
                 DuplicateVariantError, InvalidConstantError}"
  shows "noErr T (validateBody reg decl fname)"
proof (cases decl)
  case (StructNode p n fs)
  have "validateBody reg decl fname = validateStruct reg p n fs fname"
    by (rule ext) (simp add: StructNode)
  moreover have "noErr T (validateStruct reg p n fs fname)"
    by (rule noErr_validateStruct) (use assms in simp)
  ultimately show ?thesis by (simp only:)
next
  case (EnumNode p n vs)
  have "validateBody reg decl fname = validateEnum reg p n vs fname"
    by (rule ext) (simp add: EnumNode)
  moreover have "noErr T (validateEnum reg p n vs fname)"
    by (rule noErr_validateEnum) (use assms in simp)
  ultimately show ?thesis by (simp only:)
next
  case (TypeAliasNode p n t)
  have "validateBody reg decl fname = validateTypeAlias reg p n t fname"
    by (rule ext) (simp add: TypeAliasNode)
  moreover have "noErr T (validateTypeAlias reg p n t fname)"
    by (rule noErr_validateTypeAlias) (use assms in simp)
  ultimately show ?thesis by (simp only:)
next
  case (ConstantNode p n v)
  have "validateBody reg decl fname = validateConstant p n v fname"
    by (rule ext) (simp add: ConstantNode)
  moreover have "noErr T (validateConstant p n v fname)"
    by (rule noErr_validateConstant) (use assms in simp)
  ultimately show ?thesis by (simp only:)
qed

definition duplicateTypeError :: "string \<Rightarrow> Declaration \<Rightarrow> Declaration \<Rightarrow> ValidationError" where
  "duplicateTypeError fname decl existing =
     \<lparr>Type = DuplicateTypeError,
      Message = ''duplicate '' @ declTypeOf decl @ '' '' @ [CHR 0x27] @ DeclName decl @ [CHR 0x27]
                  @ '' (first declared at line '' @ fmt_d (PosLine (DeclPos existing)) @ '')'',
      File = fname, Line = PosLine (DeclPos decl), Column = PosColumn (DeclPos decl),
      Suggestion = ''rename one of the declarations''\<rparr>"

lemma declErrors_duplicates:
  "filter (\<lambda>e. Type e = DuplicateTypeError) (declErrors reg decl fname names) =
     (case names (DeclName decl) of
        Some existing \<Rightarrow> [duplicateTypeError fname decl existing]
      | None \<Rightarrow> [])"
proof -
  have "noErr DuplicateTypeError (validateBody reg decl fname)"
    by (rule noErr_validateBody) simp
  then have b: "filter (\<lambda>e. Type e = DuplicateTypeError)
                  (Errors (validateBody reg decl fname NewValidationResult)) = []"
    using noErr_Errors[of DuplicateTypeError "validateBody reg decl fname" NewValidationResult]
    by simp
  show ?thesis
    unfolding declErrors_def validateDeclaration_def Let_def
    by (cases "names (DeclName decl)") (simp_all add: b AddError_def duplicateTypeError_def)
qed

lemma newErrors_validateDeclarations_Nil [simp]:
  "newErrors (validateDeclarations reg [] fname names) = []"
  by (simp add: newErrors_def)

lemma newErrors_validateDeclarations_append:
  "newErrors (validateDeclarations reg (xs @ ys) fname names) =
     newErrors (validateDeclarations reg xs fname names)
       @ newErrors (validateDeclarations reg ys fname (seen DeclName xs names))"
  by (induction xs arbitrary: names)
     (simp_all add: newErrors_validateDeclarations_Cons seen_Nil seen_Cons)

lemma noErr_validateImport: "T \<noteq> InvalidImportError \<Longrightarrow> noErr T (validateImport imp fname)"
proof -
  assume T: "T \<noteq> InvalidImportError"
  have e: "validateImport imp fname =
     (\<lambda>res. if \<not> IsValidModuleName (ImportPath imp) then
        AddError InvalidImportError
          (''import path '' @ [CHR 0x27] @ ImportPath imp @ [CHR 0x27]
             @ '' should follow snake_case convention for module names'')
          fname (PosLine (ImportPos imp)) (PosColumn (ImportPos imp))
          (''use '' @ [CHR 0x27] @ SuggestModuleName (ImportPath imp) @ [CHR 0x27])
          res
      else res)"
    by (rule ext) (simp add: validateImport_def Let_def)
  show ?thesis
    unfolding e using T by (intro noErr_if[OF noErr_AddError noErr_id]) auto
qed

lemma validateProgram_duplicates:
  "filter (\<lambda>e. Type e = DuplicateTypeError) (Errors (validateProgram reg program fname res)) =
   filter (\<lambda>e. Type e = DuplicateTypeError) (Errors res)
     @ filter (\<lambda>e. Type e = DuplicateTypeError)
         (newErrors (validateDeclarations reg (Declarations program) fname Map.empty))"
proof -
  have "noErr DuplicateTypeError (fold (\<lambda>imp. validateImport imp fname) (Imports program))"
    by (rule noErr_fold) (simp add: noErr_validateImport)
  then have "filter (\<lambda>e. Type e = DuplicateTypeError)
               (Errors (fold (\<lambda>imp. validateImport imp fname) (Imports program) res)) =
             filter (\<lambda>e. Type e = DuplicateTypeError) (Errors res)"
    by (rule noErr_Errors)
  then show ?thesis
    by (simp add: validateProgram_def validateDeclarations_add)
qed


lemma declarations_second_occurrence:
  assumes same: "DeclName d1 = DeclName d2"
    and first: "DeclName d2 \<notin> DeclName ` set pre"
  shows "filter (\<lambda>e. Type e = DuplicateTypeError)
           (newErrors (validateDeclarations reg (pre @ d1 # mid @ d2 # post) fname Map.empty)) =
         filter (\<lambda>e. Type e = DuplicateTypeError)
           (newErrors (validateDeclarations reg (pre @ d1 # mid) fname Map.empty))
         @ duplicateTypeError fname d2 d1
         # filter (\<lambda>e. Type e = DuplicateTypeError)
             (newErrors (validateDeclarations reg post fname
                (seen DeclName (pre @ d1 # mid) Map.empty)))"
    and "filter (\<lambda>e. Type e = DuplicateTypeError)
           (newErrors (validateDeclarations reg (pre @ d1 # mid @ post) fname Map.empty)) =
         filter (\<lambda>e. Type e = DuplicateTypeError)
           (newErrors (validateDeclarations reg (pre @ d1 # mid) fname Map.empty))
         @ filter (\<lambda>e. Type e = DuplicateTypeError)
             (newErrors (validateDeclarations reg post fname
                (seen DeclName (pre @ d1 # mid) Map.empty)))"
proof -
  let ?N = "seen DeclName (pre @ d1 # mid) Map.empty"
  have N: "?N (DeclName d2) = Some d1"
    by (rule seen_first) (simp_all add: first same)
  have R: "remember (DeclName d2) d2 ?N = ?N"
    by (rule remember_seen) (rule N)
  have "newErrors (validateDeclarations reg ((pre @ d1 # mid) @ d2 # post) fname Map.empty) =
          newErrors (validateDeclarations reg (pre @ d1 # mid) fname Map.empty)
          @ declErrors reg d2 fname ?N
          @ newErrors (validateDeclarations reg post fname ?N)"
    by (simp only: newErrors_validateDeclarations_append newErrors_validateDeclarations_Cons R)
  then show "filter (\<lambda>e. Type e = DuplicateTypeError)
           (newErrors (validateDeclarations reg (pre @ d1 # mid @ d2 # post) fname Map.empty)) =
         filter (\<lambda>e. Type e = DuplicateTypeError)
           (newErrors (validateDeclarations reg (pre @ d1 # mid) fname Map.empty))
         @ duplicateTypeError fname d2 d1
         # filter (\<lambda>e. Type e = DuplicateTypeError)
             (newErrors (validateDeclarations reg post fname ?N))"
    by (simp add: declErrors_duplicates N)
  have "newErrors (validateDeclarations reg ((pre @ d1 # mid) @ post) fname Map.empty) =
          newErrors (validateDeclarations reg (pre @ d1 # mid) fname Map.empty)
          @ newErrors (validateDeclarations reg post fname ?N)"
    by (simp only: newErrors_validateDeclarations_append)
  then show "filter (\<lambda>e. Type e = DuplicateTypeError)
           (newErrors (validateDeclarations reg (pre @ d1 # mid @ post) fname Map.empty)) =
         filter (\<lambda>e. Type e = DuplicateTypeError)
           (newErrors (validateDeclarations reg (pre @ d1 # mid) fname Map.empty))
         @ filter (\<lambda>e. Type e = DuplicateTypeError)
             (newErrors (validateDeclarations reg post fname ?N))"
    by simp
qed

lemma program_second_occurrence:
  assumes same: "DeclName d1 = DeclName d2"
    and first: "DeclName d2 \<notin> DeclName ` set pre"
  shows "filter (\<lambda>e. Type e = DuplicateTypeError)
           (Errors (validateProgram reg
              \<lparr>Imports = imps, Declarations = pre @ d1 # mid @ d2 # post\<rparr> fname res)) =
         filter (\<lambda>e. Type e = DuplicateTypeError)
           (Errors (validateProgram reg
              \<lparr>Imports = imps, Declarations = pre @ d1 # mid\<rparr> fname res))
         @ duplicateTypeError fname d2 d1
         # drop (length (filter (\<lambda>e. Type e = DuplicateTypeError)
                   (Errors (validateProgram reg
                      \<lparr>Imports = imps, Declarations = pre @ d1 # mid\<rparr> fname res))))
             (filter (\<lambda>e. Type e = DuplicateTypeError)
                (Errors (validateProgram reg
                   \<lparr>Imports = imps, Declarations = pre @ d1 # mid @ post\<rparr> fname res)))"
    and "take (length (filter (\<lambda>e. Type e = DuplicateTypeError)
                   (Errors (validateProgram reg
                      \<lparr>Imports = imps, Declarations = pre @ d1 # mid\<rparr> fname res))))
             (filter (\<lambda>e. Type e = DuplicateTypeError)
                (Errors (validateProgram reg
                   \<lparr>Imports = imps, Declarations = pre @ d1 # mid @ post\<rparr> fname res))) =
         filter (\<lambda>e. Type e = DuplicateTypeError)
           (Errors (validateProgram reg
              \<lparr>Imports = imps, Declarations = pre @ d1 # mid\<rparr> fname res))"
proof -
  let ?d = "\<lambda>es. filter (\<lambda>e. Type e = DuplicateTypeError) es"
  let ?P = "?d (newErrors (validateDeclarations reg post fname
                (seen DeclName (pre @ d1 # mid) Map.empty)))"
  let ?A = "?d (Errors (validateProgram reg
              \<lparr>Imports = imps, Declarations = pre @ d1 # mid\<rparr> fname res))"
  have A: "?A = ?d (Errors res)
                @ ?d (newErrors (validateDeclarations reg (pre @ d1 # mid) fname Map.empty))"
    by (simp add: validateProgram_duplicates)
  have "?d (Errors (validateProgram reg
              \<lparr>Imports = imps, Declarations = pre @ d1 # mid @ d2 # post\<rparr> fname res)) =
          ?d (Errors res)
          @ ?d (newErrors (validateDeclarations reg (pre @ d1 # mid @ d2 # post) fname Map.empty))"
    by (simp add: validateProgram_duplicates)
  also have "\<dots> = ?d (Errors res)
          @ (?d (newErrors (validateDeclarations reg (pre @ d1 # mid) fname Map.empty))
             @ duplicateTypeError fname d2 d1 # ?P)"
    by (simp only: declarations_second_occurrence(1)[OF same first])
  finally have C: "?d (Errors (validateProgram reg
              \<lparr>Imports = imps, Declarations = pre @ d1 # mid @ d2 # post\<rparr> fname res))
      = ?A @ duplicateTypeError fname d2 d1 # ?P"
    by (simp only: A append_assoc)
  have "?d (Errors (validateProgram reg
              \<lparr>Imports = imps, Declarations = pre @ d1 # mid @ post\<rparr> fname res)) =
          ?d (Errors res)
          @ ?d (newErrors (validateDeclarations reg (pre @ d1 # mid @ post) fname Map.empty))"
    by (simp add: validateProgram_duplicates)
  also have "\<dots> = ?d (Errors res)
          @ (?d (newErrors (validateDeclarations reg (pre @ d1 # mid) fname Map.empty)) @ ?P)"
    by (simp only: declarations_second_occurrence(2)[OF same first])
  finally have B: "?d (Errors (validateProgram reg
              \<lparr>Imports = imps, Declarations = pre @ d1 # mid @ post\<rparr> fname res))
      = ?A @ ?P"
    by (simp only: A append_assoc)
  show "?d (Errors (validateProgram reg
              \<lparr>Imports = imps, Declarations = pre @ d1 # mid @ d2 # post\<rparr> fname res)) =
         ?A @ duplicateTypeError fname d2 d1
         # drop (length ?A)
             (?d (Errors (validateProgram reg
                \<lparr>Imports = imps, Declarations = pre @ d1 # mid @ post\<rparr> fname res)))"
    unfolding C B by simp
  show "take (length ?A)
          (?d (Errors (validateProgram reg
             \<lparr>Imports = imps, Declarations = pre @ d1 # mid @ post\<rparr> fname res))) = ?A"
    unfolding B by simp
qed

text \<open>Every program of the module tree.\<close>

fun allPrograms :: "Module \<Rightarrow> ProgramNode list"
  and allSubPrograms :: "(string \<times> Module) list \<Rightarrow> ProgramNode list" where
  "allPrograms (Module path name fs subs) = map snd fs @ allSubPrograms subs"
| "allSubPrograms [] = []"
| "allSubPrograms ((subModuleName, subModule) # rest) =
     allPrograms subModule @ allSubPrograms rest"

lemma distinct_no_duplicates:
  "distinct (map DeclName ds) \<Longrightarrow> (\<And>d. d \<in> set ds \<Longrightarrow> names (DeclName d) = None) \<Longrightarrow>
     filter (\<lambda>e. Type e = DuplicateTypeError)
       (newErrors (validateDeclarations reg ds fname names)) = []"
proof (induction ds arbitrary: names)
  case Nil
  show ?case by simp
next
  case (Cons d ds)
  have n: "names (DeclName d) = None" by (rule Cons.prems(2)) simp
  have "filter (\<lambda>e. Type e = DuplicateTypeError)
          (newErrors (validateDeclarations reg ds fname (remember (DeclName d) d names))) = []"
  proof (rule Cons.IH)
    show "distinct (map DeclName ds)" using Cons.prems(1) by simp
    fix d' assume d': "d' \<in> set ds"
    with Cons.prems(1) have "DeclName d \<noteq> DeclName d'" by auto
    then have "remember (DeclName d) d names (DeclName d') = names (DeclName d')"
      by (rule remember_other)
    also have "\<dots> = None" by (rule Cons.prems(2)) (simp add: d')
    finally show "remember (DeclName d) d names (DeclName d') = None" .
  qed
  then show ?case
    unfolding newErrors_validateDeclarations_Cons
    by (simp add: declErrors_duplicates n)
qed

lemma noErr_validateProgram_distinct:
  assumes "distinct (map DeclName (Declarations program))"
  shows "noErr DuplicateTypeError (validateProgram reg program fname)"
proof -
  have "filter (\<lambda>e. Type e = DuplicateTypeError)
          (Errors (validateProgram reg program fname NewValidationResult)) = []"
    unfolding validateProgram_duplicates
    by (simp add: distinct_no_duplicates[OF assms])
  then show ?thesis by (simp add: noErr_def newErrors_def)
qed


lemma noErr_validateSubModules_aux:
  assumes "\<And>n m base. (n, m) \<in> set subs \<Longrightarrow> noErr T (validateModule reg m base)"
    and T: "T \<noteq> NamingConventionError"
  shows "noErr T (validateSubModules reg subs base)"
  using assms(1)
proof (induction subs)
  case Nil
  have "validateSubModules reg [] base = (\<lambda>res. res)" by (rule ext) simp
  then show ?case by (simp only: noErr_id)
next
  case (Cons a subs)
  obtain n m where a: "a = (n, m)" by (cases a)
  have e: "validateSubModules reg (a # subs) base =
     (\<lambda>res. validateSubModules reg subs base
        ((\<lambda>res. validateModule reg m (joinPath base n)
           ((\<lambda>res. if \<not> IsValidSnakeCase n then
             AddError NamingConventionError
               (''module name '' @ [CHR 0x27] @ n @ [CHR 0x27]
                  @ '' should follow snake_case convention'')
               base 0 0
               (''use '' @ [CHR 0x27] @ SuggestSnakeCase n @ [CHR 0x27])
               res
           else res) res)) res))"
    by (rule ext) (simp add: a)
  have 1: "noErr T (validateSubModules reg subs base)"
  proof (rule Cons.IH)
    fix n' m' b assume "(n', m') \<in> set subs"
    then show "noErr T (validateModule reg m' b)"
      using Cons.prems[of n' m' b] by simp
  qed
  have 2: "noErr T (validateModule reg m (joinPath base n))"
    by (rule Cons.prems[of n m]) (simp add: a)
  have 3: "noErr T (\<lambda>res. if \<not> IsValidSnakeCase n then
             AddError NamingConventionError
               (''module name '' @ [CHR 0x27] @ n @ [CHR 0x27]
                  @ '' should follow snake_case convention'')
               base 0 0
               (''use '' @ [CHR 0x27] @ SuggestSnakeCase n @ [CHR 0x27])
               res
           else res)"
    by (rule noErr_if) (rule noErr_AddError, use T in simp, rule noErr_id)
  show ?case
    unfolding e by (rule noErr_comp[OF noErr_comp[OF 3 2] 1])
qed

lemma allPrograms_sub:
  "(n, m) \<in> set subs \<Longrightarrow> set (allPrograms m) \<subseteq> set (allSubPrograms subs)"
  by (induction subs) auto

lemma noErr_validateModule_distinct:
  "(\<And>p. p \<in> set (allPrograms m) \<Longrightarrow> distinct (map DeclName (Declarations p))) \<Longrightarrow>
     noErr DuplicateTypeError (validateModule reg m base)"
proof (induction m arbitrary: base)
  case (Module path name fs subs)
  have e: "validateModule reg (Module path name fs subs) base =
     (\<lambda>res. validateSubModules reg subs base
       (fold (\<lambda>entry. validateProgram reg (snd entry) (joinPath base (fst entry))) fs res))"
    by (rule ext) simp
  have 1: "noErr DuplicateTypeError (validateSubModules reg subs base)"
  proof (rule noErr_validateSubModules_aux)
    fix n m b assume nm: "(n, m) \<in> set subs"
    show "noErr DuplicateTypeError (validateModule reg m b)"
    proof (rule Module.IH[of "(n, m)" m b])
      show "(n, m) \<in> set subs" by (rule nm)
      show "m \<in> Basic_BNFs.snds (n, m)" by simp
      fix p assume "p \<in> set (allPrograms m)"
      with allPrograms_sub[OF nm] have "p \<in> set (allPrograms (Module path name fs subs))"
        by auto
      then show "distinct (map DeclName (Declarations p))" by (rule Module.prems)
    qed
  qed simp
  have 2: "noErr DuplicateTypeError
             (fold (\<lambda>entry. validateProgram reg (snd entry) (joinPath base (fst entry))) fs)"
  proof (rule noErr_fold)
    fix entry assume "entry \<in> set fs"
    then have "snd entry \<in> set (allPrograms (Module path name fs subs))" by simp
    then have "distinct (map DeclName (Declarations (snd entry)))" by (rule Module.prems)
    then show "noErr DuplicateTypeError
                 (validateProgram reg (snd entry) (joinPath base (fst entry)))"
      by (rule noErr_validateProgram_distinct)
  qed
  show ?case unfolding e by (rule noErr_comp[OF 2 1])
qed

lemma noErr_case_list:
  "noErr T g \<Longrightarrow> (\<And>x xs. noErr T (h x xs)) \<Longrightarrow>
     noErr T (\<lambda>res. case l of [] \<Rightarrow> g res | x # xs \<Rightarrow> h x xs res)"
  by (cases l) simp_all

lemma noErr_reportCycle: "T \<noteq> CircularDependencyError \<Longrightarrow> noErr T (reportCycle cycle)"
proof -
  assume T: "T \<noteq> CircularDependencyError"
  have e: "reportCycle cycle =
     (\<lambda>res. case Split cycle '' -> '' of
        [] \<Rightarrow> res
      | firstType # others \<Rightarrow>
          (case Split firstType ''::'' of
             [] \<Rightarrow> res
           | file # l2 \<Rightarrow>
              (case l2 of [] \<Rightarrow> res
               | typ # l3 \<Rightarrow>
                  (case l3 of
                     [] \<Rightarrow> AddError CircularDependencyError
                             (''circular dependency detected: '' @ cycle)
                             file 0 0
                             ''restructure types to eliminate circular references''
                             res
                   | x # xs \<Rightarrow> res))))"
    by (rule ext) (simp add: reportCycle_def split: list.splits)
  have "noErr T \<dots>"
    by (rule noErr_case_list, rule noErr_id, rule noErr_case_list, rule noErr_id,
        rule noErr_case_list, rule noErr_id, rule noErr_case_list,
        rule noErr_AddError, use T in simp, rule noErr_id)
  with e show ?thesis by (simp only:)
qed

lemma noErr_validateCircularDependencies:
  "T \<noteq> CircularDependencyError \<Longrightarrow> noErr T (validateCircularDependencies reg keyOrder)"
proof -
  assume T: "T \<noteq> CircularDependencyError"
  have "validateCircularDependencies reg keyOrder =
          fold reportCycle (ValidateCircularDependencies reg keyOrder)"
    by (rule ext) (simp add: validateCircularDependencies_def)
  moreover have "noErr T (fold reportCycle (ValidateCircularDependencies reg keyOrder))"
    by (rule noErr_fold) (rule noErr_reportCycle[OF T])
  ultimately show ?thesis by (simp only:)
qed

lemma Validate_distinct_no_duplicates:
  assumes "\<And>p. p \<in> set (allPrograms module) \<Longrightarrow> distinct (map DeclName (Declarations p))"
  shows "filter (\<lambda>e. Type e = DuplicateTypeError)
           (Errors (snd (Validate v module keyOrder))) = []"
proof -
  have 1: "noErr DuplicateTypeError (validateModule (buildTypeRegistry module) module [])"
    by (rule noErr_validateModule_distinct) (rule assms)
  have 2: "noErr DuplicateTypeError
             (validateCircularDependencies (buildTypeRegistry module) keyOrder)"
    by (rule noErr_validateCircularDependencies) simp
  show ?thesis
    using 1 2 by (simp add: Validate_result noErr_def)
qed

subsection \<open>The keys of the registry\<close>

text \<open>The module with every import statement removed.\<close>

fun dropImports :: "Module \<Rightarrow> Module"
  and dropSubImports :: "(string \<times> Module) list \<Rightarrow> (string \<times> Module) list" where
  "dropImports (Module path name fs subs) =
     Module path name (map (\<lambda>entry. (fst entry, (snd entry)\<lparr>Imports := []\<rparr>)) fs)
       (dropSubImports subs)"
| "dropSubImports [] = []"
| "dropSubImports ((subModuleName, subModule) # rest) =
     (subModuleName, dropImports subModule) # dropSubImports rest"

lemma registerFile_Imports:
  "registerFile basePath (n, p\<lparr>Imports := imps\<rparr>) r = registerFile basePath (n, p) r"
  by (simp add: registerFile_def)

lemma processModuleForRegistry_dropImports:
  "processModuleForRegistry (dropImports m) basePath r = processModuleForRegistry m basePath r"
  "processSubModulesForRegistry (dropSubImports subs) basePath r =
     processSubModulesForRegistry subs basePath r"
proof (induction m and subs arbitrary: basePath r and basePath r
       rule: dropImports_dropSubImports.induct)
  case (1 path name fs subs)
  have "fold (registerFile basePath)
          (map (\<lambda>entry. (fst entry, (snd entry)\<lparr>Imports := []\<rparr>)) fs) r =
        fold (registerFile basePath) fs r"
    by (induction fs arbitrary: r) (simp_all add: registerFile_Imports)
  with 1 show ?case by simp
next
  case 2
  show ?case by simp
next
  case (3 n m rest)
  then show ?case by simp
qed

lemma keys_map_put: "fst ` set (map_put k v kvs) = insert k (fst ` set kvs)"
proof (induction kvs)
  case Nil
  show ?case by simp
next
  case (Cons a kvs)
  then show ?case by (cases a) (simp add: insert_commute)
qed

lemma keys_RegisterType:
  "fst ` set (types (RegisterType name declType file line column r)) =
     insert (qualifyName name file) (fst ` set (types r))"
  by (simp add: RegisterType_def keys_map_put)

lemma keys_AddDependency:
  "fst ` set (types (AddDependency fromType toType file r)) = fst ` set (types r)"
proof (cases "map_of (types r) (qualifyName fromType file)")
  case None
  then show ?thesis by (simp add: AddDependency_def)
next
  case (Some info)
  then have "qualifyName fromType file \<in> fst ` set (types r)"
    by (metis domI dom_map_of_conv_image_fst)
  with Some show ?thesis by (auto simp: AddDependency_def keys_map_put)
qed

lemma keys_addTypeDependencies:
  "fst ` set (types (addTypeDependencies fromType t file r)) = fst ` set (types r)"
  by (induction t arbitrary: r) (simp_all add: keys_AddDependency)

lemma keys_fold_keep:
  "(\<And>x r. fst ` set (types (f x r)) = fst ` set (types r)) \<Longrightarrow>
     fst ` set (types (fold f xs r)) = fst ` set (types r)"
  by (induction xs arbitrary: r) simp_all

lemma keys_registerDeclaration:
  "fst ` set (types (registerDeclaration fullPath d r)) =
     insert (qualifyName (DeclName d) fullPath) (fst ` set (types r))"
proof (cases d)
  case (StructNode pos name flds)
  have "fst ` set (types (fold (\<lambda>field. addTypeDependencies name (FieldType field) fullPath) flds
          (RegisterType name ''struct'' fullPath (PosLine pos) (PosColumn pos) r))) =
        fst ` set (types (RegisterType name ''struct'' fullPath (PosLine pos) (PosColumn pos) r))"
    by (rule keys_fold_keep) (rule keys_addTypeDependencies)
  with StructNode show ?thesis by (simp add: keys_RegisterType)
next
  case (EnumNode pos name vars)
  have "fst ` set (types (fold (\<lambda>variant. case Payload variant of
                        Some t \<Rightarrow> addTypeDependencies name t fullPath
                      | None \<Rightarrow> id) vars
          (RegisterType name ''enum'' fullPath (PosLine pos) (PosColumn pos) r))) =
        fst ` set (types (RegisterType name ''enum'' fullPath (PosLine pos) (PosColumn pos) r))"
    by (rule keys_fold_keep) (simp add: keys_addTypeDependencies split: option.split)
  with EnumNode show ?thesis by (simp add: keys_RegisterType)
next
  case (TypeAliasNode pos name t)
  then show ?thesis by (simp add: keys_RegisterType keys_addTypeDependencies)
next
  case (ConstantNode pos name v)
  then show ?thesis by (simp add: keys_RegisterType)
qed

lemma keys_registerFile:
  "fst ` set (types (registerFile basePath entry r)) =
     fst ` set (types r)
     \<union> (\<lambda>d. qualifyName (DeclName d) (joinPath basePath (fst entry)))
         ` set (Declarations (snd entry))"
proof -
  have "fst ` set (types (fold (registerDeclaration fullPath) ds r')) =
          fst ` set (types r') \<union> (\<lambda>d. qualifyName (DeclName d) fullPath) ` set ds"
    for fullPath ds r'
    by (induction ds arbitrary: r') (auto simp: keys_registerDeclaration)
  then show ?thesis by (simp add: registerFile_def Let_def)
qed

text \<open>The registry never loses a key, and it holds a key for every declaration of every
  file of the tree.\<close>

lemma keys_fold_registerFile:
  "fst ` set (types (fold (registerFile basePath) fs r)) =
     fst ` set (types r)
     \<union> (\<Union>entry \<in> set fs. (\<lambda>d. qualifyName (DeclName d) (joinPath basePath (fst entry)))
                               ` set (Declarations (snd entry)))"
  by (induction fs arbitrary: r) (auto simp: keys_registerFile)

lemma keys_processModuleForRegistry:
  "fst ` set (types r) \<subseteq> fst ` set (types (processModuleForRegistry m basePath r))
   \<and> (\<forall>p \<in> set (allPrograms m). \<forall>d \<in> set (Declarations p).
         \<exists>fl. qualifyName (DeclName d) fl
                 \<in> fst ` set (types (processModuleForRegistry m basePath r)))"
  "fst ` set (types r) \<subseteq> fst ` set (types (processSubModulesForRegistry subs basePath r))
   \<and> (\<forall>p \<in> set (allSubPrograms subs). \<forall>d \<in> set (Declarations p).
         \<exists>fl. qualifyName (DeclName d) fl
                 \<in> fst ` set (types (processSubModulesForRegistry subs basePath r)))"
proof (induction m basePath r and subs basePath r
       rule: processModuleForRegistry_processSubModulesForRegistry.induct)
  case (1 path name fs subs basePath r)
  let ?r1 = "fold (registerFile basePath) fs r"
  let ?r2 = "processSubModulesForRegistry subs basePath ?r1"
  have a: "fst ` set (types r) \<subseteq> fst ` set (types ?r1)"
    by (auto simp: keys_fold_registerFile)
  have b: "fst ` set (types ?r1) \<subseteq> fst ` set (types ?r2)" using 1 by simp
  have c: "\<exists>fl. qualifyName (DeclName d) fl \<in> fst ` set (types ?r2)"
    if "p \<in> set (map snd fs)" "d \<in> set (Declarations p)" for p d
  proof -
    from that(1) obtain entry where e: "entry \<in> set fs" "p = snd entry" by auto
    with that(2) have "qualifyName (DeclName d) (joinPath basePath (fst entry))
                         \<in> fst ` set (types ?r1)"
      unfolding keys_fold_registerFile by blast
    with b show ?thesis by blast
  qed
  have d: "\<exists>fl. qualifyName (DeclName d) fl \<in> fst ` set (types ?r2)"
    if "p \<in> set (allSubPrograms subs)" "d \<in> set (Declarations p)" for p d
    using 1 that by blast
  show ?case using a b c d by (simp add: Ball_def; blast)
next
  case (2 basePath r)
  show ?case by simp
next
  case (3 n m rest basePath r)
  let ?r1 = "processModuleForRegistry m (joinPath basePath n) r"
  let ?r2 = "processSubModulesForRegistry rest basePath ?r1"
  have a: "fst ` set (types r) \<subseteq> fst ` set (types ?r1)" using 3 by simp
  have b: "fst ` set (types ?r1) \<subseteq> fst ` set (types ?r2)" using 3 by simp
  have c: "\<exists>fl. qualifyName (DeclName d) fl \<in> fst ` set (types ?r2)"
    if "p \<in> set (allPrograms m)" "d \<in> set (Declarations p)" for p d
  proof -
    from 3(1) that obtain fl where "qualifyName (DeclName d) fl \<in> fst ` set (types ?r1)"
      by blast
    with b show ?thesis by blast
  qed
  have d: "\<exists>fl. qualifyName (DeclName d) fl \<in> fst ` set (types ?r2)"
    if "p \<in> set (allSubPrograms rest)" "d \<in> set (Declarations p)" for p d
    using 3(2) that by blast
  show ?case using a b c d by (simp add: Ball_def; blast)
qed

lemma TypeExists_keys:
  "TypeExists r name curFile \<longleftrightarrow>
     IsValidPrimitiveType name
     \<or> curFile @ ''::'' @ name \<in> fst ` set (types r)
     \<or> (\<exists>qualName \<in> fst ` set (types r). suffix (''::'' @ name) qualName)"
  unfolding TypeExists_def qualifyName_def list_ex_HasSuffix
  by (simp add: map_of_eq_None_iff)

lemma declared_resolves:
  assumes "p \<in> set (allPrograms module)" and "d \<in> set (Declarations p)"
  shows "TypeExists (buildTypeRegistry module) (DeclName d) curFile"
proof -
  from keys_processModuleForRegistry(1)[of NewTypeRegistry module "[]"] assms
  obtain fl where "qualifyName (DeclName d) fl \<in> fst ` set (types (buildTypeRegistry module))"
    unfolding buildTypeRegistry_def by blast
  moreover have "suffix (''::'' @ DeclName d) (qualifyName (DeclName d) fl)"
    unfolding qualifyName_def by (rule suffixI) simp
  ultimately have "list_ex (\<lambda>(qualName, info). HasSuffix qualName (''::'' @ DeclName d))
                     (types (buildTypeRegistry module))"
    unfolding list_ex_HasSuffix by blast
  then show ?thesis by (simp add: TypeExists_def)
qed

subsection \<open>The registry as a map\<close>

text \<open>\<open>Validate\<close> reads the registry by key and through \<open>TypeExists\<close> only: two registries
  that hold the same entries, in whatever order, give the same result.\<close>

lemma detectCycle_cong:
  assumes "map_of (types r) = map_of (types r')"
  shows "detectCycle r t v s p = detectCycle r' t v s p"
    and "detectDeps r f ds v s p = detectDeps r' f ds v s p"
  using assms
proof (induction r t v s p and r f ds v s p rule: detectCycle_detectDeps.induct)
  case (1 r typeName visited recStack path)
  show ?case
  proof (cases "map_of (types r) typeName")
    case None
    with "1.prems" have "map_of (types r') typeName = None" by simp
    with None show ?thesis by simp
  next
    case (Some info)
    with "1.prems" have s': "map_of (types r') typeName = Some info" by simp
    have e: "detectDeps r (InfoFile info) (Dependencies info)
               (visited(typeName := True)) (recStack(typeName := True)) (path @ [typeName]) =
             detectDeps r' (InfoFile info) (Dependencies info)
               (visited(typeName := True)) (recStack(typeName := True)) (path @ [typeName])"
      by (rule "1.IH"[OF Some "1.prems"])
    show ?thesis
      by (simp only: detectCycle.simps[of r] detectCycle.simps[of r'] Some s' option.case e)
  qed
next
  case (2 r fl visited recStack path)
  show ?case by simp
next
  case (3 r fl dep deps visited recStack path)
  let ?q = "qualifyName dep fl"
  show ?case
  proof (cases "visited ?q")
    case False
    obtain c v2 s2 where d: "detectCycle r ?q visited recStack path = (c, v2, s2)"
      by (metis prod_cases3)
    have "detectCycle r ?q visited recStack path = detectCycle r' ?q visited recStack path"
      by (rule "3.IH"(1)[OF False "3.prems"])
    with d have d': "detectCycle r' ?q visited recStack path = (c, v2, s2)" by simp
    show ?thesis
    proof (cases c)
      case None
      have e: "detectDeps r fl deps v2 s2 path = detectDeps r' fl deps v2 s2 path"
        by (rule "3.IH"(2)[OF False d[symmetric] None refl "3.prems"])
      show ?thesis
        by (simp only: detectDeps.simps(2)[of r] detectDeps.simps(2)[of r'] False d d' None
              prod.case option.case if_True not_False_eq_True e)
    next
      case (Some cyc)
      show ?thesis
        by (simp only: detectDeps.simps(2)[of r] detectDeps.simps(2)[of r'] False d d' Some
              prod.case option.case if_True not_False_eq_True)
    qed
  next
    case vis: True
    show ?thesis
    proof (cases "recStack ?q")
      case True
      show ?thesis
      proof (cases "dropWhile (\<lambda>p. p \<noteq> ?q) path")
        case Nil
        have e: "detectDeps r fl deps visited recStack path =
                 detectDeps r' fl deps visited recStack path"
          using vis by (intro "3.IH"(3)[OF _ True Nil "3.prems"]) simp
        show ?thesis
          by (simp only: detectDeps.simps(2)[of r] detectDeps.simps(2)[of r'] vis True Nil
                list.case if_True if_False not_True_eq_False e)
      next
        case (Cons a as)
        show ?thesis
          by (simp only: detectDeps.simps(2)[of r] detectDeps.simps(2)[of r'] vis True Cons
                list.case if_True if_False not_True_eq_False)
      qed
    next
      case False
      have e: "detectDeps r fl deps visited recStack path =
               detectDeps r' fl deps visited recStack path"
        using vis by (intro "3.IH"(4)[OF _ False "3.prems"]) simp
      show ?thesis
        by (simp only: detectDeps.simps(2)[of r] detectDeps.simps(2)[of r'] vis False
              if_True if_False not_True_eq_False e)
    qed
  qed
qed


lemma cyclesFrom_cong:
  assumes "map_of (types r) = map_of (types r')"
  shows "cyclesFrom r ks v s cs = cyclesFrom r' ks v s cs"
proof (induction ks arbitrary: v s cs)
  case Nil
  show ?case by simp
next
  case (Cons k ks)
  have "detectCycle r k v s [] = detectCycle r' k v s []"
    by (rule detectCycle_cong(1)[OF assms])
  then show ?case by (simp add: Cons.IH split: prod.split option.split)
qed

lemma validateCircularDependencies_cong:
  assumes "map_of (types r) = map_of (types r')"
  shows "validateCircularDependencies r keyOrder = validateCircularDependencies r' keyOrder"
  by (rule ext)
     (simp only: validateCircularDependencies_def ValidateCircularDependencies_def
        cyclesFrom_cong[OF assms])

lemma TypeExists_cong:
  assumes "map_of (types r) = map_of (types r')"
  shows "TypeExists r = TypeExists r'"
proof -
  have "fst ` set (types r) = dom (map_of (types r))"
    by (simp add: dom_map_of_conv_image_fst)
  also have "\<dots> = dom (map_of (types r'))" by (simp only: assms)
  also have "\<dots> = fst ` set (types r')" by (simp add: dom_map_of_conv_image_fst)
  finally show ?thesis
    by (intro ext) (simp only: TypeExists_keys)
qed

lemma validateType_cong:
  assumes "TypeExists r = TypeExists r'"
  shows "validateType r = validateType r'"
proof -
  have "validateType r t f l c res = validateType r' t f l c res" for t f l c res
    by (induction t arbitrary: res) (simp_all add: validateNamedType_def assms)
  then show ?thesis by (intro ext)
qed

lemma validateFields_cong:
  assumes "TypeExists r = TypeExists r'"
  shows "validateFields r = validateFields r'"
proof -
  have 1: "validateField r = validateField r'"
    by (intro ext) (unfold validateField_def validateType_cong[OF assms], rule refl)
  have "validateFields r flds f names res = validateFields r' flds f names res"
    for flds f names res
    by (induction flds arbitrary: names res) (simp_all add: 1 split: prod.split)
  then show ?thesis by (intro ext)
qed

lemma validateVariants_cong:
  assumes "TypeExists r = TypeExists r'"
  shows "validateVariants r = validateVariants r'"
proof -
  have 1: "validateEnumVariant r = validateEnumVariant r'"
    by (intro ext) (unfold validateEnumVariant_def validateType_cong[OF assms], rule refl)
  have "validateVariants r vars f names res = validateVariants r' vars f names res"
    for vars f names res
    by (induction vars arbitrary: names res) (simp_all add: 1 split: prod.split)
  then show ?thesis by (intro ext)
qed

lemma validateBody_cong:
  assumes "TypeExists r = TypeExists r'"
  shows "validateBody r = validateBody r'"
proof (intro ext)
  fix d f res
  show "validateBody r d f res = validateBody r' d f res"
  proof (cases d)
    case (StructNode p n fs)
    show ?thesis
      unfolding StructNode validateBody.simps validateStruct_def validateFields_cong[OF assms]
      by (rule refl)
  next
    case (EnumNode p n vs)
    show ?thesis
      unfolding EnumNode validateBody.simps validateEnum_def validateVariants_cong[OF assms]
      by (rule refl)
  next
    case (TypeAliasNode p n t)
    show ?thesis
      unfolding TypeAliasNode validateBody.simps validateTypeAlias_def
        validateType_cong[OF assms]
      by (rule refl)
  next
    case (ConstantNode p n v)
    show ?thesis unfolding ConstantNode validateBody.simps by (rule refl)
  qed
qed

lemma validateProgram_cong:
  assumes "TypeExists r = TypeExists r'"
  shows "validateProgram r = validateProgram r'"
proof -
  have 1: "validateDeclaration r = validateDeclaration r'"
    by (intro ext) (unfold validateDeclaration_def validateBody_cong[OF assms], rule refl)
  have 2: "validateDeclarations r ds f names res = validateDeclarations r' ds f names res"
    for ds f names res
    by (induction ds arbitrary: names res) (simp_all add: 1 split: prod.split)
  show ?thesis
    by (intro ext) (simp add: validateProgram_def 2)
qed

lemma validateModule_cong:
  assumes "TypeExists r = TypeExists r'"
  shows "validateModule r m base res = validateModule r' m base res"
    and "validateSubModules r subs base res = validateSubModules r' subs base res"
  using assms
proof (induction r m base res and r subs base res rule: validateModule_validateSubModules.induct)
  case (1 reg path name fs subs basePath res)
  have e: "validateProgram reg = validateProgram r'"
    using "1.prems" by (rule validateProgram_cong)
  from "1.IH"[OF "1.prems"] show ?case
    by (simp only: validateModule.simps e)
next
  case (2 reg basePath res)
  show ?case by (simp only: validateSubModules.simps)
next
  case (3 reg subModuleName subModule rest basePath res)
  from "3.IH"(1)[OF "3.prems"] "3.IH"(2)[OF "3.prems"] show ?case
    by (simp only: validateSubModules.simps)
qed

lemma Validate_registry_as_map:
  assumes "map_of (types r') = map_of (types (buildTypeRegistry module))"
  shows "validateCircularDependencies r' keyOrder
           (validateModule r' module [] NewValidationResult) =
         snd (Validate v module keyOrder)"
proof -
  let ?reg = "buildTypeRegistry module"
  have 1: "TypeExists r' = TypeExists ?reg"
    by (rule TypeExists_cong[OF assms])
  have 2: "validateModule r' module [] NewValidationResult =
           validateModule ?reg module [] NewValidationResult"
    by (rule validateModule_cong(1)[OF 1])
  have 3: "validateCircularDependencies r' keyOrder = validateCircularDependencies ?reg keyOrder"
    by (rule validateCircularDependencies_cong[OF assms])
  have 4: "snd (Validate v module keyOrder) =
           validateCircularDependencies ?reg keyOrder
             (validateModule ?reg module [] NewValidationResult)"
    by (simp add: Validate_def Let_def)
  show ?thesis unfolding 4 2 3 by (rule refl)
qed

subsection \<open>The files of the module tree\<close>

text \<open>Every file of the module tree with the path \<open>validateModule\<close> hands to
  \<open>validateProgram\<close>, in the order in which \<open>validateModule\<close> visits the files.\<close>

fun allFiles :: "Module \<Rightarrow> string \<Rightarrow> (string \<times> ProgramNode) list"
  and allSubFiles :: "(string \<times> Module) list \<Rightarrow> string \<Rightarrow> (string \<times> ProgramNode) list" where
  "allFiles (Module path name fs subs) basePath =
     map (\<lambda>entry. (joinPath basePath (fst entry), snd entry)) fs @ allSubFiles subs basePath"
| "allSubFiles [] basePath = []"
| "allSubFiles ((subModuleName, subModule) # rest) basePath =
     allFiles subModule (joinPath basePath subModuleName) @ allSubFiles rest basePath"

lemma newErrors_fold:
  "(\<And>x. x \<in> set xs \<Longrightarrow> appends (f x)) \<Longrightarrow>
     newErrors (fold f xs) = concat (map (\<lambda>x. newErrors (f x)) xs)"
proof (induction xs)
  case Nil
  have "fold f [] = (\<lambda>res. res)" by (rule ext) simp
  then show ?case by (simp only: newErrors_id list.map concat.simps)
next
  case (Cons x xs)
  have e: "fold f (x # xs) = (\<lambda>res. fold f xs (f x res))" by (rule ext) simp
  have 1: "appends (f x)" by (rule Cons.prems) simp
  have 2: "appends (fold f xs)" by (rule appends_fold) (simp add: Cons.prems)
  have "newErrors (\<lambda>res. fold f xs (f x res)) = newErrors (f x) @ newErrors (fold f xs)"
    by (rule newErrors_comp[OF 1 2])
  also have "newErrors (fold f xs) = concat (map (\<lambda>x. newErrors (f x)) xs)"
    by (rule Cons.IH) (simp add: Cons.prems)
  finally show ?case by (simp only: e list.map concat.simps)
qed

lemma duplicates_validateModule:
  "filter (\<lambda>e. Type e = DuplicateTypeError) (newErrors (validateModule reg m base)) =
     concat (map (\<lambda>entry. filter (\<lambda>e. Type e = DuplicateTypeError)
                             (newErrors (validateProgram reg (snd entry) (fst entry))))
               (allFiles m base))"
  "filter (\<lambda>e. Type e = DuplicateTypeError) (newErrors (validateSubModules reg subs base)) =
     concat (map (\<lambda>entry. filter (\<lambda>e. Type e = DuplicateTypeError)
                             (newErrors (validateProgram reg (snd entry) (fst entry))))
               (allSubFiles subs base))"
proof (induction m base and subs base rule: allFiles_allSubFiles.induct)
  case (1 path name fs subs basePath)
  let ?F = "\<lambda>entry. validateProgram reg (snd entry) (joinPath basePath (fst entry))"
  have e: "validateModule reg (Module path name fs subs) basePath =
     (\<lambda>res. validateSubModules reg subs basePath (fold ?F fs res))"
    by (rule ext) simp
  have a: "appends (fold ?F fs)" by (rule appends_fold) simp
  have "newErrors (\<lambda>res. validateSubModules reg subs basePath (fold ?F fs res)) =
          newErrors (fold ?F fs) @ newErrors (validateSubModules reg subs basePath)"
    by (rule newErrors_comp[OF a]) simp
  moreover have "newErrors (fold ?F fs) = concat (map (\<lambda>x. newErrors (?F x)) fs)"
    by (rule newErrors_fold) simp
  ultimately have N: "newErrors (validateModule reg (Module path name fs subs) basePath) =
      concat (map (\<lambda>x. newErrors (?F x)) fs) @ newErrors (validateSubModules reg subs basePath)"
    by (simp only: e)
  show ?case
    unfolding N allFiles.simps
    by (simp add: 1 filter_concat comp_def)
next
  case (2 basePath)
  have "validateSubModules reg [] basePath = (\<lambda>res. res)" by (rule ext) simp
  then show ?case by (simp only: newErrors_id allSubFiles.simps list.map concat.simps filter.simps)
next
  case (3 n m rest basePath)
  let ?N = "\<lambda>res. if \<not> IsValidSnakeCase n then
             AddError NamingConventionError
               (''module name '' @ [CHR 0x27] @ n @ [CHR 0x27]
                  @ '' should follow snake_case convention'')
               basePath 0 0
               (''use '' @ [CHR 0x27] @ SuggestSnakeCase n @ [CHR 0x27])
               res
           else res"
  have e: "validateSubModules reg ((n, m) # rest) basePath =
     (\<lambda>res. validateSubModules reg rest basePath
        ((\<lambda>res. validateModule reg m (joinPath basePath n) (?N res)) res))"
    by (rule ext) simp
  have aN: "appends ?N"
    by (rule appends_if) (rule appends_AddError, rule appends_id)
  have aM: "appends (validateModule reg m (joinPath basePath n))" by simp
  have aS: "appends (validateSubModules reg rest basePath)" by simp
  have nN: "filter (\<lambda>e. Type e = DuplicateTypeError) (newErrors ?N) = []"
    by (cases "IsValidSnakeCase n") simp_all
  have N: "newErrors (validateSubModules reg ((n, m) # rest) basePath) =
          (newErrors ?N @ newErrors (validateModule reg m (joinPath basePath n)))
          @ newErrors (validateSubModules reg rest basePath)"
    unfolding e
    by (simp only: newErrors_comp[OF appends_comp[OF aN aM] aS] newErrors_comp[OF aN aM])
  show ?case
    unfolding N allSubFiles.simps
    by (simp add: nN 3)
qed


lemma Validate_duplicates:
  "filter (\<lambda>e. Type e = DuplicateTypeError) (Errors (snd (Validate v module keyOrder))) =
     concat (map (\<lambda>(filename, program).
                    filter (\<lambda>e. Type e = DuplicateTypeError)
                      (Errors (validateProgram (buildTypeRegistry module) program filename
                         NewValidationResult)))
               (allFiles module []))"
proof -
  have "noErr DuplicateTypeError
          (validateCircularDependencies (buildTypeRegistry module) keyOrder)"
    by (rule noErr_validateCircularDependencies) simp
  then have "filter (\<lambda>e. Type e = DuplicateTypeError)
               (newErrors (validateCircularDependencies (buildTypeRegistry module) keyOrder)) = []"
    by (simp add: noErr_def)
  then have A: "filter (\<lambda>e. Type e = DuplicateTypeError)
               (Errors (snd (Validate v module keyOrder))) =
             filter (\<lambda>e. Type e = DuplicateTypeError)
               (newErrors (validateModule (buildTypeRegistry module) module []))"
    by (simp add: Validate_result)
  have C: "(\<lambda>entry. filter (\<lambda>e. Type e = DuplicateTypeError)
                     (newErrors (validateProgram (buildTypeRegistry module) (snd entry)
                        (fst entry)))) =
           (\<lambda>(filename, program).
                    filter (\<lambda>e. Type e = DuplicateTypeError)
                      (Errors (validateProgram (buildTypeRegistry module) program filename
                         NewValidationResult)))"
    by (simp add: fun_eq_iff newErrors_def)
  show ?thesis
    unfolding A duplicates_validateModule(1) C by (rule refl)
qed

text \<open>The duplicate errors of a file do not depend on the registry.\<close>

lemma duplicates_registry:
  "filter (\<lambda>e. Type e = DuplicateTypeError) (Errors (validateProgram reg program fname res)) =
   filter (\<lambda>e. Type e = DuplicateTypeError) (Errors (validateProgram reg' program fname res))"
proof -
  have "filter (\<lambda>e. Type e = DuplicateTypeError)
          (newErrors (validateDeclarations reg ds fname names)) =
        filter (\<lambda>e. Type e = DuplicateTypeError)
          (newErrors (validateDeclarations reg' ds fname names))" for ds names
  proof (induction ds arbitrary: names)
    case Nil
    show ?case by simp
  next
    case (Cons d ds)
    show ?case
      unfolding newErrors_validateDeclarations_Cons
      by (simp add: declErrors_duplicates Cons.IH)
  qed
  then show ?thesis by (simp only: validateProgram_duplicates)
qed

lemma in_concat_map: "x \<in> set xs \<Longrightarrow> e \<in> set (f x) \<Longrightarrow> e \<in> set (concat (map f xs))"
  by auto

text \<open>The invariant of a validation result: it is valid exactly when it holds no error.\<close>

definition result_invariant :: "ValidationResult \<Rightarrow> bool" where
  "result_invariant r = (Valid r = (length (Errors r) = 0))"

section \<open>Properties\<close>

text \<open>
  Claim C5. For every type \<open>T\<close>, validating \<open>??T\<close> (an optional whose element is an
  optional) produces an \<open>InvalidOptionalError\<close>, whatever \<open>T\<close> is: the error is appended
  first, at the position handed in, and the errors of \<open>?T\<close> follow it; the result is not
  valid.
\<close>

theorem double_optional_rejected:
  "Errors (validateType reg (OptionalType (OptionalType t)) filename line column res) =
     Errors res @
       \<lparr>Type = InvalidOptionalError,
        Message = ''double-wrapped optional types are not allowed'',
        File = filename, Line = line, Column = column,
        Suggestion = ''use single optional marker ?Type''\<rparr>
       # Errors (validateType reg (OptionalType t) filename line column NewValidationResult)
   \<and> \<not> Valid (validateType reg (OptionalType (OptionalType t)) filename line column res)"
proof -
  have "newErrors (checkDoubleOptional (OptionalType t) filename line column) =
          [\<lparr>Type = InvalidOptionalError,
            Message = ''double-wrapped optional types are not allowed'',
            File = filename, Line = line, Column = column,
            Suggestion = ''use single optional marker ?Type''\<rparr>]"
    by (simp add: checkDoubleOptional_def newErrors_def AddError_def NewValidationResult_def)
  then have n: "newErrors (validateType reg (OptionalType (OptionalType t)) filename line column) =
          \<lparr>Type = InvalidOptionalError,
            Message = ''double-wrapped optional types are not allowed'',
            File = filename, Line = line, Column = column,
            Suggestion = ''use single optional marker ?Type''\<rparr>
          # newErrors (validateType reg (OptionalType t) filename line column)"
    by (simp add: newErrors_validateType_Optional[of reg "OptionalType t"])
  have "validateType reg (OptionalType (OptionalType t)) filename line column res =
          addErrors (newErrors (validateType reg (OptionalType (OptionalType t)) filename line column)) res"
    by (rule appendsD) (rule appends_validateType)
  with n show ?thesis by (simp add: newErrors_def)
qed

text \<open>
  Claim C2 does not hold of the code. The language has the six date/time primitives
  \<open>time\<close>, \<open>date\<close>, \<open>datetime\<close>, \<open>timetz\<close>, \<open>datetz\<close> and \<open>datetimetz\<close>: the lexer and
  the grammar read each of them as a primitive type. The table of the validator lists
  sixteen names and lacks the three names with a time zone (and \<open>int\<close>, \<open>bigint\<close>, \<open>nat\<close>,
  \<open>bignat\<close> and \<open>decimal\<close>). A file with one struct that has a field of type \<open>timetz\<close>:
\<close>

definition timetzModule :: Module where
  "timetzModule =
     Module ''test'' ''test''
       [(''event.tg'',
         \<lparr>Imports = [],
          Declarations =
            [StructNode \<lparr>Filename = ''event.tg'', PosLine = 1, PosColumn = 1\<rparr> ''Event''
               [\<lparr>FieldPos = \<lparr>Filename = ''event.tg'', PosLine = 2, PosColumn = 5\<rparr>,
                 FieldName = ''at'', FieldType = PrimitiveType ''timetz'',
                 FieldOptional = False\<rparr>]]\<rparr>)]
       []"

text \<open>
  Claim C2, at this input. The validator accepts the name of a primitive type if and only
  if it is one of the sixteen names of its table, and any other name adds exactly one
  \<open>InvalidPrimitiveError\<close>. Eight of the twenty-four primitive names of the language are
  not in the table, the three date/time names with a time zone among them, and \<open>Validate\<close>
  rejects the module above with one \<open>InvalidPrimitiveError\<close> for \<open>timetz\<close>, where the
  claim counts \<open>timetz\<close> among the built-in names.
\<close>

theorem timezone_primitives_rejected:
  "(IsValidPrimitiveType n \<longleftrightarrow>
      n \<in> {''int8'', ''int16'', ''int32'', ''int64'', ''nat8'', ''nat16'', ''nat32'', ''nat64'',
           ''float32'', ''float64'', ''string'', ''bool'', ''json'',
           ''datetime'', ''date'', ''time''})
   \<and> card {''int8'', ''int16'', ''int32'', ''int64'', ''nat8'', ''nat16'', ''nat32'', ''nat64'',
           ''float32'', ''float64'', ''string'', ''bool'', ''json'',
           ''datetime'', ''date'', ''time''} = 16
   \<and> Errors (validateType reg (PrimitiveType n) filename line column res) =
       (if IsValidPrimitiveType n then Errors res
        else Errors res @
          [\<lparr>Type = InvalidPrimitiveError,
            Message = [CHR 0x27] @ n @ [CHR 0x27] @ '' is not a valid primitive type'',
            File = filename, Line = line, Column = column,
            Suggestion = ''use one of: int8, int16, int32, int64, nat8, nat16, nat32, nat64, float32, float64, string, bool, json, datetime, date, time''\<rparr>])
   \<and> length primitiveKeywords = 24
   \<and> filter (\<lambda>k. \<not> IsValidPrimitiveType k) primitiveKeywords =
       [''int'', ''bigint'', ''nat'', ''bignat'', ''decimal'', ''timetz'', ''datetz'', ''datetimetz'']
   \<and> map fst (types (buildTypeRegistry timetzModule)) = [''event.tg::Event'']
   \<and> snd (Validate NewValidator timetzModule [''event.tg::Event'']) =
       \<lparr>Errors =
          [\<lparr>Type = InvalidPrimitiveError,
            Message = [CHR 0x27] @ ''timetz'' @ [CHR 0x27] @ '' is not a valid primitive type'',
            File = ''event.tg'', Line = 2, Column = 5,
            Suggestion = ''use one of: int8, int16, int32, int64, nat8, nat16, nat32, nat64, float32, float64, string, bool, json, datetime, date, time''\<rparr>],
        Valid = False\<rparr>"
proof -
  have 1: "IsValidPrimitiveType n \<longleftrightarrow>
      n \<in> {''int8'', ''int16'', ''int32'', ''int64'', ''nat8'', ''nat16'', ''nat32'', ''nat64'',
           ''float32'', ''float64'', ''string'', ''bool'', ''json'',
           ''datetime'', ''date'', ''time''}"
    by (rule IsValidPrimitiveType_iff)
  have 2: "card {''int8'', ''int16'', ''int32'', ''int64'', ''nat8'', ''nat16'', ''nat32'', ''nat64'',
           ''float32'', ''float64'', ''string'', ''bool'', ''json'',
           ''datetime'', ''date'', ''time''} = (16::nat)"
    by simp
  have 3: "Errors (validateType reg (PrimitiveType n) filename line column res) =
       (if IsValidPrimitiveType n then Errors res
        else Errors res @
          [\<lparr>Type = InvalidPrimitiveError,
            Message = [CHR 0x27] @ n @ [CHR 0x27] @ '' is not a valid primitive type'',
            File = filename, Line = line, Column = column,
            Suggestion = ''use one of: int8, int16, int32, int64, nat8, nat16, nat32, nat64, float32, float64, string, bool, json, datetime, date, time''\<rparr>])"
    by (simp add: validatePrimitiveType_def AddError_def)
  have 4: "length primitiveKeywords = 24"
    by (simp add: primitiveKeywords_def)
  have 5: "filter (\<lambda>k. \<not> IsValidPrimitiveType k) primitiveKeywords =
       [''int'', ''bigint'', ''nat'', ''bignat'', ''decimal'', ''timetz'', ''datetz'', ''datetimetz'']"
    by code_simp
  have 6: "map fst (types (buildTypeRegistry timetzModule)) = [''event.tg::Event'']"
    by code_simp
  have 7: "snd (Validate NewValidator timetzModule [''event.tg::Event'']) =
       \<lparr>Errors =
          [\<lparr>Type = InvalidPrimitiveError,
            Message = [CHR 0x27] @ ''timetz'' @ [CHR 0x27] @ '' is not a valid primitive type'',
            File = ''event.tg'', Line = 2, Column = 5,
            Suggestion = ''use one of: int8, int16, int32, int64, nat8, nat16, nat32, nat64, float32, float64, string, bool, json, datetime, date, time''\<rparr>],
        Valid = False\<rparr>"
    by code_simp
  show ?thesis
    by (rule conjI[OF 1 conjI[OF 2 conjI[OF 3 conjI[OF 4 conjI[OF 5 conjI[OF 6 7]]]]]])
qed

text \<open>
  Claim C10. Every validation result keeps the invariant \<open>Valid = (length Errors = 0)\<close>:
  \<open>NewValidationResult\<close> establishes it with no error and \<open>Valid\<close> true; \<open>AddError\<close>
  appends one error, sets \<open>Valid\<close> to false and so preserves it; under the invariant
  \<open>HasErrors\<close> equals not-\<open>Valid\<close> and an empty error list means valid; and the result
  that \<open>Validate\<close> returns satisfies it, in whatever order the registry is visited.
\<close>

theorem result_invariant_maintained:
  "result_invariant NewValidationResult
   \<and> Errors NewValidationResult = [] \<and> Valid NewValidationResult
   \<and> Errors (AddError t m f l c s r) =
        Errors r @ [\<lparr>Type = t, Message = m, File = f, Line = l, Column = c, Suggestion = s\<rparr>]
   \<and> \<not> Valid (AddError t m f l c s r)
   \<and> (result_invariant r \<longrightarrow> result_invariant (AddError t m f l c s r))
   \<and> (result_invariant r \<longrightarrow> HasErrors r = (\<not> Valid r))
   \<and> (result_invariant r \<longrightarrow> (Errors r = [] \<longleftrightarrow> Valid r))
   \<and> result_invariant (snd (Validate v module keyOrder))"
  by (auto simp: result_invariant_def NewValidationResult_def AddError_def HasErrors_def
        Validate_result)

theorem result_invariant_witness:
  "result_invariant NewValidationResult
   \<and> result_invariant (AddError UndefinedTypeError ''undefined type'' ''test.tg'' 5 10
        ''define the type'' NewValidationResult)
   \<and> HasErrors NewValidationResult = (\<not> Valid NewValidationResult)
   \<and> (Errors NewValidationResult = [] \<longleftrightarrow> Valid NewValidationResult)"
  using result_invariant_maintained[of UndefinedTypeError "''undefined type''" "''test.tg''" 5 10
      "''define the type''" NewValidationResult]
  by simp

text \<open>
  Claim C4. A map whose key is a primitive named \<open>string\<close> or one of the eight integer
  widths gets no error for its key (only the errors of its value type follow). Any other
  key, a primitive with another name or a type that is not primitive, gets exactly one
  \<open>InvalidMapKeyError\<close> from the key check, ahead of the errors of the key and value
  types; validating a primitive never adds an \<open>InvalidMapKeyError\<close> of its own. The names
  \<open>bool\<close>, \<open>float32\<close>, \<open>float64\<close>, \<open>json\<close> and all date/time names are not valid keys.
\<close>

theorem map_key_check:
  "(k = PrimitiveType n \<and>
      n \<in> {''string'', ''int8'', ''int16'', ''int32'', ''int64'',
           ''nat8'', ''nat16'', ''nat32'', ''nat64''} \<longrightarrow>
      Errors (validateType reg (MapType k v) filename line column res) =
        Errors res @ Errors (validateType reg v filename line column NewValidationResult))
   \<and> (\<not> (\<exists>n. k = PrimitiveType n \<and>
             n \<in> {''string'', ''int8'', ''int16'', ''int32'', ''int64'',
                  ''nat8'', ''nat16'', ''nat32'', ''nat64''}) \<longrightarrow>
      Errors (validateType reg (MapType k v) filename line column res) =
        Errors res @
        \<lparr>Type = InvalidMapKeyError,
         Message = (case k of
                      PrimitiveType m \<Rightarrow>
                        ''map key type '' @ [CHR 0x27] @ m @ [CHR 0x27] @ '' is not valid''
                    | _ \<Rightarrow> ''map key must be a primitive type''),
         File = filename, Line = line, Column = column,
         Suggestion = ''use string or integer types for map keys''\<rparr>
        # Errors (validateType reg k filename line column NewValidationResult)
        @ Errors (validateType reg v filename line column NewValidationResult))
   \<and> (\<forall>e \<in> set (Errors (validateType reg (PrimitiveType n) filename line column
                 NewValidationResult)). Type e \<noteq> InvalidMapKeyError)
   \<and> \<not> IsValidMapKeyType ''bool'' \<and> \<not> IsValidMapKeyType ''float32''
   \<and> \<not> IsValidMapKeyType ''float64'' \<and> \<not> IsValidMapKeyType ''json''
   \<and> \<not> IsValidMapKeyType ''datetime'' \<and> \<not> IsValidMapKeyType ''date''
   \<and> \<not> IsValidMapKeyType ''time'' \<and> \<not> IsValidMapKeyType ''timetz''
   \<and> \<not> IsValidMapKeyType ''datetz'' \<and> \<not> IsValidMapKeyType ''datetimetz''"
proof -
  let ?S = "{''string'', ''int8'', ''int16'', ''int32'', ''int64'',
             ''nat8'', ''nat16'', ''nat32'', ''nat64''}"
  let ?e = "\<lparr>Type = InvalidMapKeyError,
         Message = (case k of
                      PrimitiveType m \<Rightarrow>
                        ''map key type '' @ [CHR 0x27] @ m @ [CHR 0x27] @ '' is not valid''
                    | _ \<Rightarrow> ''map key must be a primitive type''),
         File = filename, Line = line, Column = column,
         Suggestion = ''use string or integer types for map keys''\<rparr>"
  have "Errors (validateType reg (MapType k v) filename line column res) =
        Errors res @ newErrors (checkMapKey k filename line column)
          @ newErrors (validateType reg k filename line column)
          @ newErrors (validateType reg v filename line column)"
    by (simp only: validateType_Errors newErrors_validateType_Map)
  then have E: "Errors (validateType reg (MapType k v) filename line column res) =
        Errors res @ Errors (checkMapKey k filename line column NewValidationResult)
          @ Errors (validateType reg k filename line column NewValidationResult)
          @ Errors (validateType reg v filename line column NewValidationResult)"
    by (simp only: newErrors_def)
  have 1: "k = PrimitiveType n \<and> n \<in> ?S \<longrightarrow>
      Errors (validateType reg (MapType k v) filename line column res) =
        Errors res @ Errors (validateType reg v filename line column NewValidationResult)"
  proof
    assume a: "k = PrimitiveType n \<and> n \<in> ?S"
    then have "IsValidMapKeyType n" and "IsValidPrimitiveType n"
      by (auto simp: IsValidMapKeyType_iff IsValidPrimitiveType_iff)
    then have "Errors (checkMapKey k filename line column NewValidationResult) = []"
      and "Errors (validateType reg k filename line column NewValidationResult) = []"
      using a by (simp_all add: checkMapKey_def validatePrimitiveType_def)
    with E show "Errors (validateType reg (MapType k v) filename line column res) =
        Errors res @ Errors (validateType reg v filename line column NewValidationResult)"
      by (simp only: append_Nil)
  qed
  have 2: "\<not> (\<exists>n. k = PrimitiveType n \<and> n \<in> ?S) \<longrightarrow>
      Errors (validateType reg (MapType k v) filename line column res) =
        Errors res @ ?e
        # Errors (validateType reg k filename line column NewValidationResult)
        @ Errors (validateType reg v filename line column NewValidationResult)"
  proof
    assume a: "\<not> (\<exists>n. k = PrimitiveType n \<and> n \<in> ?S)"
    have "Errors (checkMapKey k filename line column NewValidationResult) = [?e]"
    proof (cases k)
      case (PrimitiveType m)
      with a have "\<not> IsValidMapKeyType m" by (simp add: IsValidMapKeyType_iff)
      with PrimitiveType show ?thesis
        by (simp add: checkMapKey_def AddError_def)
    qed (simp_all add: checkMapKey_def AddError_def)
    with E show "Errors (validateType reg (MapType k v) filename line column res) =
        Errors res @ ?e
        # Errors (validateType reg k filename line column NewValidationResult)
        @ Errors (validateType reg v filename line column NewValidationResult)"
      by (simp only: append_Cons append_Nil)
  qed
  have 3: "\<forall>e \<in> set (Errors (validateType reg (PrimitiveType n) filename line column
                 NewValidationResult)). Type e \<noteq> InvalidMapKeyError"
    by (simp add: validatePrimitiveType_def AddError_def)
  have 4: "\<not> IsValidMapKeyType ''bool'' \<and> \<not> IsValidMapKeyType ''float32''
   \<and> \<not> IsValidMapKeyType ''float64'' \<and> \<not> IsValidMapKeyType ''json''
   \<and> \<not> IsValidMapKeyType ''datetime'' \<and> \<not> IsValidMapKeyType ''date''
   \<and> \<not> IsValidMapKeyType ''time'' \<and> \<not> IsValidMapKeyType ''timetz''
   \<and> \<not> IsValidMapKeyType ''datetz'' \<and> \<not> IsValidMapKeyType ''datetimetz''"
    by (simp add: IsValidMapKeyType_iff)
  show ?thesis by (rule conjI[OF 1 conjI[OF 2 conjI[OF 3 4]]])
qed


theorem map_key_check_witness:
  "Errors (validateType NewTypeRegistry
             (MapType (PrimitiveType ''string'') (PrimitiveType ''int64'')) ''a.tg'' 3 1
             NewValidationResult) = []
   \<and> map Type (Errors (validateType NewTypeRegistry
             (MapType (PrimitiveType ''bool'') (PrimitiveType ''string'')) ''a.tg'' 3 1
             NewValidationResult)) = [InvalidMapKeyError]
   \<and> map Type (Errors (validateType NewTypeRegistry
             (MapType (ArrayType (PrimitiveType ''string'')) (PrimitiveType ''string'')) ''a.tg'' 3 1
             NewValidationResult)) = [InvalidMapKeyError]"
  using map_key_check[of "PrimitiveType ''string''" "''string''" NewTypeRegistry
          "PrimitiveType ''int64''" "''a.tg''" 3 1 NewValidationResult]
        map_key_check[of "PrimitiveType ''bool''" "''bool''" NewTypeRegistry
          "PrimitiveType ''string''" "''a.tg''" 3 1 NewValidationResult]
        map_key_check[of "ArrayType (PrimitiveType ''string'')" "''bool''" NewTypeRegistry
          "PrimitiveType ''string''" "''a.tg''" 3 1 NewValidationResult]
  by (simp add: validatePrimitiveType_def IsValidPrimitiveType_iff)

text \<open>
  Claim C3. \<open>TypeExists(name, currentFile)\<close> is true if and only if \<open>name\<close> is a
  recognized primitive, or the exact key \<open>currentFile::name\<close> is registered, or some
  registered key ends in \<open>::name\<close>. The registry is built from the declarations alone: the
  module without its import statements has the same registry. And the name of every
  declaration of every file of the module tree resolves, from whatever file it is
  referred to.
\<close>

theorem TypeExists_iff:
  "(TypeExists r name curFile \<longleftrightarrow>
     IsValidPrimitiveType name
     \<or> curFile @ ''::'' @ name \<in> fst ` set (types r)
     \<or> (\<exists>qualName \<in> fst ` set (types r). suffix (''::'' @ name) qualName))
   \<and> buildTypeRegistry (dropImports module) = buildTypeRegistry module
   \<and> (\<forall>p \<in> set (allPrograms module). \<forall>d \<in> set (Declarations p).
         TypeExists (buildTypeRegistry module) (DeclName d) anyFile)"
proof (intro conjI ballI)
  show "TypeExists r name curFile \<longleftrightarrow>
     IsValidPrimitiveType name
     \<or> curFile @ ''::'' @ name \<in> fst ` set (types r)
     \<or> (\<exists>qualName \<in> fst ` set (types r). suffix (''::'' @ name) qualName)"
    by (rule TypeExists_keys)
  show "buildTypeRegistry (dropImports module) = buildTypeRegistry module"
    by (simp add: buildTypeRegistry_def processModuleForRegistry_dropImports)
  fix p d assume "p \<in> set (allPrograms module)" "d \<in> set (Declarations p)"
  then show "TypeExists (buildTypeRegistry module) (DeclName d) anyFile"
    by (rule declared_resolves)
qed

text \<open>A file \<open>a.tg\<close> that declares \<open>User\<close>, and a file \<open>b.tg\<close> of the submodule
  \<open>other\<close> that imports nothing of it and refers to \<open>User\<close>.\<close>

definition crossFileModule :: Module where
  "crossFileModule =
     Module ''test'' ''test''
       [(''a.tg'',
         \<lparr>Imports = [],
          Declarations =
            [StructNode \<lparr>Filename = ''a.tg'', PosLine = 2, PosColumn = 1\<rparr> ''User''
               [\<lparr>FieldPos = \<lparr>Filename = ''a.tg'', PosLine = 3, PosColumn = 1\<rparr>,
                 FieldName = ''id'', FieldType = PrimitiveType ''int64'',
                 FieldOptional = False\<rparr>]]\<rparr>)]
       [(''other'',
         Module ''test/other'' ''other''
           [(''b.tg'',
             \<lparr>Imports = [\<lparr>ImportPos = \<lparr>Filename = ''b.tg'', PosLine = 1, PosColumn = 1\<rparr>,
                          ImportPath = ''unrelated''\<rparr>],
              Declarations =
                [StructNode \<lparr>Filename = ''b.tg'', PosLine = 3, PosColumn = 1\<rparr> ''Order''
                   [\<lparr>FieldPos = \<lparr>Filename = ''b.tg'', PosLine = 4, PosColumn = 1\<rparr>,
                     FieldName = ''buyer'', FieldType = NamedType ''User'',
                     FieldOptional = False\<rparr>]]\<rparr>)]
           [])]"

theorem TypeExists_iff_witness:
  "map fst (types (buildTypeRegistry crossFileModule)) = [''a.tg::User'', ''other/b.tg::Order'']
   \<and> TypeExists (buildTypeRegistry crossFileModule) ''User'' ''other/b.tg''
   \<and> TypeExists (buildTypeRegistry crossFileModule) ''Order'' ''a.tg''
   \<and> \<not> TypeExists (buildTypeRegistry crossFileModule) ''Missing'' ''other/b.tg''
   \<and> buildTypeRegistry (dropImports crossFileModule) = buildTypeRegistry crossFileModule"
proof -
  have K: "map fst (types (buildTypeRegistry crossFileModule)) =
             [''a.tg::User'', ''other/b.tg::Order'']"
    by code_simp
  have M: "\<not> TypeExists (buildTypeRegistry crossFileModule) ''Missing'' ''other/b.tg''"
    by code_simp
  have P: "allPrograms crossFileModule =
             [\<lparr>Imports = [],
               Declarations =
                 [StructNode \<lparr>Filename = ''a.tg'', PosLine = 2, PosColumn = 1\<rparr> ''User''
                    [\<lparr>FieldPos = \<lparr>Filename = ''a.tg'', PosLine = 3, PosColumn = 1\<rparr>,
                      FieldName = ''id'', FieldType = PrimitiveType ''int64'',
                      FieldOptional = False\<rparr>]]\<rparr>,
              \<lparr>Imports = [\<lparr>ImportPos = \<lparr>Filename = ''b.tg'', PosLine = 1, PosColumn = 1\<rparr>,
                          ImportPath = ''unrelated''\<rparr>],
               Declarations =
                 [StructNode \<lparr>Filename = ''b.tg'', PosLine = 3, PosColumn = 1\<rparr> ''Order''
                    [\<lparr>FieldPos = \<lparr>Filename = ''b.tg'', PosLine = 4, PosColumn = 1\<rparr>,
                      FieldName = ''buyer'', FieldType = NamedType ''User'',
                      FieldOptional = False\<rparr>]]\<rparr>]"
    by (simp add: crossFileModule_def)
  have U: "TypeExists (buildTypeRegistry crossFileModule) ''User'' ''other/b.tg''"
    using TypeExists_iff[where module = crossFileModule and anyFile = "''other/b.tg''",
            THEN conjunct2]
    by (simp add: P)
  have O: "TypeExists (buildTypeRegistry crossFileModule) ''Order'' ''a.tg''"
    using TypeExists_iff[where module = crossFileModule and anyFile = "''a.tg''",
            THEN conjunct2]
    by (simp add: P)
  show ?thesis
    using TypeExists_iff[where module = crossFileModule, THEN conjunct2] K M U O by simp
qed

text \<open>
  Claim C8, as stated, fails: for the primitive name \<open>string\<close> and an empty registry
  \<open>TypeExists\<close> is true and \<open>FindType\<close> returns no record.
\<close>

theorem FindType_primitive_counterexample:
  "TypeExists NewTypeRegistry ''string'' ''a.tg''
   \<and> FindType NewTypeRegistry ''string'' ''a.tg'' = None"
  by (simp add: TypeExists_def FindType_def NewTypeRegistry_def IsValidPrimitiveType_iff)

text \<open>
  Claim C8, as the code has it. \<open>FindType\<close> has no branch for primitives. It returns a
  record exactly when the exact key \<open>currentFile::name\<close> is registered or some registered
  key ends in \<open>::name\<close>; so \<open>TypeExists\<close> is true exactly when the name is a recognized
  primitive or \<open>FindType\<close> returns a record. A record under the exact key is the one
  returned, and every record returned is registered under a key that ends in \<open>::name\<close>.
\<close>

theorem FindType_resolution:
  "(FindType r name curFile \<noteq> None \<longleftrightarrow>
      curFile @ ''::'' @ name \<in> fst ` set (types r)
      \<or> (\<exists>qualName \<in> fst ` set (types r). suffix (''::'' @ name) qualName))
   \<and> (TypeExists r name curFile \<longleftrightarrow>
        IsValidPrimitiveType name \<or> FindType r name curFile \<noteq> None)
   \<and> (map_of (types r) (curFile @ ''::'' @ name) = Some info \<longrightarrow>
        FindType r name curFile = Some info)
   \<and> (FindType r name curFile = Some info \<longrightarrow>
        (\<exists>qualName. (qualName, info) \<in> set (types r) \<and> suffix (''::'' @ name) qualName))"
proof -
  have 1: "FindType r name curFile \<noteq> None \<longleftrightarrow>
      curFile @ ''::'' @ name \<in> fst ` set (types r)
      \<or> (\<exists>qualName \<in> fst ` set (types r). suffix (''::'' @ name) qualName)"
  proof (cases "map_of (types r) (curFile @ ''::'' @ name)")
    case None
    then have "curFile @ ''::'' @ name \<notin> fst ` set (types r)"
      by (simp add: map_of_eq_None_iff)
    with None show ?thesis
      by (simp add: FindType_def qualifyName_def find_HasSuffix_None)
  next
    case (Some i)
    then have "curFile @ ''::'' @ name \<in> fst ` set (types r)"
      by (metis map_of_eq_None_iff option.distinct(1))
    with Some show ?thesis
      by (simp add: FindType_def qualifyName_def)
  qed
  have 2: "TypeExists r name curFile \<longleftrightarrow>
        IsValidPrimitiveType name \<or> FindType r name curFile \<noteq> None"
    unfolding 1 by (rule TypeExists_keys)
  have 3: "map_of (types r) (curFile @ ''::'' @ name) = Some info \<longrightarrow>
        FindType r name curFile = Some info"
    by (simp add: FindType_def qualifyName_def)
  have 4: "FindType r name curFile = Some info \<longrightarrow>
        (\<exists>qualName. (qualName, info) \<in> set (types r) \<and> suffix (''::'' @ name) qualName)"
  proof
    assume a: "FindType r name curFile = Some info"
    show "\<exists>qualName. (qualName, info) \<in> set (types r) \<and> suffix (''::'' @ name) qualName"
    proof (cases "map_of (types r) (qualifyName name curFile)")
      case (Some i)
      with a have "i = info" by (simp add: FindType_def)
      with Some have "(qualifyName name curFile, info) \<in> set (types r)"
        by (auto dest: map_of_SomeD)
      moreover have "suffix (''::'' @ name) (qualifyName name curFile)"
        by (simp add: qualifyName_def suffix_def)
      ultimately show ?thesis by blast
    next
      case None
      with a obtain q where
        "find (\<lambda>(qualName, info). HasSuffix qualName (''::'' @ name)) (types r) = Some (q, info)"
        by (auto simp: FindType_def)
      from find_HasSuffix_Some[OF this] show ?thesis by blast
    qed
  qed
  show ?thesis by (rule conjI[OF 1 conjI[OF 2 conjI[OF 3 4]]])
qed

theorem FindType_resolution_witness:
  "FindType \<lparr>types = [(''a.tg::User'', \<lparr>InfoName = ''User'', DeclType = ''struct'',
       InfoFile = ''a.tg'', InfoLine = 2, InfoColumn = 1, Dependencies = []\<rparr>)],
     currentFile = ''a.tg''\<rparr> ''User'' ''a.tg''
   = Some \<lparr>InfoName = ''User'', DeclType = ''struct'',
       InfoFile = ''a.tg'', InfoLine = 2, InfoColumn = 1, Dependencies = []\<rparr>
   \<and> (\<exists>qualName. (qualName, \<lparr>InfoName = ''User'', DeclType = ''struct'',
       InfoFile = ''a.tg'', InfoLine = 2, InfoColumn = 1, Dependencies = []\<rparr>)
        \<in> set [(''a.tg::User'', \<lparr>InfoName = ''User'', DeclType = ''struct'',
       InfoFile = ''a.tg'', InfoLine = 2, InfoColumn = 1, Dependencies = []\<rparr>)]
        \<and> suffix ''::User'' qualName)"
  using FindType_resolution[of "\<lparr>types = [(''a.tg::User'', \<lparr>InfoName = ''User'',
       DeclType = ''struct'', InfoFile = ''a.tg'', InfoLine = 2, InfoColumn = 1,
       Dependencies = []\<rparr>)], currentFile = ''a.tg''\<rparr>" "''User''" "''a.tg''"
       "\<lparr>InfoName = ''User'', DeclType = ''struct'',
       InfoFile = ''a.tg'', InfoLine = 2, InfoColumn = 1, Dependencies = []\<rparr>"]
  by simp

text \<open>
  Claim C1 does not hold of the code. The schema of the test
  \<open>TestValidator_SelfReference_Allowed\<close>, one file \<open>tree.tg\<close> with a struct \<open>TreeNode\<close>
  whose fields \<open>children\<close> and \<open>parent\<close> refer to \<open>TreeNode\<close> itself:
\<close>

definition treePos :: "int \<Rightarrow> Position" where
  "treePos l = \<lparr>Filename = ''tree.tg'', PosLine = l, PosColumn = 1\<rparr>"

definition selfReferenceModule :: Module where
  "selfReferenceModule =
     Module ''test'' ''test''
       [(''tree.tg'',
         \<lparr>Imports = [],
          Declarations =
            [StructNode (treePos 2) ''TreeNode''
               [\<lparr>FieldPos = treePos 3, FieldName = ''value'',
                 FieldType = PrimitiveType ''string'', FieldOptional = False\<rparr>,
                \<lparr>FieldPos = treePos 4, FieldName = ''children'',
                 FieldType = ArrayType (NamedType ''TreeNode''), FieldOptional = False\<rparr>,
                \<lparr>FieldPos = treePos 5, FieldName = ''parent'',
                 FieldType = NamedType ''TreeNode'', FieldOptional = True\<rparr>]]\<rparr>)]
       []"

text \<open>
  Claim C1, at this input: the registry has the one key \<open>tree.tg::TreeNode\<close>, so there
  is one order to visit it in, and \<open>Validate\<close> returns one \<open>CircularDependencyError\<close>
  for the cycle \<open>tree.tg::TreeNode -> tree.tg::TreeNode\<close> and the result is not valid,
  where the claim and the test expect no error.
\<close>

theorem self_reference_rejected:
  "map fst (types (buildTypeRegistry selfReferenceModule)) = [''tree.tg::TreeNode'']
   \<and> snd (Validate NewValidator selfReferenceModule [''tree.tg::TreeNode'']) =
     \<lparr>Errors =
        [\<lparr>Type = CircularDependencyError,
          Message = ''circular dependency detected: tree.tg::TreeNode -> tree.tg::TreeNode'',
          File = ''tree.tg'', Line = 0, Column = 0,
          Suggestion = ''restructure types to eliminate circular references''\<rparr>],
      Valid = False\<rparr>"
proof -
  have 1: "map fst (types (buildTypeRegistry selfReferenceModule)) = [''tree.tg::TreeNode'']"
    by code_simp
  have 2: "snd (Validate NewValidator selfReferenceModule [''tree.tg::TreeNode'']) =
     \<lparr>Errors =
        [\<lparr>Type = CircularDependencyError,
          Message = ''circular dependency detected: tree.tg::TreeNode -> tree.tg::TreeNode'',
          File = ''tree.tg'', Line = 0, Column = 0,
          Suggestion = ''restructure types to eliminate circular references''\<rparr>],
      Valid = False\<rparr>"
    by code_simp
  show ?thesis by (rule conjI[OF 1 2])
qed

text \<open>
  For claim C9: a module with one file \<open>shop.tg\<close> and three structs. \<open>Order\<close> refers to
  \<open>Item\<close> and to \<open>Buyer\<close>, \<open>Item\<close> refers to itself and \<open>Buyer\<close> refers to \<open>Order\<close>.
\<close>

definition shopPos :: "int \<Rightarrow> Position" where
  "shopPos l = \<lparr>Filename = ''shop.tg'', PosLine = l, PosColumn = 1\<rparr>"

definition shopField :: "int \<Rightarrow> string \<Rightarrow> string \<Rightarrow> FieldNode" where
  "shopField l n t =
     \<lparr>FieldPos = shopPos l, FieldName = n, FieldType = NamedType t, FieldOptional = False\<rparr>"

definition shopModule :: Module where
  "shopModule =
     Module ''test'' ''test''
       [(''shop.tg'',
         \<lparr>Imports = [],
          Declarations =
            [StructNode (shopPos 1) ''Order''
               [shopField 2 ''item'' ''Item'', shopField 3 ''buyer'' ''Buyer''],
             StructNode (shopPos 5) ''Item'' [shopField 6 ''parent'' ''Item''],
             StructNode (shopPos 8) ''Buyer'' [shopField 9 ''last'' ''Order'']]\<rparr>)]
       []"

text \<open>
  And one module with two files, each with a struct whose name breaks the naming
  convention, written twice. The two values are the same Go maps; they differ only in the
  order in which \<open>range\<close> visits the two files.
\<close>

definition namedStruct :: "string \<Rightarrow> string \<Rightarrow> ProgramNode" where
  "namedStruct file name =
     \<lparr>Imports = [],
      Declarations =
        [StructNode \<lparr>Filename = file, PosLine = 2, PosColumn = 1\<rparr> name
           [\<lparr>FieldPos = \<lparr>Filename = file, PosLine = 3, PosColumn = 1\<rparr>, FieldName = ''id'',
             FieldType = PrimitiveType ''int64'', FieldOptional = False\<rparr>]]\<rparr>"

definition twoFilesAB :: Module where
  "twoFilesAB = Module ''test'' ''test''
     [(''a.tg'', namedStruct ''a.tg'' ''user_a''), (''b.tg'', namedStruct ''b.tg'' ''user_b'')] []"

definition twoFilesBA :: Module where
  "twoFilesBA = Module ''test'' ''test''
     [(''b.tg'', namedStruct ''b.tg'' ''user_b''), (''a.tg'', namedStruct ''a.tg'' ''user_a'')] []"

text \<open>
  Claim C9, as stated, fails: two runs of \<open>Validate\<close> on the same module can return
  different results. On the module \<open>shopModule\<close> the registry has three keys. A run whose
  cycle check visits them in the order \<open>Order\<close>, \<open>Item\<close>, \<open>Buyer\<close> returns one error; a
  run that visits them in the order \<open>Item\<close>, \<open>Order\<close>, \<open>Buyer\<close> returns two. And two
  runs that visit the files of a module in different orders return the errors of the
  files in different orders.
\<close>

theorem Validate_order_counterexample:
  "rangeOrder (buildTypeRegistry shopModule)
     [''shop.tg::Order'', ''shop.tg::Item'', ''shop.tg::Buyer'']
   \<and> rangeOrder (buildTypeRegistry shopModule)
     [''shop.tg::Item'', ''shop.tg::Order'', ''shop.tg::Buyer'']
   \<and> map Message (Errors (snd (Validate NewValidator shopModule
          [''shop.tg::Order'', ''shop.tg::Item'', ''shop.tg::Buyer'']))) =
       [''circular dependency detected: shop.tg::Item -> shop.tg::Item'']
   \<and> map Message (Errors (snd (Validate NewValidator shopModule
          [''shop.tg::Item'', ''shop.tg::Order'', ''shop.tg::Buyer'']))) =
       [''circular dependency detected: shop.tg::Item -> shop.tg::Item'',
        ''circular dependency detected: shop.tg::Order -> shop.tg::Buyer -> shop.tg::Order'']
   \<and> snd (Validate NewValidator shopModule
          [''shop.tg::Order'', ''shop.tg::Item'', ''shop.tg::Buyer'']) \<noteq>
       snd (Validate NewValidator shopModule
          [''shop.tg::Item'', ''shop.tg::Order'', ''shop.tg::Buyer''])
   \<and> ModulePath twoFilesAB = ModulePath twoFilesBA
   \<and> ModuleName twoFilesAB = ModuleName twoFilesBA
   \<and> SubModules twoFilesAB = SubModules twoFilesBA
   \<and> distinct (map fst (Files twoFilesAB)) \<and> distinct (map fst (Files twoFilesBA))
   \<and> set (Files twoFilesAB) = set (Files twoFilesBA)
   \<and> rangeOrder (buildTypeRegistry twoFilesAB) [''a.tg::user_a'', ''b.tg::user_b'']
   \<and> rangeOrder (buildTypeRegistry twoFilesBA) [''a.tg::user_a'', ''b.tg::user_b'']
   \<and> map File (Errors (snd (Validate NewValidator twoFilesAB
          [''a.tg::user_a'', ''b.tg::user_b'']))) = [''a.tg'', ''b.tg'']
   \<and> map File (Errors (snd (Validate NewValidator twoFilesBA
          [''a.tg::user_a'', ''b.tg::user_b'']))) = [''b.tg'', ''a.tg'']
   \<and> snd (Validate NewValidator twoFilesAB [''a.tg::user_a'', ''b.tg::user_b'']) \<noteq>
       snd (Validate NewValidator twoFilesBA [''a.tg::user_a'', ''b.tg::user_b''])"
proof -
  have o1: "rangeOrder (buildTypeRegistry shopModule)
     [''shop.tg::Order'', ''shop.tg::Item'', ''shop.tg::Buyer'']"
    by code_simp
  have o2: "rangeOrder (buildTypeRegistry shopModule)
     [''shop.tg::Item'', ''shop.tg::Order'', ''shop.tg::Buyer'']"
    by code_simp
  have m1: "map Message (Errors (snd (Validate NewValidator shopModule
          [''shop.tg::Order'', ''shop.tg::Item'', ''shop.tg::Buyer'']))) =
       [''circular dependency detected: shop.tg::Item -> shop.tg::Item'']"
    by code_simp
  have m2: "map Message (Errors (snd (Validate NewValidator shopModule
          [''shop.tg::Item'', ''shop.tg::Order'', ''shop.tg::Buyer'']))) =
       [''circular dependency detected: shop.tg::Item -> shop.tg::Item'',
        ''circular dependency detected: shop.tg::Order -> shop.tg::Buyer -> shop.tg::Order'']"
    by code_simp
  have "length (Errors (snd (Validate NewValidator shopModule
          [''shop.tg::Order'', ''shop.tg::Item'', ''shop.tg::Buyer'']))) \<noteq>
        length (Errors (snd (Validate NewValidator shopModule
          [''shop.tg::Item'', ''shop.tg::Order'', ''shop.tg::Buyer''])))"
    using arg_cong[OF m1, of length] arg_cong[OF m2, of length] by simp
  then have ne: "snd (Validate NewValidator shopModule
          [''shop.tg::Order'', ''shop.tg::Item'', ''shop.tg::Buyer'']) \<noteq>
       snd (Validate NewValidator shopModule
          [''shop.tg::Item'', ''shop.tg::Order'', ''shop.tg::Buyer''])"
    by auto
  have k1: "rangeOrder (buildTypeRegistry twoFilesAB) [''a.tg::user_a'', ''b.tg::user_b'']"
    by code_simp
  have k2: "rangeOrder (buildTypeRegistry twoFilesBA) [''a.tg::user_a'', ''b.tg::user_b'']"
    by code_simp
  have a: "map File (Errors (snd (Validate NewValidator twoFilesAB
          [''a.tg::user_a'', ''b.tg::user_b'']))) = [''a.tg'', ''b.tg'']"
    by code_simp
  have b: "map File (Errors (snd (Validate NewValidator twoFilesBA
          [''a.tg::user_a'', ''b.tg::user_b'']))) = [''b.tg'', ''a.tg'']"
    by code_simp
  have c: "snd (Validate NewValidator twoFilesAB [''a.tg::user_a'', ''b.tg::user_b'']) \<noteq>
       snd (Validate NewValidator twoFilesBA [''a.tg::user_a'', ''b.tg::user_b''])"
    using a b by auto
  have d: "set (Files twoFilesAB) = set (Files twoFilesBA)"
    by (auto simp: twoFilesAB_def twoFilesBA_def)
  have e: "ModulePath twoFilesAB = ModulePath twoFilesBA"
    "ModuleName twoFilesAB = ModuleName twoFilesBA"
    "SubModules twoFilesAB = SubModules twoFilesBA"
    "distinct (map fst (Files twoFilesAB))" "distinct (map fst (Files twoFilesBA))"
    by (simp_all add: twoFilesAB_def twoFilesBA_def)
  show ?thesis
    by (intro conjI o1 o2 m1 m2 ne e d k1 k2 a b c)
qed

text \<open>
  Claim C9, as the code has it. \<open>Validate\<close> reads the module and never writes to it (the
  module is an argument of the function and no part of its value). It keeps no state that
  reaches a later run: the result is the same from every state of the validator, the
  registry and the result stored in the validator are the ones built in this run, and a
  second run from the state the first one left, under the same orders, returns the same
  result. The result is a function of the module, of the order in which \<open>range\<close> visits
  the files and submodules (the order of the lists of the module) and of the order
  \<open>keyOrder\<close> in which the cycle check visits the keys of the registry. The errors of the
  files come first and do not depend on \<open>keyOrder\<close>; the errors of the cycle check follow.
  The order in which the types were registered plays no role: every registry that
  holds the same entries gives the same result.
\<close>

theorem Validate_stateless:
  "Validate v1 module keyOrder = Validate v2 module keyOrder
   \<and> registry (fst (Validate v1 module keyOrder)) = Some (buildTypeRegistry module)
   \<and> result (fst (Validate v1 module keyOrder)) = snd (Validate v1 module keyOrder)
   \<and> snd (Validate (fst (Validate v1 module keyOrder)) module keyOrder) =
       snd (Validate v1 module keyOrder)
   \<and> snd (Validate v1 module keyOrder) =
        validateCircularDependencies (buildTypeRegistry module) keyOrder
          (validateModule (buildTypeRegistry module) module [] NewValidationResult)
   \<and> Errors (snd (Validate v1 module keyOrder)) =
        Errors (validateModule (buildTypeRegistry module) module [] NewValidationResult)
        @ Errors (validateCircularDependencies (buildTypeRegistry module) keyOrder
                    NewValidationResult)
   \<and> (map_of (types r') = map_of (types (buildTypeRegistry module)) \<longrightarrow>
        validateCircularDependencies r' keyOrder
          (validateModule r' module [] NewValidationResult) =
        snd (Validate v1 module keyOrder))"
proof -
  have 1: "Validate v1 module keyOrder = Validate v2 module keyOrder
   \<and> registry (fst (Validate v1 module keyOrder)) = Some (buildTypeRegistry module)
   \<and> result (fst (Validate v1 module keyOrder)) = snd (Validate v1 module keyOrder)
   \<and> snd (Validate (fst (Validate v1 module keyOrder)) module keyOrder) =
       snd (Validate v1 module keyOrder)
   \<and> snd (Validate v1 module keyOrder) =
        validateCircularDependencies (buildTypeRegistry module) keyOrder
          (validateModule (buildTypeRegistry module) module [] NewValidationResult)"
    by (cases v1; cases v2) (simp add: Validate_def Let_def)
  have 2: "Errors (snd (Validate v1 module keyOrder)) =
        Errors (validateModule (buildTypeRegistry module) module [] NewValidationResult)
        @ Errors (validateCircularDependencies (buildTypeRegistry module) keyOrder
                    NewValidationResult)"
    by (simp add: Validate_result newErrors_def)
  have 3: "map_of (types r') = map_of (types (buildTypeRegistry module)) \<longrightarrow>
        validateCircularDependencies r' keyOrder
          (validateModule r' module [] NewValidationResult) =
        snd (Validate v1 module keyOrder)"
    by (rule impI) (rule Validate_registry_as_map)
  from 1 show ?thesis by (elim conjE) (intro conjI 2 3; assumption)
qed

text \<open>The registry of \<open>shopModule\<close> with its entries in the opposite order.\<close>

definition shopRegistryReversed :: TypeRegistry where
  "shopRegistryReversed =
     \<lparr>types = rev (types (buildTypeRegistry shopModule)), currentFile = ''shop.tg''\<rparr>"

theorem Validate_stateless_witness:
  "map fst (types shopRegistryReversed) = rev (map fst (types (buildTypeRegistry shopModule)))
   \<and> validateCircularDependencies shopRegistryReversed
       [''shop.tg::Item'', ''shop.tg::Order'', ''shop.tg::Buyer'']
       (validateModule shopRegistryReversed shopModule [] NewValidationResult) =
     snd (Validate NewValidator shopModule
            [''shop.tg::Item'', ''shop.tg::Order'', ''shop.tg::Buyer''])
   \<and> Validate \<lparr>registry = Some shopRegistryReversed,
                 result = AddError UndefinedTypeError ''undefined type'' ''old.tg'' 5 10
                            ''define the type'' NewValidationResult\<rparr>
        shopModule [''shop.tg::Item'', ''shop.tg::Order'', ''shop.tg::Buyer''] =
      Validate NewValidator shopModule
        [''shop.tg::Item'', ''shop.tg::Order'', ''shop.tg::Buyer'']"
proof -
  have d: "distinct (map fst (types (buildTypeRegistry shopModule)))"
    by code_simp
  have m: "map_of (types shopRegistryReversed) = map_of (types (buildTypeRegistry shopModule))"
    using d by (simp add: shopRegistryReversed_def map_of_inject_set distinct_rev rev_map[symmetric])
  have k: "map fst (types shopRegistryReversed) =
             rev (map fst (types (buildTypeRegistry shopModule)))"
    by (simp add: shopRegistryReversed_def rev_map)
  show ?thesis
    using Validate_stateless[where ?v1.0 = NewValidator
        and ?v2.0 = "\<lparr>registry = Some shopRegistryReversed,
                 result = AddError UndefinedTypeError ''undefined type'' ''old.tg'' 5 10
                            ''define the type'' NewValidationResult\<rparr>"
        and module = shopModule and r' = shopRegistryReversed
        and keyOrder = "[''shop.tg::Item'', ''shop.tg::Order'', ''shop.tg::Buyer'']"]
      m k
    by simp
qed

text \<open>
  Claim C7. Let a struct hold a field \<open>f1\<close>, the first field of its name, and later a
  field \<open>f2\<close> of the same name. Then the second occurrence yields exactly one
  \<open>DuplicateFieldError\<close>: the errors of that kind are those of the struct without \<open>f2\<close>,
  with one more error put in at the place of \<open>f2\<close>, reported at the position of \<open>f2\<close>
  and citing the line of \<open>f1\<close>. The same holds for the variants of an enum and
  \<open>DuplicateVariantError\<close>.
\<close>

theorem duplicate_member_reported:
  assumes "FieldName f1 = FieldName f2" and "FieldName f2 \<notin> FieldName ` set fpre"
    and "VariantName v1 = VariantName v2" and "VariantName v2 \<notin> VariantName ` set vpre"
  shows
    "filter (\<lambda>e. Type e = DuplicateFieldError)
       (Errors (validateStruct reg pos sname (fpre @ f1 # fmid @ f2 # fpost) fname res)) =
     filter (\<lambda>e. Type e = DuplicateFieldError)
       (Errors (validateStruct reg pos sname (fpre @ f1 # fmid) fname res))
     @ \<lparr>Type = DuplicateFieldError,
        Message = ''duplicate field '' @ [CHR 0x27] @ FieldName f2 @ [CHR 0x27]
                    @ '' (first declared at line '' @ fmt_d (PosLine (FieldPos f1)) @ '')'',
        File = fname, Line = PosLine (FieldPos f2), Column = PosColumn (FieldPos f2),
        Suggestion = ''rename one of the fields''\<rparr>
     # drop (length (filter (\<lambda>e. Type e = DuplicateFieldError)
               (Errors (validateStruct reg pos sname (fpre @ f1 # fmid) fname res))))
         (filter (\<lambda>e. Type e = DuplicateFieldError)
            (Errors (validateStruct reg pos sname (fpre @ f1 # fmid @ fpost) fname res)))
   \<and> take (length (filter (\<lambda>e. Type e = DuplicateFieldError)
               (Errors (validateStruct reg pos sname (fpre @ f1 # fmid) fname res))))
         (filter (\<lambda>e. Type e = DuplicateFieldError)
            (Errors (validateStruct reg pos sname (fpre @ f1 # fmid @ fpost) fname res))) =
     filter (\<lambda>e. Type e = DuplicateFieldError)
       (Errors (validateStruct reg pos sname (fpre @ f1 # fmid) fname res))
   \<and> length (filter (\<lambda>e. Type e = DuplicateFieldError)
       (Errors (validateStruct reg pos sname (fpre @ f1 # fmid @ f2 # fpost) fname res))) =
     Suc (length (filter (\<lambda>e. Type e = DuplicateFieldError)
       (Errors (validateStruct reg pos sname (fpre @ f1 # fmid @ fpost) fname res))))
   \<and> filter (\<lambda>e. Type e = DuplicateVariantError)
       (Errors (validateEnum reg pos ename (vpre @ v1 # vmid @ v2 # vpost) fname res)) =
     filter (\<lambda>e. Type e = DuplicateVariantError)
       (Errors (validateEnum reg pos ename (vpre @ v1 # vmid) fname res))
     @ \<lparr>Type = DuplicateVariantError,
        Message = ''duplicate variant '' @ [CHR 0x27] @ VariantName v2 @ [CHR 0x27]
                    @ '' (first declared at line '' @ fmt_d (PosLine (VariantPos v1)) @ '')'',
        File = fname, Line = PosLine (VariantPos v2), Column = PosColumn (VariantPos v2),
        Suggestion = ''rename one of the variants''\<rparr>
     # drop (length (filter (\<lambda>e. Type e = DuplicateVariantError)
               (Errors (validateEnum reg pos ename (vpre @ v1 # vmid) fname res))))
         (filter (\<lambda>e. Type e = DuplicateVariantError)
            (Errors (validateEnum reg pos ename (vpre @ v1 # vmid @ vpost) fname res)))
   \<and> take (length (filter (\<lambda>e. Type e = DuplicateVariantError)
               (Errors (validateEnum reg pos ename (vpre @ v1 # vmid) fname res))))
         (filter (\<lambda>e. Type e = DuplicateVariantError)
            (Errors (validateEnum reg pos ename (vpre @ v1 # vmid @ vpost) fname res))) =
     filter (\<lambda>e. Type e = DuplicateVariantError)
       (Errors (validateEnum reg pos ename (vpre @ v1 # vmid) fname res))
   \<and> length (filter (\<lambda>e. Type e = DuplicateVariantError)
       (Errors (validateEnum reg pos ename (vpre @ v1 # vmid @ v2 # vpost) fname res))) =
     Suc (length (filter (\<lambda>e. Type e = DuplicateVariantError)
       (Errors (validateEnum reg pos ename (vpre @ v1 # vmid @ vpost) fname res))))"
proof -
  note S = struct_second_occurrence[OF assms(1,2), where reg = reg and pos = pos and sname = sname
             and mid = fmid and post = fpost and fname = fname and res = res,
             unfolded duplicateFieldError_def]
  note E = enum_second_occurrence[OF assms(3,4), where reg = reg and pos = pos and ename = ename
             and mid = vmid and post = vpost and fname = fname and res = res,
             unfolded duplicateVariantError_def]
  have len: "length C = Suc (length B)"
    if "C = A @ e # drop (length A) B" and "take (length A) B = A"
    for A B C :: "ValidationError list" and e
  proof -
    have "length (take (length A) B) \<le> length B" by simp
    with that(2) have "length A \<le> length B" by simp
    with that(1) show ?thesis by simp
  qed
  show ?thesis
    by (intro conjI S(1) S(2) E(1) E(2) len[OF S(1) S(2)] len[OF E(1) E(2)])
qed

text \<open>The struct of the test \<open>TestValidator_DuplicateFields\<close> and an enum of the same
  shape.\<close>

definition testPos :: "int \<Rightarrow> Position" where
  "testPos l = \<lparr>Filename = ''test.tg'', PosLine = l, PosColumn = 1\<rparr>"

definition fieldAt :: "int \<Rightarrow> string \<Rightarrow> ast_type \<Rightarrow> FieldNode" where
  "fieldAt l n t = \<lparr>FieldPos = testPos l, FieldName = n, FieldType = t, FieldOptional = False\<rparr>"

definition variantAt :: "int \<Rightarrow> string \<Rightarrow> ast_type option \<Rightarrow> EnumVariantNode" where
  "variantAt l n p = \<lparr>VariantPos = testPos l, VariantName = n, Payload = p\<rparr>"

theorem duplicate_member_witness:
  "filter (\<lambda>e. Type e = DuplicateFieldError)
     (Errors (validateStruct NewTypeRegistry (testPos 2) ''User''
        [fieldAt 3 ''id'' (PrimitiveType ''int64''),
         fieldAt 4 ''name'' (PrimitiveType ''string''),
         fieldAt 5 ''id'' (PrimitiveType ''string'')] ''test.tg'' NewValidationResult)) =
     [\<lparr>Type = DuplicateFieldError,
       Message = ''duplicate field '' @ [CHR 0x27] @ ''id'' @ [CHR 0x27]
                   @ '' (first declared at line 3)'',
       File = ''test.tg'', Line = 5, Column = 1,
       Suggestion = ''rename one of the fields''\<rparr>]
   \<and> filter (\<lambda>e. Type e = DuplicateVariantError)
     (Errors (validateEnum NewTypeRegistry (testPos 2) ''Status''
        [variantAt 3 ''active'' None,
         variantAt 4 ''pending'' (Some (PrimitiveType ''string'')),
         variantAt 5 ''active'' None] ''test.tg'' NewValidationResult)) =
     [\<lparr>Type = DuplicateVariantError,
       Message = ''duplicate variant '' @ [CHR 0x27] @ ''active'' @ [CHR 0x27]
                   @ '' (first declared at line 3)'',
       File = ''test.tg'', Line = 5, Column = 1,
       Suggestion = ''rename one of the variants''\<rparr>]"
proof -
  have A: "filter (\<lambda>e. Type e = DuplicateFieldError)
     (Errors (validateStruct NewTypeRegistry (testPos 2) ''User''
        [fieldAt 3 ''id'' (PrimitiveType ''int64''),
         fieldAt 4 ''name'' (PrimitiveType ''string'')] ''test.tg'' NewValidationResult)) = []"
    by code_simp
  have B: "filter (\<lambda>e. Type e = DuplicateVariantError)
     (Errors (validateEnum NewTypeRegistry (testPos 2) ''Status''
        [variantAt 3 ''active'' None,
         variantAt 4 ''pending'' (Some (PrimitiveType ''string''))] ''test.tg''
        NewValidationResult)) = []"
    by code_simp
  have n: "fmt_d 3 = ''3''" by code_simp
  have sel: "\<And>l n t. FieldName (fieldAt l n t) = n"
    "\<And>l n t. PosLine (FieldPos (fieldAt l n t)) = l"
    "\<And>l n t. PosColumn (FieldPos (fieldAt l n t)) = 1"
    "\<And>l n p. VariantName (variantAt l n p) = n"
    "\<And>l n p. PosLine (VariantPos (variantAt l n p)) = l"
    "\<And>l n p. PosColumn (VariantPos (variantAt l n p)) = 1"
    by (simp_all add: fieldAt_def variantAt_def testPos_def)
  show ?thesis
    using duplicate_member_reported[where ?f1.0 = "fieldAt 3 ''id'' (PrimitiveType ''int64'')"
        and ?f2.0 = "fieldAt 5 ''id'' (PrimitiveType ''string'')" and fpre = "[]"
        and fmid = "[fieldAt 4 ''name'' (PrimitiveType ''string'')]" and fpost = "[]"
        and ?v1.0 = "variantAt 3 ''active'' None" and ?v2.0 = "variantAt 5 ''active'' None"
        and vpre = "[]" and vmid = "[variantAt 4 ''pending'' (Some (PrimitiveType ''string''))]"
        and vpost = "[]" and reg = NewTypeRegistry and pos = "testPos 2" and sname = "''User''"
        and ename = "''Status''" and fname = "''test.tg''" and res = NewValidationResult]
    by (simp add: A B n sel)
qed

text \<open>
  Claim C6. Let a file hold a declaration \<open>d1\<close>, the first of its name, and later a
  declaration \<open>d2\<close> of the same name. Then the second occurrence yields exactly one
  \<open>DuplicateTypeError\<close>: the errors of that kind are those of the file without \<open>d2\<close>,
  with one more error put in at the place of \<open>d2\<close>, reported at the position of \<open>d2\<close>
  and citing the line of \<open>d1\<close>. The names seen are kept per file: when no file of the
  module tree declares a name twice, \<open>Validate\<close> reports no \<open>DuplicateTypeError\<close>,
  whatever names the files share with each other. \<open>Validate\<close> checks every file of the
  tree on its own: its errors of this kind are those of \<open>validateProgram\<close> on each file,
  one file after the other. So when such a file is in the module tree, \<open>Validate\<close>
  reports the error of \<open>d2\<close>, and it reports exactly one error of this kind more than
  on the module tree that differs only in lacking \<open>d2\<close>.
\<close>

theorem duplicate_declaration_per_file:
  assumes "DeclName d1 = DeclName d2" and "DeclName d2 \<notin> DeclName ` set pre"
  shows
    "filter (\<lambda>e. Type e = DuplicateTypeError)
       (Errors (validateProgram reg
          \<lparr>Imports = imps, Declarations = pre @ d1 # mid @ d2 # post\<rparr> fname res)) =
     filter (\<lambda>e. Type e = DuplicateTypeError)
       (Errors (validateProgram reg
          \<lparr>Imports = imps, Declarations = pre @ d1 # mid\<rparr> fname res))
     @ \<lparr>Type = DuplicateTypeError,
        Message = ''duplicate '' @ declTypeOf d2 @ '' '' @ [CHR 0x27] @ DeclName d2 @ [CHR 0x27]
                    @ '' (first declared at line '' @ fmt_d (PosLine (DeclPos d1)) @ '')'',
        File = fname, Line = PosLine (DeclPos d2), Column = PosColumn (DeclPos d2),
        Suggestion = ''rename one of the declarations''\<rparr>
     # drop (length (filter (\<lambda>e. Type e = DuplicateTypeError)
               (Errors (validateProgram reg
                  \<lparr>Imports = imps, Declarations = pre @ d1 # mid\<rparr> fname res))))
         (filter (\<lambda>e. Type e = DuplicateTypeError)
            (Errors (validateProgram reg
               \<lparr>Imports = imps, Declarations = pre @ d1 # mid @ post\<rparr> fname res)))
   \<and> take (length (filter (\<lambda>e. Type e = DuplicateTypeError)
               (Errors (validateProgram reg
                  \<lparr>Imports = imps, Declarations = pre @ d1 # mid\<rparr> fname res))))
         (filter (\<lambda>e. Type e = DuplicateTypeError)
            (Errors (validateProgram reg
               \<lparr>Imports = imps, Declarations = pre @ d1 # mid @ post\<rparr> fname res))) =
     filter (\<lambda>e. Type e = DuplicateTypeError)
       (Errors (validateProgram reg
          \<lparr>Imports = imps, Declarations = pre @ d1 # mid\<rparr> fname res))
   \<and> length (filter (\<lambda>e. Type e = DuplicateTypeError)
       (Errors (validateProgram reg
          \<lparr>Imports = imps, Declarations = pre @ d1 # mid @ d2 # post\<rparr> fname res))) =
     Suc (length (filter (\<lambda>e. Type e = DuplicateTypeError)
       (Errors (validateProgram reg
          \<lparr>Imports = imps, Declarations = pre @ d1 # mid @ post\<rparr> fname res))))
   \<and> ((\<forall>p \<in> set (allPrograms module). distinct (map DeclName (Declarations p))) \<longrightarrow>
        filter (\<lambda>e. Type e = DuplicateTypeError)
          (Errors (snd (Validate v module keyOrder))) = [])
   \<and> filter (\<lambda>e. Type e = DuplicateTypeError) (Errors (snd (Validate v module keyOrder))) =
       concat (map (\<lambda>(filename, program).
                      filter (\<lambda>e. Type e = DuplicateTypeError)
                        (Errors (validateProgram (buildTypeRegistry module) program filename
                           NewValidationResult)))
                 (allFiles module []))
   \<and> ((fname, \<lparr>Imports = imps, Declarations = pre @ d1 # mid @ d2 # post\<rparr>)
          \<in> set (allFiles module []) \<longrightarrow>
        \<lparr>Type = DuplicateTypeError,
         Message = ''duplicate '' @ declTypeOf d2 @ '' '' @ [CHR 0x27] @ DeclName d2 @ [CHR 0x27]
                     @ '' (first declared at line '' @ fmt_d (PosLine (DeclPos d1)) @ '')'',
         File = fname, Line = PosLine (DeclPos d2), Column = PosColumn (DeclPos d2),
         Suggestion = ''rename one of the declarations''\<rparr>
          \<in> set (Errors (snd (Validate v module keyOrder))))
   \<and> (allFiles module [] =
          before @ (fname, \<lparr>Imports = imps, Declarations = pre @ d1 # mid @ d2 # post\<rparr>) # after
        \<and> allFiles module' [] =
          before @ (fname, \<lparr>Imports = imps, Declarations = pre @ d1 # mid @ post\<rparr>) # after
        \<longrightarrow>
        length (filter (\<lambda>e. Type e = DuplicateTypeError)
                  (Errors (snd (Validate v module keyOrder)))) =
        Suc (length (filter (\<lambda>e. Type e = DuplicateTypeError)
                       (Errors (snd (Validate v' module' keyOrder'))))))"
proof -
  let ?dup = "\<lambda>es. filter (\<lambda>e. Type e = DuplicateTypeError) es"
  let ?e = "\<lparr>Type = DuplicateTypeError,
         Message = ''duplicate '' @ declTypeOf d2 @ '' '' @ [CHR 0x27] @ DeclName d2 @ [CHR 0x27]
                     @ '' (first declared at line '' @ fmt_d (PosLine (DeclPos d1)) @ '')'',
         File = fname, Line = PosLine (DeclPos d2), Column = PosColumn (DeclPos d2),
         Suggestion = ''rename one of the declarations''\<rparr>"
  let ?with = "\<lparr>Imports = imps, Declarations = pre @ d1 # mid @ d2 # post\<rparr>"
  let ?without = "\<lparr>Imports = imps, Declarations = pre @ d1 # mid @ post\<rparr>"
  let ?reg = "buildTypeRegistry module"
  let ?D = "\<lambda>(filename, program).
              ?dup (Errors (validateProgram ?reg program filename NewValidationResult))"
  let ?D' = "\<lambda>(filename, program).
              ?dup (Errors (validateProgram (buildTypeRegistry module') program filename
                              NewValidationResult))"
  note P = program_second_occurrence[OF assms(1,2), where reg = reg and imps = imps
             and mid = mid and post = post and fname = fname and res = res,
             unfolded duplicateTypeError_def]
  note Q = program_second_occurrence[OF assms(1,2), where reg = ?reg and imps = imps
             and mid = mid and post = post and fname = fname and res = NewValidationResult,
             unfolded duplicateTypeError_def]
  have len: "length C = Suc (length B)"
    if "C = A @ e # drop (length A) B" and "take (length A) B = A"
    for A B C :: "ValidationError list" and e
  proof -
    have "length (take (length A) B) \<le> length B" by simp
    with that(2) have "length A \<le> length B" by simp
    with that(1) show ?thesis by simp
  qed
  have V: "(\<forall>p \<in> set (allPrograms module). distinct (map DeclName (Declarations p))) \<longrightarrow>
        ?dup (Errors (snd (Validate v module keyOrder))) = []"
  proof
    assume "\<forall>p \<in> set (allPrograms module). distinct (map DeclName (Declarations p))"
    then show "?dup (Errors (snd (Validate v module keyOrder))) = []"
      by (intro Validate_distinct_no_duplicates) simp
  qed
  have W: "?dup (Errors (snd (Validate v module keyOrder))) =
             concat (map ?D (allFiles module []))"
    by (rule Validate_duplicates)
  have W': "?dup (Errors (snd (Validate v' module' keyOrder'))) =
             concat (map ?D' (allFiles module' []))"
    by (rule Validate_duplicates)
  have DD: "?D' = ?D"
    by (rule ext) (simp add: case_prod_beta duplicates_registry[of "buildTypeRegistry module'" _ _ _ ?reg])
  have M: "(fname, ?with) \<in> set (allFiles module []) \<longrightarrow>
             ?e \<in> set (Errors (snd (Validate v module keyOrder)))"
  proof
    assume f: "(fname, ?with) \<in> set (allFiles module [])"
    have a: "?e \<in> set (?D (fname, ?with))"
      unfolding prod.case by (subst Q(1)) simp
    have "?e \<in> set (concat (map ?D (allFiles module [])))"
      by (rule in_concat_map[where f = "?D", OF f a])
    then have "?e \<in> set (?dup (Errors (snd (Validate v module keyOrder))))"
      by (simp only: W)
    then show "?e \<in> set (Errors (snd (Validate v module keyOrder)))" by simp
  qed
  have L: "allFiles module [] = before @ (fname, ?with) # after
        \<and> allFiles module' [] = before @ (fname, ?without) # after
        \<longrightarrow>
        length (?dup (Errors (snd (Validate v module keyOrder)))) =
        Suc (length (?dup (Errors (snd (Validate v' module' keyOrder')))))"
  proof
    assume h: "allFiles module [] = before @ (fname, ?with) # after
        \<and> allFiles module' [] = before @ (fname, ?without) # after"
    have l: "length (?D (fname, ?with)) = Suc (length (?D (fname, ?without)))"
      unfolding prod.case by (rule len[OF Q(1) Q(2)])
    have 1: "?dup (Errors (snd (Validate v module keyOrder))) =
               concat (map ?D before) @ ?D (fname, ?with) @ concat (map ?D after)"
      unfolding W using h by simp
    have 2: "?dup (Errors (snd (Validate v' module' keyOrder'))) =
               concat (map ?D before) @ ?D (fname, ?without) @ concat (map ?D after)"
      unfolding W' DD using h by simp
    show "length (?dup (Errors (snd (Validate v module keyOrder)))) =
        Suc (length (?dup (Errors (snd (Validate v' module' keyOrder')))))"
      unfolding 1 2 using l by simp
  qed
  show ?thesis
    by (intro conjI P(1) P(2) len[OF P(1) P(2)] V W M L)
qed


text \<open>A struct \<open>User\<close> declared at a line of a file; a module whose one file declares it
  twice and the same module without the second declaration; and a module with two files
  that each declare it once.\<close>

definition userStruct :: "string \<Rightarrow> int \<Rightarrow> Declaration" where
  "userStruct file l =
     StructNode \<lparr>Filename = file, PosLine = l, PosColumn = 1\<rparr> ''User''
       [\<lparr>FieldPos = \<lparr>Filename = file, PosLine = l + 1, PosColumn = 1\<rparr>, FieldName = ''id'',
         FieldType = PrimitiveType ''int64'', FieldOptional = False\<rparr>]"

definition userTwiceModule :: Module where
  "userTwiceModule = Module ''test'' ''test''
     [(''test.tg'',
       \<lparr>Imports = [],
        Declarations = [userStruct ''test.tg'' 2, userStruct ''test.tg'' 6]\<rparr>)] []"

definition userOnceModule :: Module where
  "userOnceModule = Module ''test'' ''test''
     [(''test.tg'', \<lparr>Imports = [], Declarations = [userStruct ''test.tg'' 2]\<rparr>)] []"

definition twoUserFiles :: Module where
  "twoUserFiles = Module ''test'' ''test''
     [(''a.tg'', \<lparr>Imports = [], Declarations = [userStruct ''a.tg'' 2]\<rparr>),
      (''b.tg'', \<lparr>Imports = [], Declarations = [userStruct ''b.tg'' 2]\<rparr>)] []"

theorem duplicate_declaration_witness:
  "filter (\<lambda>e. Type e = DuplicateTypeError)
     (Errors (validateProgram NewTypeRegistry
        \<lparr>Imports = [], Declarations = [userStruct ''test.tg'' 2, userStruct ''test.tg'' 6]\<rparr>
        ''test.tg'' NewValidationResult)) =
     [\<lparr>Type = DuplicateTypeError,
       Message = ''duplicate struct '' @ [CHR 0x27] @ ''User'' @ [CHR 0x27]
                   @ '' (first declared at line 2)'',
       File = ''test.tg'', Line = 6, Column = 1,
       Suggestion = ''rename one of the declarations''\<rparr>]
   \<and> \<lparr>Type = DuplicateTypeError,
       Message = ''duplicate struct '' @ [CHR 0x27] @ ''User'' @ [CHR 0x27]
                   @ '' (first declared at line 2)'',
       File = ''test.tg'', Line = 6, Column = 1,
       Suggestion = ''rename one of the declarations''\<rparr>
      \<in> set (Errors (snd (Validate NewValidator userTwiceModule [''test.tg::User''])))
   \<and> length (filter (\<lambda>e. Type e = DuplicateTypeError)
         (Errors (snd (Validate NewValidator userTwiceModule [''test.tg::User''])))) = 1
   \<and> filter (\<lambda>e. Type e = DuplicateTypeError)
       (Errors (snd (Validate NewValidator twoUserFiles [''a.tg::User'', ''b.tg::User'']))) = []
   \<and> map DeclName (concat (map Declarations (allPrograms twoUserFiles))) = [''User'', ''User'']"
proof -
  let ?e = "\<lparr>Type = DuplicateTypeError,
       Message = ''duplicate struct '' @ [CHR 0x27] @ ''User'' @ [CHR 0x27]
                   @ '' (first declared at line 2)'',
       File = ''test.tg'', Line = 6, Column = 1,
       Suggestion = ''rename one of the declarations''\<rparr>"
  have A: "filter (\<lambda>e. Type e = DuplicateTypeError)
     (Errors (validateProgram NewTypeRegistry
        \<lparr>Imports = [], Declarations = [userStruct ''test.tg'' 2]\<rparr>
        ''test.tg'' NewValidationResult)) = []"
    by code_simp
  have B: "filter (\<lambda>e. Type e = DuplicateTypeError)
     (Errors (snd (Validate NewValidator userOnceModule [''test.tg::User'']))) = []"
    by code_simp
  have n: "fmt_d 2 = ''2''" by code_simp
  have sel: "\<And>f l. DeclName (userStruct f l) = ''User''"
    "\<And>f l. PosLine (DeclPos (userStruct f l)) = l"
    "\<And>f l. PosColumn (DeclPos (userStruct f l)) = 1"
    "\<And>f l. declTypeOf (userStruct f l) = ''struct''"
    by (simp_all add: userStruct_def)
  have D: "\<forall>p \<in> set (allPrograms twoUserFiles). distinct (map DeclName (Declarations p))"
    by (simp add: twoUserFiles_def)
  have U: "map DeclName (concat (map Declarations (allPrograms twoUserFiles))) =
             [''User'', ''User'']"
    by (simp add: twoUserFiles_def sel)
  have F2: "allFiles userTwiceModule [] =
              [] @ (''test.tg'',
                    \<lparr>Imports = [],
                     Declarations = [] @ userStruct ''test.tg'' 2 # [] @ userStruct ''test.tg'' 6 # []\<rparr>)
                 # []"
    by (simp add: userTwiceModule_def joinPath_def)
  have F1: "allFiles userOnceModule [] =
              [] @ (''test.tg'',
                    \<lparr>Imports = [],
                     Declarations = [] @ userStruct ''test.tg'' 2 # [] @ []\<rparr>)
                 # []"
    by (simp add: userOnceModule_def joinPath_def)
  have h1: "DeclName (userStruct ''test.tg'' 2) = DeclName (userStruct ''test.tg'' 6)"
    by (simp add: sel)
  have h2: "DeclName (userStruct ''test.tg'' 6) \<notin> DeclName ` set []"
    by simp
  note T = duplicate_declaration_per_file[OF h1 h2, where mid = "[]" and post = "[]"
        and reg = NewTypeRegistry and imps = "[]" and fname = "''test.tg''"
        and res = NewValidationResult and module = userTwiceModule and v = NewValidator
        and keyOrder = "[''test.tg::User'']" and before = "[]" and after = "[]"
        and module' = userOnceModule and v' = NewValidator
        and keyOrder' = "[''test.tg::User'']"]
  have 1: "filter (\<lambda>e. Type e = DuplicateTypeError)
     (Errors (validateProgram NewTypeRegistry
        \<lparr>Imports = [], Declarations = [userStruct ''test.tg'' 2, userStruct ''test.tg'' 6]\<rparr>
        ''test.tg'' NewValidationResult)) = [?e]"
    using T[THEN conjunct1] by (simp add: A n sel)
  have 2: "?e \<in> set (Errors (snd (Validate NewValidator userTwiceModule [''test.tg::User''])))"
    using T[THEN conjunct2, THEN conjunct2, THEN conjunct2, THEN conjunct2, THEN conjunct2,
            THEN conjunct1] F2
    by (simp add: n sel)
  have 3: "length (filter (\<lambda>e. Type e = DuplicateTypeError)
         (Errors (snd (Validate NewValidator userTwiceModule [''test.tg::User''])))) = 1"
    using T[THEN conjunct2, THEN conjunct2, THEN conjunct2, THEN conjunct2, THEN conjunct2,
            THEN conjunct2] F1 F2
    by (simp add: B)
  have N: "filter (\<lambda>e. Type e = DuplicateTypeError)
       (Errors (snd (Validate NewValidator twoUserFiles [''a.tg::User'', ''b.tg::User'']))) = []"
    using duplicate_declaration_per_file[OF h1 h2, where module = twoUserFiles
        and v = NewValidator and keyOrder = "[''a.tg::User'', ''b.tg::User'']",
        THEN conjunct2, THEN conjunct2, THEN conjunct2, THEN conjunct1]
      D
    by simp
  show ?thesis by (rule conjI[OF 1 conjI[OF 2 conjI[OF 3 conjI[OF N U]]]])
qed

end
